(* ===== verification/Mctp_Prelude.thy ===== *)
theory Mctp_Prelude
  imports Main "HOL-Library.Word"
begin

text \<open>
  Shared vocabulary of the development: the machine integers of the C code, the outcome type
  of an operation that may run into undefined behaviour or a failed \<open>assert\<close>, bounds-checked
  reads and writes of byte arrays, the first-match search that the table loops of the library
  perform, and the generic lemmas the component theories use.

  The C code is compiled for 64-bit Windows, so \<open>size_t\<close> is \<open>64 word\<close>, \<open>uint8_t\<close> and
  \<open>mctp_eid_t\<close> are \<open>8 word\<close>, and \<open>DWORD\<close> and \<open>ULONG\<close> are \<open>32 word\<close>. A return code of type
  \<open>int\<close> is a HOL \<open>int\<close>: the code only passes on and compares small negative error numbers.
\<close>

unbundle bit_operations_syntax

section \<open>Types\<close>

type_synonym u8 = "8 word"
type_synonym u32 = "32 word"
type_synonym u64 = "64 word"
type_synonym bytes = "u8 list"

text \<open>
  What can go wrong in C: a failed \<open>assert\<close>, a NULL dereference (also a call through a NULL
  function pointer), an access outside an object, a \<open>free\<close> of a block that is not allocated,
  and a loop that does not end.
\<close>

datatype fault = Assert_failed | Null_deref | Out_of_bounds | Bad_free | Diverged

type_synonym 'a res = "fault + 'a"

definition rbind :: "'a res \<Rightarrow> ('a \<Rightarrow> 'b res) \<Rightarrow> 'b res" where
  "rbind m k = (case m of Inl e \<Rightarrow> Inl e | Inr x \<Rightarrow> k x)"

definition check :: "fault \<Rightarrow> bool \<Rightarrow> unit res" where
  "check e b = (if b then Inr () else Inl e)"

definition c_assert :: "bool \<Rightarrow> unit res" where
  "c_assert b = check Assert_failed b"

definition deref :: "'a option \<Rightarrow> 'a res" where
  "deref p = (case p of None \<Rightarrow> Inl Null_deref | Some x \<Rightarrow> Inr x)"

section \<open>Byte arrays\<close>

text \<open>\<open>memcpy\<close> out of and into an array, faulting when the range leaves it.\<close>

definition mem_read :: "bytes \<Rightarrow> nat \<Rightarrow> nat \<Rightarrow> bytes res" where
  "mem_read m off n = (if off + n \<le> length m then Inr (take n (drop off m)) else Inl Out_of_bounds)"

definition mem_write :: "bytes \<Rightarrow> nat \<Rightarrow> bytes \<Rightarrow> bytes res" where
  "mem_write m off bs =
     (if off + length bs \<le> length m
      then Inr (take off m @ bs @ drop (off + length bs) m) else Inl Out_of_bounds)"

section \<open>First match in a table\<close>

primrec find_idx :: "('a \<Rightarrow> bool) \<Rightarrow> 'a list \<Rightarrow> nat option" where
  "find_idx P [] = None"
| "find_idx P (x # xs) = (if P x then Some 0 else map_option Suc (find_idx P xs))"

section \<open>Error numbers\<close>

text \<open>The values of the Windows C runtime's \<open>errno.h\<close>, the platform the build targets.\<close>

definition ENXIO :: int where [simp]: "ENXIO = 6"
definition EIO :: int where [simp]: "EIO = 5"
definition ENOMEM :: int where [simp]: "ENOMEM = 12"
definition EBUSY :: int where [simp]: "EBUSY = 16"
definition EINVAL :: int where [simp]: "EINVAL = 22"
definition ENOSPC :: int where [simp]: "ENOSPC = 28"
definition EPIPE :: int where [simp]: "EPIPE = 32"
definition EMSGSIZE :: int where [simp]: "EMSGSIZE = 115"

section \<open>Automation\<close>

named_theorems endpoint_defs \<open>the invariant of an endpoint and its parts\<close>
named_theorems wire_defs \<open>the bytes of a packet header\<close>

lemma rbind_Inr [simp]: "rbind (Inr x) k = k x"
  by (simp add: rbind_def)

lemma rbind_Inl [simp]: "rbind (Inl e) k = Inl e"
  by (simp add: rbind_def)

lemma rbind_eq_Inr_iff: "rbind m k = Inr y \<longleftrightarrow> (\<exists>x. m = Inr x \<and> k x = Inr y)"
  by (cases m) auto

lemma rbind_eq_InrE [elim!]:
  assumes "rbind m k = Inr y"
  obtains x where "m = Inr x" "k x = Inr y"
  using assms by (auto simp: rbind_eq_Inr_iff)

lemma rbind_assoc: "rbind (rbind m k) l = rbind m (\<lambda>x. rbind (k x) l)"
  by (cases m) auto

lemma rbind_cong [fundef_cong]:
  "m = m' \<Longrightarrow> (\<And>x. m' = Inr x \<Longrightarrow> k x = k' x) \<Longrightarrow> rbind m k = rbind m' k'"
  by (cases m') auto

lemma rbind_if: "rbind (if b then m else m') k = (if b then rbind m k else rbind m' k)"
  by simp

lemma check_True [simp]: "check e True = Inr ()"
  by (simp add: check_def)

lemma check_False [simp]: "check e False = Inl e"
  by (simp add: check_def)

lemma check_eq_Inr [simp]: "check e b = Inr u \<longleftrightarrow> b"
  by (simp add: check_def)

lemma c_assert_simps [simp]: "c_assert True = Inr ()" "c_assert False = Inl Assert_failed"
  by (simp_all add: c_assert_def)

lemma c_assert_eq_Inr [simp]: "c_assert b = Inr u \<longleftrightarrow> b"
  by (simp add: c_assert_def)

lemma deref_simps [simp]: "deref (Some x) = Inr x" "deref None = Inl Null_deref"
  by (simp_all add: deref_def)

lemma deref_eq_Inr [simp]: "deref p = Inr x \<longleftrightarrow> p = Some x"
  by (cases p) auto

lemmas res_defs = rbind_def check_def c_assert_def deref_def

subsection \<open>Byte arrays\<close>

lemma mem_read_Inr_iff: "mem_read m off n = Inr bs \<longleftrightarrow> off + n \<le> length m \<and> bs = take n (drop off m)"
  by (auto simp: mem_read_def)

lemma mem_read_length: "mem_read m off n = Inr bs \<Longrightarrow> length bs = n"
  by (auto simp: mem_read_Inr_iff)

lemma mem_write_Inr_iff:
  "mem_write m off bs = Inr m' \<longleftrightarrow>
     off + length bs \<le> length m \<and> m' = take off m @ bs @ drop (off + length bs) m"
  by (auto simp: mem_write_def)

lemma mem_write_length: "mem_write m off bs = Inr m' \<Longrightarrow> length m' = length m"
  by (auto simp: mem_write_Inr_iff)

lemma mem_read_write_same:
  "mem_write m off bs = Inr m' \<Longrightarrow> mem_read m' off (length bs) = Inr bs"
  by (auto simp: mem_write_Inr_iff mem_read_Inr_iff)

lemma mem_read_write_split:
  assumes "mem_write m off bs = Inr m'" and "length bs = a + b"
  shows "mem_read m' off a = Inr (take a bs)" and "mem_read m' (off + a) b = Inr (drop a bs)"
  using assms by (auto simp: mem_write_Inr_iff mem_read_Inr_iff)

subsection \<open>Tables\<close>

lemma find_idx_None_iff: "find_idx P xs = None \<longleftrightarrow> (\<forall>x\<in>set xs. \<not> P x)"
  by (induction xs) auto

lemma find_idx_SomeD:
  "find_idx P xs = Some i \<Longrightarrow> i < length xs \<and> P (xs ! i) \<and> (\<forall>j<i. \<not> P (xs ! j))"
proof (induction xs arbitrary: i)
  case Nil
  then show ?case by simp
next
  case (Cons x xs)
  then show ?case
    by (auto simp: less_Suc_eq_0_disj nth_Cons split: if_splits nat.splits)
qed

lemma find_idx_SomeI:
  "i < length xs \<Longrightarrow> P (xs ! i) \<Longrightarrow> (\<And>j. j < i \<Longrightarrow> \<not> P (xs ! j)) \<Longrightarrow> find_idx P xs = Some i"
proof (induction xs arbitrary: i)
  case Nil
  then show ?case by simp
next
  case (Cons x xs)
  show ?case
  proof (cases i)
    case 0
    with Cons.prems show ?thesis by simp
  next
    case (Suc k)
    have "\<not> P x" using Cons.prems(3) [of 0] Suc by simp
    moreover have "\<not> P (xs ! j)" if "j < k" for j
      using Cons.prems(3) [of "Suc j"] Suc that by simp
    then have "find_idx P xs = Some k"
      using Cons.prems(1,2) Suc by (intro Cons.IH) auto
    ultimately show ?thesis using Suc by simp
  qed
qed

lemma find_idx_unique:
  assumes "i < length xs" and "P (xs ! i)" and "\<And>j. j < length xs \<Longrightarrow> P (xs ! j) \<Longrightarrow> j = i"
  shows "find_idx P xs = Some i"
proof (rule find_idx_SomeI)
  show "i < length xs" and "P (xs ! i)" by (rule assms)+
next
  fix j assume "j < i"
  then show "\<not> P (xs ! j)" using assms(1) assms(3) [of j] by auto
qed

subsection \<open>Machine integers\<close>

lemma unat_add_no_wrap:
  fixes a b :: "'a::len word"
  shows "unat a + unat b < 2 ^ LENGTH('a) \<Longrightarrow> unat (a + b) = unat a + unat b"
  by (simp add: unat_word_ariths)

lemma unat_u64_less: "unat (x :: u64) < 2 ^ 64"
  using unsigned_less [where 'b = 64 and w = x and 'a = nat] by simp

lemma word_add_overflow:
  fixes a b :: "'a::len word"
  assumes "2 ^ LENGTH('a) \<le> unat a + unat b"
  shows "b + a < a"
proof -
  have lt: "unat a < 2 ^ LENGTH('a)" "unat b < 2 ^ LENGTH('a)"
    by (rule unsigned_less)+
  have "unat (b + a) = (unat b + unat a) mod 2 ^ LENGTH('a)"
    by (simp add: unat_word_ariths)
  also have "\<dots> = (unat b + unat a - 2 ^ LENGTH('a)) mod 2 ^ LENGTH('a)"
    using assms by (intro le_mod_geq) linarith
  also have "\<dots> = unat b + unat a - 2 ^ LENGTH('a)"
    using lt by (intro mod_less) linarith
  finally have "unat (b + a) < unat a" using assms lt by linarith
  then show ?thesis by (simp add: word_less_nat_alt)
qed

lemma unat_diff_le:
  fixes a b :: "'a::len word"
  shows "b \<le> a \<Longrightarrow> unat (a - b) = unat a - unat b"
  by (rule unat_sub)

section \<open>Partial correctness\<close>

text \<open>\<open>ends Q m\<close>: when \<open>m\<close> returns, its result satisfies \<open>Q\<close>. The rules follow the structure of an operation, so that
  a fact about what an operation can never do is proved by simplification over its definition.\<close>

definition ends :: "('a \<Rightarrow> bool) \<Rightarrow> 'a res \<Rightarrow> bool" where
  "ends Q m \<longleftrightarrow> (\<forall>x. m = Inr x \<longrightarrow> Q x)"

lemma ends_simps [simp]:
  "ends Q (Inr x) = Q x" "ends Q (Inl e)" "ends Q (rbind m k) = ends (\<lambda>x. ends Q (k x)) m"
  by (cases m; simp add: ends_def)+

lemma ends_triv [simp]: "ends (\<lambda>x. True) m"
  by (simp add: ends_def)

lemma ends_mono: "ends P m \<Longrightarrow> (\<And>x. P x \<Longrightarrow> Q x) \<Longrightarrow> ends Q m"
  by (simp add: ends_def)

lemma ends_all: "(\<And>x. Q x) \<Longrightarrow> ends Q m"
  by (simp add: ends_def)

lemma ends_deref [simp]: "ends Q (deref p) = (\<forall>x. p = Some x \<longrightarrow> Q x)"
  by (simp add: ends_def deref_def split: option.split)

lemma ends_check [simp]: "ends Q (check e c) = (c \<longrightarrow> Q ())" "ends Q (c_assert c) = (c \<longrightarrow> Q ())"
  by (simp_all add: ends_def check_def c_assert_def)

end
