(* ===== verification/Mctp_Alloc.thy ===== *)
theory Mctp_Alloc
  imports Mctp_Prelude
begin

text \<open>
  Memory allocation: \<^verbatim>\<open>src/alloc.c\<close>. The C library's \<open>malloc\<close> and \<open>free\<close> act on a ledger
  of live blocks; \<open>h_ok\<close> is the allocator's answer, so that every failure pattern is covered.
  The table \<open>alloc_ops\<close> of function pointers is a record of optional operations: a pointer to
  one of the two default message functions is a constructor of its own, because these go
  through the table again.

  The locale \<open>msg_allocator\<close> is what the MCTP core relies on; it is interpreted for the
  default table.
\<close>

section \<open>The heap\<close>

record heap =
  h_next :: nat
  h_live :: "nat set"
  h_ok :: "nat \<Rightarrow> u64 \<Rightarrow> bool"

definition libc_malloc :: "u64 \<Rightarrow> heap \<Rightarrow> nat option \<times> heap" where
  "libc_malloc n h =
     (let b = h_next h; h' = h\<lparr>h_next := Suc b\<rparr>
      in if h_ok h b n then (Some b, h'\<lparr>h_live := insert b (h_live h)\<rparr>) else (None, h'))"

definition libc_free :: "nat option \<Rightarrow> heap \<Rightarrow> heap res" where
  "libc_free p h =
     (case p of None \<Rightarrow> Inr h
      | Some b \<Rightarrow> if b \<in> h_live h then Inr (h\<lparr>h_live := h_live h - {b}\<rparr>) else Inl Bad_free)"

section \<open>The operation table\<close>

datatype msg_alloc_fn =
    Default_msg_malloc
  | Custom_msg_alloc "u64 \<Rightarrow> nat \<Rightarrow> heap \<Rightarrow> nat option \<times> heap"

datatype msg_free_fn =
    Default_msg_free
  | Custom_msg_free "nat option \<Rightarrow> nat \<Rightarrow> heap \<Rightarrow> heap res"

record alloc_ops =
  m_alloc :: "(u64 \<Rightarrow> heap \<Rightarrow> nat option \<times> heap) option"
  m_free :: "(nat option \<Rightarrow> heap \<Rightarrow> heap res) option"
  m_msg_alloc :: "msg_alloc_fn option"
  m_msg_free :: "msg_free_fn option"

definition default_alloc_ops :: alloc_ops where
  "default_alloc_ops =
     \<lparr>m_alloc = Some libc_malloc, m_free = Some libc_free,
      m_msg_alloc = Some Default_msg_malloc, m_msg_free = Some Default_msg_free\<rparr>"

definition mctp_alloc :: "alloc_ops \<Rightarrow> u64 \<Rightarrow> heap \<Rightarrow> (nat option \<times> heap) res" where
  "mctp_alloc ops sz h =
     (case m_alloc ops of Some f \<Rightarrow> Inr (f sz h) | None \<Rightarrow> Inl Assert_failed)"

definition mctp_free :: "alloc_ops \<Rightarrow> nat option \<Rightarrow> heap \<Rightarrow> heap res" where
  "mctp_free ops p h =
     (case m_free ops of Some f \<Rightarrow> f p h | None \<Rightarrow> Inl Assert_failed)"

definition default_msg_malloc :: "alloc_ops \<Rightarrow> u64 \<Rightarrow> nat \<Rightarrow> heap \<Rightarrow> (nat option \<times> heap) res" where
  "default_msg_malloc ops sz ctx h = mctp_alloc ops sz h"

definition default_msg_free :: "alloc_ops \<Rightarrow> nat option \<Rightarrow> nat \<Rightarrow> heap \<Rightarrow> heap res" where
  "default_msg_free ops p ctx h = mctp_free ops p h"

text \<open>
  \<open>__mctp_msg_alloc\<close> and \<open>__mctp_msg_free\<close> with the allocator context already read from the
  MCTP instance. A missing \<open>m_msg_alloc\<close> is an assertion failure, a missing \<open>m_msg_free\<close> is
  silently ignored.
\<close>

definition mctp_msg_alloc :: "alloc_ops \<Rightarrow> u64 \<Rightarrow> nat \<Rightarrow> heap \<Rightarrow> (nat option \<times> heap) res" where
  "mctp_msg_alloc ops sz ctx h =
     (case m_msg_alloc ops of
        Some Default_msg_malloc \<Rightarrow> default_msg_malloc ops sz ctx h
      | Some (Custom_msg_alloc f) \<Rightarrow> Inr (f sz ctx h)
      | None \<Rightarrow> Inl Assert_failed)"

definition mctp_msg_free :: "alloc_ops \<Rightarrow> nat option \<Rightarrow> nat \<Rightarrow> heap \<Rightarrow> heap res" where
  "mctp_msg_free ops p ctx h =
     (case m_msg_free ops of
        Some Default_msg_free \<Rightarrow> default_msg_free ops p ctx h
      | Some (Custom_msg_free f) \<Rightarrow> f p ctx h
      | None \<Rightarrow> Inr h)"

definition mctp_set_alloc_ops ::
    "(u64 \<Rightarrow> heap \<Rightarrow> nat option \<times> heap) option \<Rightarrow> (nat option \<Rightarrow> heap \<Rightarrow> heap res) option \<Rightarrow>
     msg_alloc_fn option \<Rightarrow> msg_free_fn option \<Rightarrow> alloc_ops \<Rightarrow> alloc_ops" where
  "mctp_set_alloc_ops ma mf mma mmf ops =
     ops\<lparr>m_alloc := ma, m_free := mf, m_msg_alloc := mma, m_msg_free := mmf\<rparr>"

section \<open>The allocator contract\<close>

definition heap_ok :: "heap \<Rightarrow> bool" where
  "heap_ok h \<longleftrightarrow> (\<forall>b\<in>h_live h. b < h_next h)"

text \<open>
  What the core expects of the message operations: on a sound heap they do not fault, a block
  that is handed out was not live before and is the only change of the ledger, and freeing a
  live block removes exactly that block.
\<close>

locale msg_allocator =
  fixes ma :: "u64 \<Rightarrow> nat \<Rightarrow> heap \<Rightarrow> (nat option \<times> heap) res"
    and mf :: "nat option \<Rightarrow> nat \<Rightarrow> heap \<Rightarrow> heap res"
    and invar :: "heap \<Rightarrow> bool"
  assumes alloc_total: "invar h \<Longrightarrow> \<exists>p h'. ma n c h = Inr (p, h')"
    and alloc_invar: "invar h \<Longrightarrow> ma n c h = Inr (p, h') \<Longrightarrow> invar h'"
    and alloc_none: "invar h \<Longrightarrow> ma n c h = Inr (None, h') \<Longrightarrow> h_live h' = h_live h"
    and alloc_some: "invar h \<Longrightarrow> ma n c h = Inr (Some b, h') \<Longrightarrow>
          b \<notin> h_live h \<and> h_live h' = insert b (h_live h)"
    and free_live: "invar h \<Longrightarrow> b \<in> h_live h \<Longrightarrow>
          \<exists>h'. mf (Some b) c h = Inr h' \<and> invar h' \<and> h_live h' = h_live h - {b}"
begin

lemma free_total:
  assumes "invar h" and "b \<in> h_live h" and "mf (Some b) c h = Inr h'"
  shows "invar h' \<and> h_live h' = h_live h - {b}"
  using free_live [OF assms(1,2), of c] assms(3) by auto

lemma alloc_free_cancel:
  assumes "invar h" and "ma n c h = Inr (Some b, h')"
  shows "\<exists>h''. mf (Some b) c' h' = Inr h'' \<and> invar h'' \<and> h_live h'' = h_live h"
proof -
  have "invar h'" and "b \<notin> h_live h" and l: "h_live h' = insert b (h_live h)"
    using assms alloc_invar alloc_some by blast+
  moreover have "b \<in> h_live h'" using l by simp
  ultimately show ?thesis using free_live [of h' b c'] by auto
qed

lemma alloc_keeps_live:
  assumes "invar h" and "ma n c h = Inr (p, h')"
  shows "h_live h \<subseteq> h_live h'"
  using assms alloc_none alloc_some by (cases p) blast+

end

lemma heap_ok_malloc: "heap_ok h \<Longrightarrow> libc_malloc n h = (p, h') \<Longrightarrow> heap_ok h'"
  by (auto simp: heap_ok_def libc_malloc_def Let_def less_Suc_eq split: if_splits)

lemma libc_malloc_None: "libc_malloc n h = (None, h') \<Longrightarrow> h_live h' = h_live h"
  by (auto simp: libc_malloc_def Let_def split: if_splits)

lemma libc_malloc_Some:
  "heap_ok h \<Longrightarrow> libc_malloc n h = (Some b, h') \<Longrightarrow>
     b \<notin> h_live h \<and> h_live h' = insert b (h_live h)"
  by (auto simp: heap_ok_def libc_malloc_def Let_def split: if_splits)

lemma heap_ok_free: "heap_ok h \<Longrightarrow> libc_free p h = Inr h' \<Longrightarrow> heap_ok h'"
  by (auto simp: heap_ok_def libc_free_def split: option.splits if_splits)

lemmas default_ops_simps =
  mctp_msg_alloc_def mctp_msg_free_def default_alloc_ops_def default_msg_malloc_def
  default_msg_free_def mctp_alloc_def mctp_free_def

interpretation default: msg_allocator
  "mctp_msg_alloc default_alloc_ops" "mctp_msg_free default_alloc_ops" heap_ok
proof unfold_locales
  fix h n c
  show "\<exists>p h'. mctp_msg_alloc default_alloc_ops n c h = Inr (p, h')"
    by (cases "libc_malloc n h") (simp add: default_ops_simps)
next
  fix h n c p h'
  assume "heap_ok h" and "mctp_msg_alloc default_alloc_ops n c h = Inr (p, h')"
  then show "heap_ok h'" using heap_ok_malloc by (simp add: default_ops_simps)
next
  fix h n c h'
  assume "mctp_msg_alloc default_alloc_ops n c h = Inr (None, h')"
  then show "h_live h' = h_live h" using libc_malloc_None by (simp add: default_ops_simps)
next
  fix h n c b h'
  assume "heap_ok h" and "mctp_msg_alloc default_alloc_ops n c h = Inr (Some b, h')"
  then show "b \<notin> h_live h \<and> h_live h' = insert b (h_live h)"
    using libc_malloc_Some by (simp add: default_ops_simps)
next
  fix h b c
  assume "heap_ok h" and "b \<in> h_live h"
  then show "\<exists>h'. mctp_msg_free default_alloc_ops (Some b) c h = Inr h' \<and> heap_ok h' \<and>
                 h_live h' = h_live h - {b}"
    by (auto simp: default_ops_simps libc_free_def heap_ok_def)
qed

text \<open>A table with which the core may run: its message operations keep the contract.\<close>

definition good_ops :: "alloc_ops \<Rightarrow> bool" where
  "good_ops ops \<longleftrightarrow> msg_allocator (mctp_msg_alloc ops) (mctp_msg_free ops) heap_ok"

lemma good_ops_default [simp]: "good_ops default_alloc_ops"
  by (simp add: good_ops_def default.msg_allocator_axioms)

end
