(* ===== verification/Mctp_Types.thy ===== *)
theory Mctp_Types
  imports Mctp_Alloc
begin

text \<open>
  The data model: the structures and constants of \<^verbatim>\<open>include/libmctp.h\<close>,
  \<^verbatim>\<open>include/core-internal.h\<close> and the state one MCTP instance lives in.

  Pointers. A message buffer or a packet buffer is owned by one holder at a time, so it is a
  value that carries the number of its heap block. A \<open>struct mctp_bus *\<close> is an index into the
  array \<open>busses\<close>, a \<open>struct mctp_binding *\<close> an index into the store \<open>bindings\<close>, and the
  pointers back to the one instance (\<open>bus->mctp\<close>, \<open>binding->mctp\<close>) are booleans: not NULL.
  A user callback is an opaque code pointer (\<open>None\<close> is NULL) and its data pointer a number; a
  call through it is an event of the trace. Callbacks are taken not to call back into the
  library.
\<close>

section \<open>Constants of the packet format\<close>

type_synonym mctp_eid_t = u8

definition MCTP_EID_NULL :: u8 where [simp]: "MCTP_EID_NULL = 0"
definition MCTP_EID_BROADCAST :: u8 where [simp]: "MCTP_EID_BROADCAST = 0xff"

definition MCTP_HDR_FLAG_SOM :: u8 where [simp]: "MCTP_HDR_FLAG_SOM = 0x80"
definition MCTP_HDR_FLAG_EOM :: u8 where [simp]: "MCTP_HDR_FLAG_EOM = 0x40"
definition MCTP_HDR_TO_SHIFT :: nat where [simp]: "MCTP_HDR_TO_SHIFT = 3"
definition MCTP_HDR_TO_MASK :: u8 where [simp]: "MCTP_HDR_TO_MASK = 1"
definition MCTP_HDR_SEQ_SHIFT :: nat where [simp]: "MCTP_HDR_SEQ_SHIFT = 4"
definition MCTP_HDR_SEQ_MASK :: u8 where [simp]: "MCTP_HDR_SEQ_MASK = 3"
definition MCTP_HDR_TAG_SHIFT :: nat where [simp]: "MCTP_HDR_TAG_SHIFT = 0"
definition MCTP_HDR_TAG_MASK :: u8 where [simp]: "MCTP_HDR_TAG_MASK = 7"

definition SIZEOF_MCTP_HDR :: u64 where [simp]: "SIZEOF_MCTP_HDR = 4"
definition SIZEOF_MCTP_PKTBUF :: u64 where [simp]: "SIZEOF_MCTP_PKTBUF = 40"

definition MCTP_BTU :: u64 where [simp]: "MCTP_BTU = 64"
definition MCTP_PACKET_SIZE :: "u64 \<Rightarrow> u64" where
  [simp]: "MCTP_PACKET_SIZE unit = unit + SIZEOF_MCTP_HDR"
definition MCTP_BODY_SIZE :: "u64 \<Rightarrow> u64" where
  [simp]: "MCTP_BODY_SIZE unit = unit - SIZEOF_MCTP_HDR"
definition MCTP_PKTBUF_SIZE :: "u64 \<Rightarrow> u64" where
  [simp]: "MCTP_PKTBUF_SIZE payload = MCTP_PACKET_SIZE payload + SIZEOF_MCTP_PKTBUF"

section \<open>Limits of the build\<close>

definition MCTP_MAX_MESSAGE_SIZE :: u64 where "MCTP_MAX_MESSAGE_SIZE = 33554432"
definition MCTP_MAX_BUSSES :: nat where [simp]: "MCTP_MAX_BUSSES = 2"
definition MCTP_REASSEMBLY_CTXS :: nat where [simp]: "MCTP_REASSEMBLY_CTXS = 16"
definition MCTP_REQ_TAGS :: nat where [simp]: "MCTP_REQ_TAGS = MCTP_REASSEMBLY_CTXS"
definition MCTP_TAG_TIMEOUT :: u64 where [simp]: "MCTP_TAG_TIMEOUT = 6000"
definition MCTP_CONTROL_MAX_TYPES :: nat where [simp]: "MCTP_CONTROL_MAX_TYPES = 10"

section \<open>Packets\<close>

record mctp_hdr =
  hdr_ver :: u8
  hdr_dest :: u8
  hdr_src :: u8
  flags_seq_tag :: u8

text \<open>\<open>pk_blk\<close> is the heap block of an allocated packet, \<open>pk_data\<close> the flexible array.\<close>

record mctp_pktbuf =
  pk_start :: u64
  pk_end :: u64
  pk_size :: u64
  mctp_hdr_off :: u64
  pk_alloc :: bool
  pk_data :: bytes
  pk_blk :: "nat option"

text \<open>
  A message buffer: its block, its capacity, and the bytes written so far (a prefix of the
  block, since every writer of the library writes front to back).
\<close>

record msgbuf =
  mb_blk :: nat
  mb_size :: u64
  mb_data :: bytes

section \<open>Bus, reassembly context, request tag\<close>

datatype mctp_bus_state =
    mctp_bus_state_constructed
  | mctp_bus_state_tx_enabled
  | mctp_bus_state_tx_disabled

record mctp_bus =
  bus_eid :: mctp_eid_t
  bus_binding :: "nat option"
  bus_state :: mctp_bus_state
  bus_mctp :: bool
  tx_msg :: "msgbuf option"
  tx_msgpos :: u64
  tx_msglen :: u64
  tx_pktlen :: u64
  tx_seq :: u8
  tx_src :: u8
  tx_dest :: u8
  tx_to :: bool
  tx_tag :: u8

record mctp_msg_ctx =
  ctx_buf :: "msgbuf option"
  ctx_src :: u8
  ctx_dest :: u8
  ctx_tag :: u8
  ctx_last_seq :: u8
  ctx_buf_size :: u64
  ctx_buf_alloc_size :: u64
  ctx_fragment_size :: u64

record mctp_req_tag =
  rt_local :: mctp_eid_t
  rt_remote :: mctp_eid_t
  rt_tag :: u8
  rt_expiry :: u64

record mctp_control =
  msg_types :: "u8 list"
  num_msg_types :: u64

section \<open>The MCTP instance\<close>

datatype route_policy = ROUTE_ENDPOINT | ROUTE_BRIDGE

type_synonym fnptr = "nat option"
type_synonym ptr = nat

record mctp =
  n_busses :: int
  busses :: "mctp_bus list"
  message_rx :: fnptr
  message_rx_data :: ptr
  capture :: fnptr
  capture_data :: ptr
  msg_ctxs :: "mctp_msg_ctx list"
  req_tags :: "mctp_req_tag list"
  tag_round_robin :: u8
  route_policy :: route_policy
  max_message_size :: u64
  control :: mctp_control
  alloc_ctx :: ptr
  platform_now :: fnptr
  platform_now_ctx :: ptr

section \<open>Bindings\<close>

text \<open>
  \<open>'e\<close> is the state private to the binding (the structure around \<open>struct mctp_binding\<close> that
  \<open>container_of\<close> reaches, and the device behind it). The start operation of the MMBI binding
  calls back into the core and is a constructor of its own; a binding of another kind is an
  arbitrary function on the private state.
\<close>

datatype 'e start_fn =
    Mctp_mmbi_start
  | Ext_start "'e \<Rightarrow> int \<times> 'e"

record 'e mctp_binding =
  b_name :: string
  b_version :: u8
  b_bus :: "nat option"
  b_mctp :: bool
  b_pkt_size :: u64
  b_pkt_header :: u64
  b_pkt_trailer :: u64
  b_tx_storage :: "mctp_pktbuf option"
  b_start :: "'e start_fn option"
  b_tx :: "('e \<Rightarrow> mctp_pktbuf \<Rightarrow> (int \<times> 'e) res) option"
  b_control_rx :: fnptr
  b_control_rx_data :: ptr
  b_priv :: 'e

section \<open>Calls through function pointers, and the whole state\<close>

text \<open>
  \<open>Ev_message_rx fn data src tag_owner tag msg len\<close> is a call of the message handler \<open>fn\<close>,
  \<open>Ev_control_rx\<close> one of a binding's control handler, \<open>Ev_capture fn pkt outgoing user\<close> one of
  the capture handler, and \<open>Ev_tx binding pkt rc\<close> a call of \<open>binding->tx\<close> that returned \<open>rc\<close>.
\<close>

datatype event =
    Ev_message_rx nat ptr u8 bool u8 bytes u64
  | Ev_control_rx nat u8 u8 bool ptr bytes u64
  | Ev_capture nat mctp_pktbuf bool ptr
  | Ev_tx nat mctp_pktbuf int

record 'e world = mctp +
  bindings :: "nat \<Rightarrow> 'e mctp_binding"
  heap :: heap
  ops :: alloc_ops
  clock :: "nat \<Rightarrow> ptr \<Rightarrow> u64"
  trace :: "event list"

section \<open>Zeroed structures\<close>

definition zero_bus :: mctp_bus where
  "zero_bus = \<lparr>bus_eid = 0, bus_binding = None, bus_state = mctp_bus_state_constructed,
     bus_mctp = False, tx_msg = None, tx_msgpos = 0, tx_msglen = 0, tx_pktlen = 0, tx_seq = 0,
     tx_src = 0, tx_dest = 0, tx_to = False, tx_tag = 0\<rparr>"

definition zero_ctx :: mctp_msg_ctx where
  "zero_ctx = \<lparr>ctx_buf = None, ctx_src = 0, ctx_dest = 0, ctx_tag = 0, ctx_last_seq = 0,
     ctx_buf_size = 0, ctx_buf_alloc_size = 0, ctx_fragment_size = 0\<rparr>"

definition zero_req_tag :: mctp_req_tag where
  "zero_req_tag = \<lparr>rt_local = 0, rt_remote = 0, rt_tag = 0, rt_expiry = 0\<rparr>"

definition zero_control :: mctp_control where
  "zero_control = \<lparr>msg_types = replicate MCTP_CONTROL_MAX_TYPES 0, num_msg_types = 0\<rparr>"

section \<open>Access helpers\<close>

definition bus_at :: "'e world \<Rightarrow> nat \<Rightarrow> mctp_bus" where
  "bus_at w i = busses w ! i"

definition set_bus :: "nat \<Rightarrow> mctp_bus \<Rightarrow> 'e world \<Rightarrow> 'e world" where
  "set_bus i b w = w\<lparr>busses := (busses w)[i := b]\<rparr>"

definition set_binding :: "nat \<Rightarrow> 'e mctp_binding \<Rightarrow> 'e world \<Rightarrow> 'e world" where
  "set_binding i b w = w\<lparr>bindings := (bindings w)(i := b)\<rparr>"

definition emit :: "event \<Rightarrow> 'e world \<Rightarrow> 'e world" where
  "emit e w = w\<lparr>trace := trace w @ [e]\<rparr>"

text \<open>\<open>__mctp_msg_alloc\<close> and \<open>__mctp_msg_free\<close> on the whole state; the boolean is the
  \<open>struct mctp *\<close> argument, whose \<open>alloc_ctx\<close> is read first.\<close>

definition w_msg_alloc :: "u64 \<Rightarrow> bool \<Rightarrow> 'e world \<Rightarrow> (msgbuf option \<times> 'e world) res" where
  "w_msg_alloc n m w =
     rbind (check Null_deref m) (\<lambda>_.
     rbind (mctp_msg_alloc (ops w) n (alloc_ctx w) (heap w)) (\<lambda>(p, h).
       Inr (map_option (\<lambda>b. \<lparr>mb_blk = b, mb_size = n, mb_data = []\<rparr>) p, w\<lparr>heap := h\<rparr>)))"

definition w_msg_free :: "msgbuf option \<Rightarrow> bool \<Rightarrow> 'e world \<Rightarrow> 'e world res" where
  "w_msg_free p m w =
     rbind (check Null_deref m) (\<lambda>_.
     rbind (mctp_msg_free (ops w) (map_option mb_blk p) (alloc_ctx w) (heap w)) (\<lambda>h.
       Inr (w\<lparr>heap := h\<rparr>)))"

text \<open>\<open>memcpy\<close> into a message buffer at an offset inside or right behind the written bytes.\<close>

definition buf_write :: "msgbuf \<Rightarrow> nat \<Rightarrow> bytes \<Rightarrow> msgbuf res" where
  "buf_write mb off bs =
     (if off \<le> length (mb_data mb) \<and> off + length bs \<le> unat (mb_size mb)
      then Inr (mb\<lparr>mb_data := take off (mb_data mb) @ bs @ drop (off + length bs) (mb_data mb)\<rparr>)
      else Inl Out_of_bounds)"

section \<open>Lemmas\<close>

lemma set_bus_sel [simp]:
  "n_busses (set_bus i b w) = n_busses w" "message_rx (set_bus i b w) = message_rx w"
  "message_rx_data (set_bus i b w) = message_rx_data w" "capture (set_bus i b w) = capture w"
  "capture_data (set_bus i b w) = capture_data w" "msg_ctxs (set_bus i b w) = msg_ctxs w"
  "req_tags (set_bus i b w) = req_tags w" "tag_round_robin (set_bus i b w) = tag_round_robin w"
  "route_policy (set_bus i b w) = route_policy w" "control (set_bus i b w) = control w"
  "max_message_size (set_bus i b w) = max_message_size w" "alloc_ctx (set_bus i b w) = alloc_ctx w"
  "platform_now (set_bus i b w) = platform_now w" "bindings (set_bus i b w) = bindings w"
  "platform_now_ctx (set_bus i b w) = platform_now_ctx w"
  "heap (set_bus i b w) = heap w" "ops (set_bus i b w) = ops w" "clock (set_bus i b w) = clock w"
  "trace (set_bus i b w) = trace w" "busses (set_bus i b w) = (busses w)[i := b]"
  by (simp_all add: set_bus_def)

lemma set_binding_sel [simp]:
  "n_busses (set_binding i b w) = n_busses w" "message_rx (set_binding i b w) = message_rx w"
  "message_rx_data (set_binding i b w) = message_rx_data w" "capture (set_binding i b w) = capture w"
  "capture_data (set_binding i b w) = capture_data w" "msg_ctxs (set_binding i b w) = msg_ctxs w"
  "req_tags (set_binding i b w) = req_tags w" "route_policy (set_binding i b w) = route_policy w"
  "tag_round_robin (set_binding i b w) = tag_round_robin w" "control (set_binding i b w) = control w"
  "max_message_size (set_binding i b w) = max_message_size w"
  "alloc_ctx (set_binding i b w) = alloc_ctx w" "platform_now (set_binding i b w) = platform_now w"
  "bindings (set_binding i b w) = (bindings w)(i := b)"
  "platform_now_ctx (set_binding i b w) = platform_now_ctx w"
  "heap (set_binding i b w) = heap w" "ops (set_binding i b w) = ops w"
  "clock (set_binding i b w) = clock w"
  "trace (set_binding i b w) = trace w" "busses (set_binding i b w) = busses w"
  by (simp_all add: set_binding_def)

lemma emit_sel [simp]:
  "n_busses (emit e w) = n_busses w" "message_rx (emit e w) = message_rx w"
  "message_rx_data (emit e w) = message_rx_data w" "capture (emit e w) = capture w"
  "capture_data (emit e w) = capture_data w" "msg_ctxs (emit e w) = msg_ctxs w"
  "req_tags (emit e w) = req_tags w" "route_policy (emit e w) = route_policy w"
  "tag_round_robin (emit e w) = tag_round_robin w" "control (emit e w) = control w"
  "max_message_size (emit e w) = max_message_size w"
  "alloc_ctx (emit e w) = alloc_ctx w" "platform_now (emit e w) = platform_now w"
  "bindings (emit e w) = bindings w" "platform_now_ctx (emit e w) = platform_now_ctx w"
  "heap (emit e w) = heap w" "ops (emit e w) = ops w" "clock (emit e w) = clock w"
  "trace (emit e w) = trace w @ [e]" "busses (emit e w) = busses w"
  by (simp_all add: emit_def)

lemma bus_at_simps [simp]:
  "bus_at (set_binding i b w) j = bus_at w j" "bus_at (emit e w) j = bus_at w j"
  "bus_at (w\<lparr>heap := h\<rparr>) j = bus_at w j"
  "bus_at (w\<lparr>msg_ctxs := cs\<rparr>) j = bus_at w j" "bus_at (w\<lparr>req_tags := ts\<rparr>) j = bus_at w j"
  by (simp_all add: bus_at_def)

lemma bus_at_set_bus [simp]:
  "i < length (busses w) \<Longrightarrow> bus_at (set_bus i b w) j = (if j = i then b else bus_at w j)"
  by (simp add: bus_at_def)

lemma set_bus_bus_at [simp]: "set_bus i (bus_at w i) w = w"
  by (simp add: set_bus_def bus_at_def)

lemma buf_write_Inr_iff:
  "buf_write mb off bs = Inr mb' \<longleftrightarrow>
     off \<le> length (mb_data mb) \<and> off + length bs \<le> unat (mb_size mb) \<and>
     mb' = mb\<lparr>mb_data := take off (mb_data mb) @ bs @ drop (off + length bs) (mb_data mb)\<rparr>"
  by (auto simp: buf_write_def)

text \<open>What the allocator contract gives for the calls on the whole state.\<close>

lemma w_msg_alloc_InrE:
  assumes "w_msg_alloc n m w = Inr (p, w')" and "good_ops (ops w)" and "heap_ok (heap w)"
  obtains h where "w' = w\<lparr>heap := h\<rparr>" and "m" and "heap_ok h"
    and "p = None \<Longrightarrow> h_live h = h_live (heap w)"
    and "\<And>mb. p = Some mb \<Longrightarrow> mb_size mb = n \<and> mb_data mb = [] \<and>
           mb_blk mb \<notin> h_live (heap w) \<and> h_live h = insert (mb_blk mb) (h_live (heap w))"
proof -
  have A: "msg_allocator (mctp_msg_alloc (ops w)) (mctp_msg_free (ops w)) heap_ok"
    using assms(2) by (simp add: good_ops_def)
  from assms(1) obtain q h where q: "mctp_msg_alloc (ops w) n (alloc_ctx w) (heap w) = Inr (q, h)"
    and p: "p = map_option (\<lambda>b. \<lparr>mb_blk = b, mb_size = n, mb_data = []\<rparr>) q"
    and w': "w' = w\<lparr>heap := h\<rparr>" and m: m
    by (auto simp: w_msg_alloc_def)
  show ?thesis
  proof (rule that [OF w' m])
    show "heap_ok h" using msg_allocator.alloc_invar [OF A assms(3) q] .
    show "h_live h = h_live (heap w)" if "p = None"
      using msg_allocator.alloc_none [OF A assms(3)] q p that by auto
    show "mb_size mb = n \<and> mb_data mb = [] \<and> mb_blk mb \<notin> h_live (heap w) \<and>
        h_live h = insert (mb_blk mb) (h_live (heap w))" if "p = Some mb" for mb
      using msg_allocator.alloc_some [OF A assms(3)] q p that by (cases q) auto
  qed
qed

lemma w_msg_alloc_total:
  assumes "good_ops (ops w)" and "heap_ok (heap w)"
  shows "\<exists>p w'. w_msg_alloc n True w = Inr (p, w')"
proof -
  have "msg_allocator (mctp_msg_alloc (ops w)) (mctp_msg_free (ops w)) heap_ok"
    using assms(1) by (simp add: good_ops_def)
  from msg_allocator.alloc_total [OF this assms(2), of n "alloc_ctx w"]
  show ?thesis by (auto simp: w_msg_alloc_def)
qed

lemma w_msg_free_live:
  assumes "good_ops (ops w)" and "heap_ok (heap w)" and "mb_blk mb \<in> h_live (heap w)"
  shows "\<exists>h. w_msg_free (Some mb) True w = Inr (w\<lparr>heap := h\<rparr>) \<and> heap_ok h \<and>
           h_live h = h_live (heap w) - {mb_blk mb}"
proof -
  have "msg_allocator (mctp_msg_alloc (ops w)) (mctp_msg_free (ops w)) heap_ok"
    using assms(1) by (simp add: good_ops_def)
  from msg_allocator.free_live [OF this assms(2,3), of "alloc_ctx w"]
  show ?thesis by (auto simp: w_msg_free_def)
qed

end
