(* ===== verification/Mctp_Pktbuf.thy ===== *)
theory Mctp_Pktbuf
  imports Mctp_Types
begin

text \<open>
  Packet buffers: \<^verbatim>\<open>src/core.c\<close> lines 38 to 139, and the bit fields of the packet header.
  A pointer into a packet's data array is an offset. \<open>pktbuf_wf\<close> is the well-formedness every
  operation keeps: the window from \<open>start\<close> to \<open>end\<close> lies inside the array.
\<close>

section \<open>Operations\<close>

definition pktbuf_storage_size :: "'e mctp_binding \<Rightarrow> u64" where
  "pktbuf_storage_size b = b_pkt_size b + b_pkt_header b + b_pkt_trailer b"

definition mctp_pktbuf_init :: "'e mctp_binding \<Rightarrow> mctp_pktbuf \<Rightarrow> mctp_pktbuf" where
  "mctp_pktbuf_init b storage =
     storage\<lparr>pk_size := pktbuf_storage_size b, pk_start := b_pkt_header b,
             pk_end := b_pkt_header b, mctp_hdr_off := b_pkt_header b, pk_alloc := False\<rparr>"

definition mctp_pktbuf_alloc ::
    "alloc_ops \<Rightarrow> 'e mctp_binding \<Rightarrow> u64 \<Rightarrow> heap \<Rightarrow> (mctp_pktbuf option \<times> heap) res" where
  "mctp_pktbuf_alloc aops b len h =
     (let sz = pktbuf_storage_size b in
      if len > sz then Inr (None, h)
      else rbind (mctp_alloc aops (sz + SIZEOF_MCTP_PKTBUF) h) (\<lambda>(p, h').
        case p of None \<Rightarrow> Inr (None, h')
        | Some blk \<Rightarrow>
            let storage = \<lparr>pk_start = 0, pk_end = 0, pk_size = 0, mctp_hdr_off = 0,
                  pk_alloc = False, pk_data = replicate (unat sz) 0, pk_blk = Some blk\<rparr>;
                pkt = mctp_pktbuf_init b storage
            in Inr (Some (pkt\<lparr>pk_alloc := True, pk_end := pk_start pkt + len\<rparr>), h')))"

definition mctp_pktbuf_free :: "alloc_ops \<Rightarrow> mctp_pktbuf \<Rightarrow> heap \<Rightarrow> heap res" where
  "mctp_pktbuf_free aops pkt h =
     (if pk_alloc pkt then mctp_free aops (pk_blk pkt) h else Inr h)"

definition mctp_pktbuf_hdr :: "mctp_pktbuf \<Rightarrow> u64" where
  "mctp_pktbuf_hdr pkt = mctp_hdr_off pkt"

definition mctp_pktbuf_data :: "mctp_pktbuf \<Rightarrow> u64" where
  "mctp_pktbuf_data pkt = mctp_hdr_off pkt + SIZEOF_MCTP_HDR"

definition mctp_pktbuf_size :: "mctp_pktbuf \<Rightarrow> u64" where
  "mctp_pktbuf_size pkt = pk_end pkt - pk_start pkt"

definition mctp_pktbuf_alloc_start :: "mctp_pktbuf \<Rightarrow> u64 \<Rightarrow> (u64 \<times> mctp_pktbuf) res" where
  "mctp_pktbuf_alloc_start pkt sz =
     rbind (c_assert (sz \<le> pk_start pkt)) (\<lambda>_.
       let pkt' = pkt\<lparr>pk_start := pk_start pkt - sz\<rparr> in Inr (pk_start pkt', pkt'))"

definition mctp_pktbuf_alloc_end :: "mctp_pktbuf \<Rightarrow> u64 \<Rightarrow> (u64 \<times> mctp_pktbuf) res" where
  "mctp_pktbuf_alloc_end pkt sz =
     rbind (c_assert (sz \<le> pk_size pkt - pk_end pkt)) (\<lambda>_.
       Inr (pk_end pkt, pkt\<lparr>pk_end := pk_end pkt + sz\<rparr>))"

definition mctp_pktbuf_push :: "mctp_pktbuf \<Rightarrow> bytes \<Rightarrow> u64 \<Rightarrow> (int \<times> mctp_pktbuf) res" where
  "mctp_pktbuf_push pkt src len =
     (if pk_end pkt + len > pk_size pkt then Inr (-1, pkt)
      else let p = pk_end pkt in
        rbind (mem_read src 0 (unat len)) (\<lambda>bs.
        rbind (mem_write (pk_data pkt) (unat p) bs) (\<lambda>d.
          Inr (0, pkt\<lparr>pk_end := p + len, pk_data := d\<rparr>))))"

definition mctp_pktbuf_pop :: "mctp_pktbuf \<Rightarrow> u64 \<Rightarrow> u64 option \<times> mctp_pktbuf" where
  "mctp_pktbuf_pop pkt len =
     (if len > mctp_pktbuf_size pkt then (None, pkt)
      else let e = pk_end pkt - len in (Some e, pkt\<lparr>pk_end := e\<rparr>))"

section \<open>The packet header\<close>

definition read_hdr :: "mctp_pktbuf \<Rightarrow> mctp_hdr res" where
  "read_hdr pkt =
     rbind (mem_read (pk_data pkt) (unat (mctp_pktbuf_hdr pkt)) 4) (\<lambda>bs.
       Inr \<lparr>hdr_ver = bs ! 0, hdr_dest = bs ! 1, hdr_src = bs ! 2, flags_seq_tag = bs ! 3\<rparr>)"

definition hdr_bytes :: "mctp_hdr \<Rightarrow> bytes" where
  [wire_defs]: "hdr_bytes h = [hdr_ver h, hdr_dest h, hdr_src h, flags_seq_tag h]"

text \<open>The bit field \<open>flags_seq_tag\<close> as the sender composes it.\<close>

definition encode_fst :: "bool \<Rightarrow> u8 \<Rightarrow> u8 \<Rightarrow> bool \<Rightarrow> bool \<Rightarrow> u8" where
  [wire_defs]: "encode_fst to tag seq som eom =
     (let f = push_bit MCTP_HDR_TO_SHIFT (of_bool to) OR push_bit MCTP_HDR_TAG_SHIFT tag;
          f = (if som then f OR MCTP_HDR_FLAG_SOM else f);
          f = (if eom then f OR MCTP_HDR_FLAG_EOM else f)
      in f OR push_bit MCTP_HDR_SEQ_SHIFT seq)"

text \<open>The fields as the receiver extracts them.\<close>

definition fst_flags :: "u8 \<Rightarrow> u8" where
  "fst_flags f = f AND (MCTP_HDR_FLAG_SOM OR MCTP_HDR_FLAG_EOM)"

definition fst_tag :: "u8 \<Rightarrow> u8" where
  "fst_tag f = drop_bit MCTP_HDR_TAG_SHIFT f AND MCTP_HDR_TAG_MASK"

definition fst_seq :: "u8 \<Rightarrow> u8" where
  "fst_seq f = drop_bit MCTP_HDR_SEQ_SHIFT f AND MCTP_HDR_SEQ_MASK"

definition fst_to :: "u8 \<Rightarrow> bool" where
  "fst_to f \<longleftrightarrow> drop_bit MCTP_HDR_TO_SHIFT f AND MCTP_HDR_TO_MASK \<noteq> 0"

section \<open>Well-formed packet buffers\<close>

definition pktbuf_wf :: "mctp_pktbuf \<Rightarrow> bool" where
  "pktbuf_wf pkt \<longleftrightarrow> pk_start pkt \<le> pk_end pkt \<and> pk_end pkt \<le> pk_size pkt \<and>
     length (pk_data pkt) = unat (pk_size pkt)"

text \<open>The bytes in the window.\<close>

definition pktbuf_bytes :: "mctp_pktbuf \<Rightarrow> bytes" where
  "pktbuf_bytes pkt =
     take (unat (pk_end pkt) - unat (pk_start pkt)) (drop (unat (pk_start pkt)) (pk_data pkt))"

section \<open>Lemmas\<close>

subsection \<open>Header fields\<close>

lemma tag_cases:
  fixes t :: u8
  assumes "t AND 7 = t"
  obtains "t = 0" | "t = 1" | "t = 2" | "t = 3" | "t = 4" | "t = 5" | "t = 6" | "t = 7"
proof -
  have "t \<le> 7" using assms word_and_le1 [of t 7] by simp
  then have "unat t \<in> {0, 1, 2, 3, 4, 5, 6, 7}"
    by (simp add: word_le_nat_alt) linarith
  then show ?thesis using that by (auto simp: word_unat_eq_iff)
qed

lemma seq_cases:
  fixes s :: u8
  assumes "s AND 3 = s"
  obtains "s = 0" | "s = 1" | "s = 2" | "s = 3"
proof -
  have "s \<le> 3" using assms word_and_le1 [of s 3] by simp
  then have "unat s \<in> {0, 1, 2, 3}"
    by (simp add: word_le_nat_alt) linarith
  then show ?thesis using that by (auto simp: word_unat_eq_iff)
qed

lemmas fst_defs = encode_fst_def fst_flags_def fst_tag_def fst_seq_def fst_to_def

lemma fst_seq_encode [simp]:
  "seq AND 3 = seq \<Longrightarrow> tag AND 7 = tag \<Longrightarrow> fst_seq (encode_fst to tag seq som eom) = seq"
  by (elim seq_cases tag_cases) (simp_all add: fst_defs Let_def)

lemma fst_tag_encode [simp]:
  "seq AND 3 = seq \<Longrightarrow> tag AND 7 = tag \<Longrightarrow> fst_tag (encode_fst to tag seq som eom) = tag"
  by (elim seq_cases tag_cases) (simp_all add: fst_defs Let_def)

lemma fst_to_encode [simp]:
  "seq AND 3 = seq \<Longrightarrow> tag AND 7 = tag \<Longrightarrow> fst_to (encode_fst to tag seq som eom) = to"
  by (elim seq_cases tag_cases) (simp_all add: fst_defs Let_def)

lemma fst_flags_encode [simp]:
  "seq AND 3 = seq \<Longrightarrow> tag AND 7 = tag \<Longrightarrow>
   fst_flags (encode_fst to tag seq som eom) =
     (if som then MCTP_HDR_FLAG_SOM else 0) OR (if eom then MCTP_HDR_FLAG_EOM else 0)"
  by (elim seq_cases tag_cases) (simp_all add: fst_defs Let_def)


subsection \<open>The window\<close>

lemma pktbuf_wf_unat:
  assumes "pktbuf_wf pkt"
  shows "unat (pk_start pkt) \<le> unat (pk_end pkt)" and "unat (pk_end pkt) \<le> unat (pk_size pkt)"
    and "length (pk_data pkt) = unat (pk_size pkt)"
  using assms by (simp_all add: pktbuf_wf_def word_le_nat_alt)

lemma unat_pktbuf_size: "pktbuf_wf pkt \<Longrightarrow> unat (mctp_pktbuf_size pkt) = length (pktbuf_bytes pkt)"
  using pktbuf_wf_unat [of pkt]
  by (simp add: mctp_pktbuf_size_def pktbuf_bytes_def unat_diff_le pktbuf_wf_def)

lemma size_room:
  fixes e len sz :: u64
  assumes "unat e + unat len \<le> unat sz"
  shows "unat (e + len) = unat e + unat len" and "\<not> e + len > sz"
proof -
  have "unat e + unat len < 2 ^ 64"
    using assms unat_u64_less [of sz] by simp
  then show u: "unat (e + len) = unat e + unat len"
    by (intro unat_add_no_wrap) simp
  then show "\<not> e + len > sz" using assms by (simp add: word_less_nat_alt)
qed

lemma mctp_pktbuf_init_wf:
  assumes "length (pk_data st) = unat (pktbuf_storage_size b)"
    and "b_pkt_header b \<le> pktbuf_storage_size b"
  shows "pktbuf_wf (mctp_pktbuf_init b st)"
  using assms by (simp add: pktbuf_wf_def mctp_pktbuf_init_def)

lemma mctp_pktbuf_push_ok:
  assumes wf: "pktbuf_wf pkt" and src: "unat len \<le> length src"
    and room: "unat (pk_end pkt) + unat len \<le> unat (pk_size pkt)"
  obtains pkt' where "mctp_pktbuf_push pkt src len = Inr (0, pkt')" and "pktbuf_wf pkt'"
    and "pktbuf_bytes pkt' = pktbuf_bytes pkt @ take (unat len) src"
    and "pk_end pkt' = pk_end pkt + len" and "pk_start pkt' = pk_start pkt"
    and "mctp_hdr_off pkt' = mctp_hdr_off pkt"
    and "pk_data pkt' = take (unat (pk_end pkt)) (pk_data pkt) @ take (unat len) src @
           drop (unat (pk_end pkt) + unat len) (pk_data pkt)"
proof -
  note w = pktbuf_wf_unat [OF wf] and r = size_room [OF room]
  let ?d = "take (unat (pk_end pkt)) (pk_data pkt) @ take (unat len) src @
           drop (unat (pk_end pkt) + unat len) (pk_data pkt)"
  let ?pkt = "pkt\<lparr>pk_end := pk_end pkt + len, pk_data := ?d\<rparr>"
  have push: "mctp_pktbuf_push pkt src len = Inr (0, ?pkt)"
    using src room w r(2) by (simp add: mctp_pktbuf_push_def mem_read_def mem_write_def Let_def)
  have wf': "pktbuf_wf ?pkt"
    using w room src by (simp add: pktbuf_wf_def word_le_nat_alt r(1))
  have "pktbuf_bytes ?pkt = pktbuf_bytes pkt @ take (unat len) src"
    using w room src by (simp add: pktbuf_bytes_def r(1) drop_take)
  with push wf' show ?thesis by (intro that [of ?pkt]) simp_all
qed

lemma mctp_pktbuf_pop_ok:
  assumes wf: "pktbuf_wf pkt" and len: "unat len \<le> length (pktbuf_bytes pkt)"
  shows "mctp_pktbuf_pop pkt len = (Some (pk_end pkt - len), pkt\<lparr>pk_end := pk_end pkt - len\<rparr>)"
    and "pktbuf_wf (pkt\<lparr>pk_end := pk_end pkt - len\<rparr>)"
    and "pktbuf_bytes (pkt\<lparr>pk_end := pk_end pkt - len\<rparr>) =
           take (length (pktbuf_bytes pkt) - unat len) (pktbuf_bytes pkt)"
proof -
  note w = pktbuf_wf_unat [OF wf]
  have l: "length (pktbuf_bytes pkt) = unat (pk_end pkt) - unat (pk_start pkt)"
    using w by (simp add: pktbuf_bytes_def)
  have "len \<le> pk_end pkt" using len w l by (simp add: word_le_nat_alt)
  then have u: "unat (pk_end pkt - len) = unat (pk_end pkt) - unat len" by (rule unat_diff_le)
  show "mctp_pktbuf_pop pkt len = (Some (pk_end pkt - len), pkt\<lparr>pk_end := pk_end pkt - len\<rparr>)"
    using len unat_pktbuf_size [OF wf] by (simp add: mctp_pktbuf_pop_def word_less_nat_alt Let_def)
  show "pktbuf_wf (pkt\<lparr>pk_end := pk_end pkt - len\<rparr>)"
    using w len l by (simp add: pktbuf_wf_def word_le_nat_alt u) linarith
  show "pktbuf_bytes (pkt\<lparr>pk_end := pk_end pkt - len\<rparr>) =
           take (length (pktbuf_bytes pkt) - unat len) (pktbuf_bytes pkt)"
    using w len l by (simp add: pktbuf_bytes_def u min_def add.commute)
qed

lemma length_hdr_bytes [simp]: "length (hdr_bytes h) = 4"
  by (simp add: hdr_bytes_def)

text \<open>Writing the header and the payload behind it, and reading both back.\<close>

lemma read_hdr_after_write:
  assumes "mem_write (pk_data pkt) (unat (mctp_hdr_off pkt)) (hdr_bytes h @ body) = Inr d"
  shows "read_hdr (pkt\<lparr>pk_data := d\<rparr>) = Inr h"
    and "mem_read d (unat (mctp_hdr_off pkt) + 4) (length body) = Inr body"
proof -
  have "length (hdr_bytes h @ body) = 4 + length body" by (simp add: hdr_bytes_def)
  from mem_read_write_split [OF assms this]
  show "read_hdr (pkt\<lparr>pk_data := d\<rparr>) = Inr h"
    and "mem_read d (unat (mctp_hdr_off pkt) + 4) (length body) = Inr body"
    by (simp_all add: read_hdr_def mctp_pktbuf_hdr_def hdr_bytes_def)
qed

lemma mctp_pktbuf_push_full:
  assumes "unat (pk_end pkt) + unat len < 2 ^ 64" and "unat (pk_size pkt) < unat (pk_end pkt) + unat len"
  shows "mctp_pktbuf_push pkt src len = Inr (-1, pkt)"
proof -
  have "unat (pk_end pkt + len) = unat (pk_end pkt) + unat len" using assms(1) by (intro unat_add_no_wrap) simp
  then show ?thesis using assms(2) by (simp add: mctp_pktbuf_push_def word_less_nat_alt)
qed

section \<open>Properties\<close>

text \<open>
  C24: what the sender writes into the packet header the receiver reads back. After the header (with a
  tag of three bits and a sequence number of two) and a body have been written at the header offset,
  \<open>read_hdr\<close> and the field accessors of \<open>mctp_bus_rx\<close> return the same version, addresses, tag owner
  bit, tag, sequence number and start/end flags, and the body follows.
\<close>

theorem pktbuf_header_roundtrip:
  assumes "mem_write (pk_data pkt) (unat (mctp_hdr_off pkt))
      (hdr_bytes \<lparr>hdr_ver = v, hdr_dest = d, hdr_src = s, flags_seq_tag = encode_fst to tag sq som eom\<rparr> @ body) = Inr bs"
    and "sq AND 3 = sq" and "tag AND 7 = tag"
  shows "\<exists>hdr. read_hdr (pkt\<lparr>pk_data := bs\<rparr>) = Inr hdr \<and> hdr_ver hdr = v \<and> hdr_dest hdr = d \<and> hdr_src hdr = s \<and>
     fst_to (flags_seq_tag hdr) = to \<and> fst_tag (flags_seq_tag hdr) = tag \<and> fst_seq (flags_seq_tag hdr) = sq \<and>
     fst_flags (flags_seq_tag hdr) = (if som then MCTP_HDR_FLAG_SOM else 0) OR (if eom then MCTP_HDR_FLAG_EOM else 0) \<and>
     mem_read bs (unat (mctp_hdr_off pkt) + 4) (length body) = Inr body"
  using read_hdr_after_write [OF assms(1)] assms(2,3) by simp

theorem pktbuf_header_roundtrip_witness:
  "\<exists>hdr. read_hdr \<lparr>pk_start = 1, pk_end = 6, pk_size = 8, mctp_hdr_off = 1, pk_alloc = False,
       pk_data = [0, 1, 9, 8, 0x9d, 7, 0, 0], pk_blk = None\<rparr> = Inr hdr \<and>
     fst_to (flags_seq_tag hdr) \<and> fst_tag (flags_seq_tag hdr) = 5 \<and> fst_seq (flags_seq_tag hdr) = 1"
proof -
  let ?p = "\<lparr>pk_start = 1, pk_end = 6, pk_size = 8, mctp_hdr_off = 1, pk_alloc = False, pk_data = replicate 8 0, pk_blk = None\<rparr>"
  have w: "mem_write (pk_data ?p) (unat (mctp_hdr_off ?p))
      (hdr_bytes \<lparr>hdr_ver = 1, hdr_dest = 9, hdr_src = 8, flags_seq_tag = encode_fst True 5 1 True False\<rparr> @ [7]) =
      Inr [0, 1, 9, 8, 0x9d, 7, 0, 0]"
    by (simp add: mem_write_def hdr_bytes_def encode_fst_def numeral_eq_Suc)
  from pktbuf_header_roundtrip [OF w] show ?thesis by simp blast
qed

text \<open>
  C25: \<open>mctp_pktbuf_push\<close> appends to the window when the bytes fit behind it, and \<open>mctp_pktbuf_pop\<close> of the
  same length restores the window and points at the pushed bytes; when they do not fit, \<open>push\<close>
  returns -1 and changes nothing. (\<open>end + len\<close> must not wrap around \<open>size_t\<close>.)
\<close>

theorem pktbuf_push_pop:
  assumes "pktbuf_wf pkt" and "unat len \<le> length src" and "unat (pk_end pkt) + unat len < 2 ^ 64"
  shows "if unat (pk_end pkt) + unat len \<le> unat (pk_size pkt)
     then \<exists>pkt1 pkt2. mctp_pktbuf_push pkt src len = Inr (0, pkt1) \<and> pktbuf_wf pkt1 \<and>
            pktbuf_bytes pkt1 = pktbuf_bytes pkt @ take (unat len) src \<and>
            mctp_pktbuf_pop pkt1 len = (Some (pk_end pkt), pkt2) \<and> pktbuf_wf pkt2 \<and> pktbuf_bytes pkt2 = pktbuf_bytes pkt \<and>
            mem_read (pk_data pkt2) (unat (pk_end pkt)) (unat len) = Inr (take (unat len) src)
     else mctp_pktbuf_push pkt src len = Inr (-1, pkt)"
proof (cases "unat (pk_end pkt) + unat len \<le> unat (pk_size pkt)")
  case True
  obtain p1 where p: "mctp_pktbuf_push pkt src len = Inr (0, p1)" "pktbuf_wf p1"
    "pktbuf_bytes p1 = pktbuf_bytes pkt @ take (unat len) src" "pk_end p1 = pk_end pkt + len"
    "pk_data p1 = take (unat (pk_end pkt)) (pk_data pkt) @ take (unat len) src @
           drop (unat (pk_end pkt) + unat len) (pk_data pkt)"
    by (rule mctp_pktbuf_push_ok [OF assms(1,2) True]) (rule that)
  have "unat len \<le> length (pktbuf_bytes p1)" using p(3) assms(2) by simp
  from mctp_pktbuf_pop_ok [OF p(2) this] have q: "mctp_pktbuf_pop p1 len = (Some (pk_end pkt), p1\<lparr>pk_end := pk_end pkt\<rparr>)"
    "pktbuf_wf (p1\<lparr>pk_end := pk_end pkt\<rparr>)" "pktbuf_bytes (p1\<lparr>pk_end := pk_end pkt\<rparr>) = pktbuf_bytes pkt"
    using p(3,4) assms(2) by simp_all
  have "mem_read (pk_data p1) (unat (pk_end pkt)) (unat len) = Inr (take (unat len) src)"
    using p(5) pktbuf_wf_unat [OF assms(1)] True assms(2) by (simp add: mem_read_def)
  then show ?thesis using True p(1-3) q by simp
next
  case False
  then show ?thesis using mctp_pktbuf_push_full [OF assms(3)] by simp
qed

theorem pktbuf_push_pop_witness:
  "mctp_pktbuf_push \<lparr>pk_start = 0, pk_end = 1, pk_size = 2, mctp_hdr_off = 0, pk_alloc = False, pk_data = [1, 0], pk_blk = None\<rparr> [3, 4] 2 =
     Inr (-1, \<lparr>pk_start = 0, pk_end = 1, pk_size = 2, mctp_hdr_off = 0, pk_alloc = False, pk_data = [1, 0], pk_blk = None\<rparr>)"
proof -
  let ?p = "\<lparr>pk_start = 0, pk_end = 1, pk_size = 2, mctp_hdr_off = 0, pk_alloc = False, pk_data = [1, 0], pk_blk = None\<rparr>"
  have "pktbuf_wf ?p" by (simp add: pktbuf_wf_def)
  from pktbuf_push_pop [OF this, of 2 "[3, 4]"] show ?thesis by simp
qed

end
