(* ===== verification/Mctp_Slots.thy ===== *)
theory Mctp_Slots
  imports Mctp_Prelude
begin

text \<open>
  Fixed tables of slots. The core keeps its reassembly contexts and its outstanding request
  tags in fixed arrays that are searched front to back; a slot is in use or free, and the slots
  in use carry a key. \<open>slot_map\<close> is the finite map such a table stands for, and the locale
  \<open>slot_table\<close> has the laws of updating one slot, as equations of that map. It is interpreted
  for the reassembly contexts in \<^verbatim>\<open>Mctp_Reassembly\<close> and for the request tags in
  \<^verbatim>\<open>Mctp_Tags\<close>.
\<close>

section \<open>Abstraction\<close>

definition slot_find :: "('s \<Rightarrow> bool) \<Rightarrow> ('s \<Rightarrow> 'k) \<Rightarrow> 's list \<Rightarrow> 'k \<Rightarrow> nat option" where
  "slot_find used key xs k = find_idx (\<lambda>s. used s \<and> key s = k) xs"

definition slot_map :: "('s \<Rightarrow> bool) \<Rightarrow> ('s \<Rightarrow> 'k) \<Rightarrow> 's list \<Rightarrow> 'k \<Rightarrow> 's option" where
  "slot_map used key xs k = map_option ((!) xs) (slot_find used key xs k)"

definition slots_unique :: "('s \<Rightarrow> bool) \<Rightarrow> ('s \<Rightarrow> 'k) \<Rightarrow> 's list \<Rightarrow> bool" where
  "slots_unique used key xs \<longleftrightarrow>
     (\<forall>i<length xs. \<forall>j<length xs. used (xs ! i) \<longrightarrow> used (xs ! j) \<longrightarrow>
        key (xs ! i) = key (xs ! j) \<longrightarrow> i = j)"

section \<open>Laws\<close>

lemma slot_find_SomeD:
  "slot_find used key xs k = Some i \<Longrightarrow> i < length xs \<and> used (xs ! i) \<and> key (xs ! i) = k"
  by (auto simp: slot_find_def dest: find_idx_SomeD)

lemma slot_find_None_iff:
  "slot_find used key xs k = None \<longleftrightarrow> (\<forall>i<length xs. used (xs ! i) \<longrightarrow> key (xs ! i) \<noteq> k)"
  unfolding slot_find_def find_idx_None_iff all_set_conv_all_nth by auto

lemma slot_find_unique:
  assumes "slots_unique used key xs" and "i < length xs" and "used (xs ! i)"
  shows "slot_find used key xs (key (xs ! i)) = Some i"
  unfolding slot_find_def
  using assms by (intro find_idx_unique) (auto simp: slots_unique_def)

lemma slots_uniqueD:
  "slots_unique used key xs \<Longrightarrow> i < length xs \<Longrightarrow> j < length xs \<Longrightarrow> used (xs ! i) \<Longrightarrow>
     used (xs ! j) \<Longrightarrow> key (xs ! i) = key (xs ! j) \<Longrightarrow> i = j"
  by (auto simp: slots_unique_def)

lemma slot_map_Some_iff:
  assumes "slots_unique used key xs"
  shows "slot_map used key xs k = Some s \<longleftrightarrow> (\<exists>i<length xs. xs ! i = s \<and> used s \<and> key s = k)"
proof
  assume "slot_map used key xs k = Some s"
  then show "\<exists>i<length xs. xs ! i = s \<and> used s \<and> key s = k"
    by (auto simp: slot_map_def dest: slot_find_SomeD)
next
  assume "\<exists>i<length xs. xs ! i = s \<and> used s \<and> key s = k"
  then show "slot_map used key xs k = Some s"
    using slot_find_unique [OF assms] by (auto simp: slot_map_def)
qed

lemma slot_map_replicate: "\<not> used s \<Longrightarrow> slot_map used key (replicate n s) = Map.empty"
  by (auto simp: slot_map_def slot_find_None_iff fun_eq_iff)

lemma slots_unique_replicate: "\<not> used s \<Longrightarrow> slots_unique used key (replicate n s)"
  by (simp add: slots_unique_def)

text \<open>
  The contract of a slot type: how a slot is released. The three updates of a table are filling
  a free slot with an unused key, rewriting a slot under its own key, and releasing a slot.
\<close>

locale slot_table =
  fixes used :: "'s \<Rightarrow> bool" and key :: "'s \<Rightarrow> 'k" and release :: "'s \<Rightarrow> 's"
  assumes release_unused: "\<not> used (release s)"
begin

lemma unique_update:
  assumes "slots_unique used key xs" and i: "i < length xs"
    and "\<And>j. j < length xs \<Longrightarrow> j \<noteq> i \<Longrightarrow> used (xs ! j) \<Longrightarrow> used s \<Longrightarrow> key (xs ! j) \<noteq> key s"
  shows "slots_unique used key (xs[i := s])"
  unfolding slots_unique_def length_list_update
proof (intro allI impI)
  fix a b
  assume "a < length xs" "b < length xs" "used (xs[i := s] ! a)" "used (xs[i := s] ! b)"
    "key (xs[i := s] ! a) = key (xs[i := s] ! b)"
  then show "a = b"
    using assms(3) [of a] assms(3) [of b] slots_uniqueD [OF assms(1)] i
    by (auto simp: nth_list_update split: if_splits)
qed

lemma map_update_iff:
  assumes "slots_unique used key (xs[i := s])" and "i < length xs"
  shows "slot_map used key (xs[i := s]) k = Some t \<longleftrightarrow>
    (used s \<and> key s = k \<and> t = s) \<or> (\<exists>j<length xs. j \<noteq> i \<and> xs ! j = t \<and> used t \<and> key t = k)"
  unfolding slot_map_Some_iff [OF assms(1)] length_list_update
  using assms(2) by (auto simp: nth_list_update)

lemma unique_release:
  assumes "slots_unique used key xs" and "i < length xs"
  shows "slots_unique used key (xs[i := release s])"
  using assms release_unused by (intro unique_update) auto

lemma unique_rewrite:
  assumes "slots_unique used key xs" and "i < length xs" and "used (xs ! i)" and "key s = key (xs ! i)"
  shows "slots_unique used key (xs[i := s])"
  using assms by (intro unique_update) (auto dest: slots_uniqueD)

lemma unique_fill:
  assumes "slots_unique used key xs" and "slot_find used key xs (key s) = None" and "i < length xs"
  shows "slots_unique used key (xs[i := s])"
  using assms by (intro unique_update) (auto simp: slot_find_None_iff)

lemma map_fill:
  assumes u: "slots_unique used key xs" and f: "slot_find used key xs (key s) = None"
    and i: "i < length xs" and free: "\<not> used (xs ! i)" and s: "used s"
  shows "slot_map used key (xs[i := s]) = (slot_map used key xs)(key s \<mapsto> s)"
proof
  fix k
  have "slot_map used key (xs[i := s]) k = Some t \<longleftrightarrow>
        ((slot_map used key xs)(key s \<mapsto> s)) k = Some t" for t
    unfolding map_update_iff [OF unique_fill [OF u f i] i]
    using f free s by (auto simp: slot_find_None_iff slot_map_Some_iff [OF u])
  then show "slot_map used key (xs[i := s]) k = ((slot_map used key xs)(key s \<mapsto> s)) k"
    by (metis not_Some_eq)
qed

lemma map_rewrite:
  assumes u: "slots_unique used key xs" and i: "i < length xs" and o: "used (xs ! i)"
    and k: "key s = key (xs ! i)" and s: "used s"
  shows "slot_map used key (xs[i := s]) = (slot_map used key xs)(key s \<mapsto> s)"
proof
  fix k'
  have "slot_map used key (xs[i := s]) k' = Some t \<longleftrightarrow>
        ((slot_map used key xs)(key s \<mapsto> s)) k' = Some t" for t
    unfolding map_update_iff [OF unique_rewrite [OF u i o k] i]
    using i o s k by (auto simp: slot_map_Some_iff [OF u] dest: slots_uniqueD [OF u])
  then show "slot_map used key (xs[i := s]) k' = ((slot_map used key xs)(key s \<mapsto> s)) k'"
    by (metis not_Some_eq)
qed

lemma unique_idle:
  assumes "slots_unique used key xs" and "i < length xs" and "\<not> used s"
  shows "slots_unique used key (xs[i := s])"
  using assms by (intro unique_update) auto

lemma map_idle:
  assumes u: "slots_unique used key xs" and i: "i < length xs" and "\<not> used (xs ! i)" and "\<not> used s"
  shows "slot_map used key (xs[i := s]) = slot_map used key xs"
proof
  fix k
  have "slot_map used key (xs[i := s]) k = Some t \<longleftrightarrow> slot_map used key xs k = Some t" for t
    unfolding map_update_iff [OF unique_idle [OF u i assms(4)] i]
    using assms(3,4) i by (auto simp: slot_map_Some_iff [OF u])
  then show "slot_map used key (xs[i := s]) k = slot_map used key xs k"
    by (metis not_Some_eq)
qed

lemma map_release:
  assumes u: "slots_unique used key xs" and i: "i < length xs" and o: "used (xs ! i)"
  shows "slot_map used key (xs[i := release s]) = (slot_map used key xs)(key (xs ! i) := None)"
proof
  fix k
  have "slot_map used key (xs[i := release s]) k = Some t \<longleftrightarrow>
        ((slot_map used key xs)(key (xs ! i) := None)) k = Some t" for t
    unfolding map_update_iff [OF unique_release [OF u i] i]
    using i o release_unused [of s] by (auto simp: slot_map_Some_iff [OF u] dest: slots_uniqueD [OF u])
  then show "slot_map used key (xs[i := release s]) k =
      ((slot_map used key xs)(key (xs ! i) := None)) k"
    by (metis not_Some_eq)
qed

end

end
