(* ===== verification/Mctp_Reassembly.thy ===== *)
theory Mctp_Reassembly
  imports Mctp_Pktbuf Mctp_Slots
begin

text \<open>
  Message duplication and reassembly contexts: \<^verbatim>\<open>src/core.c\<close> lines 141 to 235. A context
  pointer is an index into the array \<open>msg_ctxs\<close>. The table of contexts stands for a finite map
  from (source, destination, tag) to the assembly in progress (\<open>ctx_table\<close>), through the
  interpretation \<open>ctxs\<close> of \<open>slot_table\<close>.
\<close>

section \<open>Operations\<close>

definition mctp_msg_dup :: "bytes \<Rightarrow> nat \<Rightarrow> u64 \<Rightarrow> bool \<Rightarrow> 'e world \<Rightarrow> (msgbuf option \<times> 'e world) res" where
  "mctp_msg_dup src off len m w =
     rbind (w_msg_alloc len m w) (\<lambda>(copy, w).
       case copy of None \<Rightarrow> Inr (None, w)
       | Some mb \<Rightarrow>
           rbind (mem_read src off (unat len)) (\<lambda>bs.
           rbind (buf_write mb 0 bs) (\<lambda>mb. Inr (Some mb, w))))"

definition ctx_used :: "mctp_msg_ctx \<Rightarrow> bool" where
  "ctx_used c \<longleftrightarrow> ctx_buf c \<noteq> None"

definition ctx_key :: "mctp_msg_ctx \<Rightarrow> u8 \<times> u8 \<times> u8" where
  "ctx_key c = (ctx_src c, ctx_dest c, ctx_tag c)"

definition mctp_msg_ctx_lookup :: "'e world \<Rightarrow> u8 \<Rightarrow> u8 \<Rightarrow> u8 \<Rightarrow> nat option" where
  "mctp_msg_ctx_lookup w src dest tag =
     find_idx (\<lambda>c. ctx_buf c \<noteq> None \<and> ctx_src c = src \<and> ctx_dest c = dest \<and> ctx_tag c = tag)
       (msg_ctxs w)"

definition set_ctx :: "nat \<Rightarrow> mctp_msg_ctx \<Rightarrow> 'e world \<Rightarrow> 'e world" where
  "set_ctx i c w = w\<lparr>msg_ctxs := (msg_ctxs w)[i := c]\<rparr>"

definition mctp_msg_ctx_create :: "u8 \<Rightarrow> u8 \<Rightarrow> u8 \<Rightarrow> 'e world \<Rightarrow> (nat option \<times> 'e world) res" where
  "mctp_msg_ctx_create src dest tag w =
     (case find_idx (\<lambda>c. ctx_buf c = None) (msg_ctxs w) of
        None \<Rightarrow> Inr (None, w)
      | Some i \<Rightarrow>
          let c = (msg_ctxs w ! i)\<lparr>ctx_src := src, ctx_dest := dest, ctx_tag := tag,
                    ctx_buf_size := 0, ctx_buf_alloc_size := max_message_size w\<rparr>
          in rbind (w_msg_alloc (ctx_buf_alloc_size c) True w) (\<lambda>(buf, w).
               let w' = set_ctx i (c\<lparr>ctx_buf := buf\<rparr>) w
               in Inr (if buf = None then None else Some i, w')))"

definition mctp_msg_ctx_drop :: "nat \<Rightarrow> nat \<Rightarrow> 'e world \<Rightarrow> 'e world res" where
  "mctp_msg_ctx_drop bi i w =
     rbind (w_msg_free (ctx_buf (msg_ctxs w ! i)) (bus_mctp (bus_at w bi)) w) (\<lambda>w.
       Inr (set_ctx i ((msg_ctxs w ! i)\<lparr>ctx_buf := None\<rparr>) w))"

definition mctp_msg_ctx_reset :: "nat \<Rightarrow> 'e world \<Rightarrow> 'e world" where
  "mctp_msg_ctx_reset i w =
     set_ctx i ((msg_ctxs w ! i)\<lparr>ctx_buf_size := 0, ctx_fragment_size := 0\<rparr>) w"

definition mctp_msg_ctx_add_pkt :: "nat \<Rightarrow> mctp_pktbuf \<Rightarrow> 'e world \<Rightarrow> (int \<times> 'e world) res" where
  "mctp_msg_ctx_add_pkt i pkt w =
     (let c = msg_ctxs w ! i;
          len = mctp_pktbuf_size pkt - SIZEOF_MCTP_HDR
      in if len + ctx_buf_size c < ctx_buf_size c then Inr (-1, w)
         else if ctx_buf_size c + len > ctx_buf_alloc_size c then Inr (-1, w)
         else rbind (deref (ctx_buf c)) (\<lambda>mb.
              rbind (mem_read (pk_data pkt) (unat (mctp_pktbuf_data pkt)) (unat len)) (\<lambda>bs.
              rbind (buf_write mb (unat (ctx_buf_size c)) bs) (\<lambda>mb.
                Inr (0, set_ctx i (c\<lparr>ctx_buf := Some mb, ctx_buf_size := ctx_buf_size c + len\<rparr>) w)))))"

section \<open>Invariant and abstraction\<close>

text \<open>A context in use: the bytes collected lie in its buffer, which is as large as it says.\<close>

definition ctx_wf :: "mctp_msg_ctx \<Rightarrow> bool" where
  "ctx_wf c \<longleftrightarrow> (case ctx_buf c of None \<Rightarrow> True
     | Some mb \<Rightarrow> mb_size mb = ctx_buf_alloc_size c \<and> ctx_buf_size c \<le> ctx_buf_alloc_size c \<and>
         unat (ctx_buf_size c) \<le> length (mb_data mb) \<and> length (mb_data mb) \<le> unat (mb_size mb))"

text \<open>The message collected so far.\<close>

definition ctx_msg :: "mctp_msg_ctx \<Rightarrow> bytes" where
  "ctx_msg c = (case ctx_buf c of None \<Rightarrow> [] | Some mb \<Rightarrow> take (unat (ctx_buf_size c)) (mb_data mb))"

abbreviation ctx_table :: "mctp_msg_ctx list \<Rightarrow> u8 \<times> u8 \<times> u8 \<Rightarrow> mctp_msg_ctx option" where
  "ctx_table \<equiv> slot_map ctx_used ctx_key"

abbreviation ctxs_unique :: "mctp_msg_ctx list \<Rightarrow> bool" where
  "ctxs_unique \<equiv> slots_unique ctx_used ctx_key"

section \<open>Lemmas\<close>

interpretation ctxs: slot_table ctx_used ctx_key "\<lambda>c. c\<lparr>ctx_buf := None\<rparr>"
  by unfold_locales (simp add: ctx_used_def)

lemma set_ctx_sel [simp]:
  "n_busses (set_ctx i c w) = n_busses w" "message_rx (set_ctx i c w) = message_rx w"
  "message_rx_data (set_ctx i c w) = message_rx_data w" "capture (set_ctx i c w) = capture w"
  "capture_data (set_ctx i c w) = capture_data w" "req_tags (set_ctx i c w) = req_tags w"
  "tag_round_robin (set_ctx i c w) = tag_round_robin w"
  "route_policy (set_ctx i c w) = route_policy w" "control (set_ctx i c w) = control w"
  "max_message_size (set_ctx i c w) = max_message_size w" "alloc_ctx (set_ctx i c w) = alloc_ctx w"
  "platform_now (set_ctx i c w) = platform_now w" "bindings (set_ctx i c w) = bindings w"
  "platform_now_ctx (set_ctx i c w) = platform_now_ctx w"
  "heap (set_ctx i c w) = heap w" "ops (set_ctx i c w) = ops w" "clock (set_ctx i c w) = clock w"
  "trace (set_ctx i c w) = trace w" "busses (set_ctx i c w) = busses w"
  "msg_ctxs (set_ctx i c w) = (msg_ctxs w)[i := c]"
  by (simp_all add: set_ctx_def)

lemma bus_at_set_ctx [simp]: "bus_at (set_ctx i c w) j = bus_at w j"
  by (simp add: bus_at_def)

lemma mctp_msg_ctx_lookup_slot:
  "mctp_msg_ctx_lookup w src dest tag = slot_find ctx_used ctx_key (msg_ctxs w) (src, dest, tag)"
  by (simp add: mctp_msg_ctx_lookup_def slot_find_def ctx_used_def ctx_key_def conj_assoc)

lemma mctp_msg_ctx_lookup_SomeD:
  "mctp_msg_ctx_lookup w src dest tag = Some i \<Longrightarrow>
     i < length (msg_ctxs w) \<and> ctx_used (msg_ctxs w ! i) \<and> ctx_key (msg_ctxs w ! i) = (src, dest, tag)"
  unfolding mctp_msg_ctx_lookup_slot by (rule slot_find_SomeD)

subsection \<open>Adding a fragment\<close>

lemma add_pkt_len:
  assumes "pktbuf_wf pkt" and "4 \<le> length (pktbuf_bytes pkt)"
  shows "unat (mctp_pktbuf_size pkt - SIZEOF_MCTP_HDR) = length (pktbuf_bytes pkt) - 4"
proof -
  have "(4 :: u64) \<le> mctp_pktbuf_size pkt"
    using assms unat_pktbuf_size [OF assms(1)] by (simp add: word_le_nat_alt)
  then show ?thesis using unat_pktbuf_size [OF assms(1)] by (simp add: unat_diff_le)
qed

text \<open>A packet as the bindings hand it up: the header starts where the window starts.\<close>

definition rx_pkt :: "mctp_pktbuf \<Rightarrow> bool" where
  "rx_pkt pkt \<longleftrightarrow> pktbuf_wf pkt \<and> mctp_hdr_off pkt = pk_start pkt \<and> 4 \<le> length (pktbuf_bytes pkt)"

lemma rx_pkt_body:
  assumes "rx_pkt pkt"
  shows "mem_read (pk_data pkt) (unat (mctp_pktbuf_data pkt))
           (unat (mctp_pktbuf_size pkt - SIZEOF_MCTP_HDR)) = Inr (drop 4 (pktbuf_bytes pkt))"
proof -
  from assms have wf: "pktbuf_wf pkt" and off: "mctp_hdr_off pkt = pk_start pkt"
    and len: "4 \<le> length (pktbuf_bytes pkt)" by (auto simp: rx_pkt_def)
  note w = pktbuf_wf_unat [OF wf]
  have l: "length (pktbuf_bytes pkt) = unat (pk_end pkt) - unat (pk_start pkt)"
    using w by (simp add: pktbuf_bytes_def)
  have u: "unat (mctp_pktbuf_data pkt) = unat (pk_start pkt) + 4"
    using size_room(1) [of "pk_start pkt" 4 "pk_size pkt"] w len l
    by (simp add: mctp_pktbuf_data_def off)
  show ?thesis
    unfolding add_pkt_len [OF wf len] u
    using w len l by (auto simp: mem_read_def pktbuf_bytes_def drop_take add.commute)
qed

lemma rx_pkt_hdr:
  assumes "rx_pkt pkt"
  shows "read_hdr pkt = Inr \<lparr>hdr_ver = pktbuf_bytes pkt ! 0, hdr_dest = pktbuf_bytes pkt ! 1,
           hdr_src = pktbuf_bytes pkt ! 2, flags_seq_tag = pktbuf_bytes pkt ! 3\<rparr>"
proof -
  from assms have wf: "pktbuf_wf pkt" and off: "mctp_hdr_off pkt = pk_start pkt"
    and len: "4 \<le> length (pktbuf_bytes pkt)" by (auto simp: rx_pkt_def)
  note w = pktbuf_wf_unat [OF wf]
  have l: "length (pktbuf_bytes pkt) = unat (pk_end pkt) - unat (pk_start pkt)"
    using w by (simp add: pktbuf_bytes_def)
  then show ?thesis
    using w len by (simp add: read_hdr_def mctp_pktbuf_hdr_def off mem_read_def pktbuf_bytes_def)
qed

lemma mctp_msg_ctx_add_pkt_fits:
  assumes c: "msg_ctxs w ! i = c" "ctx_wf c" "ctx_buf c = Some mb" and pkt: "rx_pkt pkt"
    and room: "unat (ctx_buf_size c) + (length (pktbuf_bytes pkt) - 4) \<le> unat (ctx_buf_alloc_size c)"
  obtains c' where "mctp_msg_ctx_add_pkt i pkt w = Inr (0, set_ctx i c' w)"
    and "ctx_wf c'" and "ctx_msg c' = ctx_msg c @ drop 4 (pktbuf_bytes pkt)"
    and "ctx_key c' = ctx_key c" and "ctx_last_seq c' = ctx_last_seq c"
    and "ctx_fragment_size c' = ctx_fragment_size c"
    and "ctx_buf_alloc_size c' = ctx_buf_alloc_size c"
    and "\<exists>mb'. ctx_buf c' = Some mb' \<and> mb_blk mb' = mb_blk mb"
    and "unat (ctx_buf_size c') = unat (ctx_buf_size c) + (length (pktbuf_bytes pkt) - 4)"
proof -
  let ?len = "mctp_pktbuf_size pkt - SIZEOF_MCTP_HDR"
  have len: "unat ?len = length (pktbuf_bytes pkt) - 4"
    using pkt add_pkt_len by (auto simp: rx_pkt_def)
  have r: "unat (ctx_buf_size c + ?len) = unat (ctx_buf_size c) + unat ?len"
    "\<not> ctx_buf_size c + ?len > ctx_buf_alloc_size c"
    using size_room [of "ctx_buf_size c" ?len "ctx_buf_alloc_size c"] room len by simp_all
  have nw: "\<not> ?len + ctx_buf_size c < ctx_buf_size c"
    using r(1) by (simp add: word_less_nat_alt add.commute)
  let ?mb = "mb\<lparr>mb_data := take (unat (ctx_buf_size c)) (mb_data mb) @ drop 4 (pktbuf_bytes pkt) @
      drop (unat (ctx_buf_size c) + (length (pktbuf_bytes pkt) - 4)) (mb_data mb)\<rparr>"
  let ?c = "c\<lparr>ctx_buf := Some ?mb, ctx_buf_size := ctx_buf_size c + ?len\<rparr>"
  have wf: "mb_size mb = ctx_buf_alloc_size c" "unat (ctx_buf_size c) \<le> length (mb_data mb)"
    "length (mb_data mb) \<le> unat (mb_size mb)"
    using c(2,3) by (auto simp: ctx_wf_def)
  have "buf_write mb (unat (ctx_buf_size c)) (drop 4 (pktbuf_bytes pkt)) = Inr ?mb"
    using wf room by (simp add: buf_write_def)
  then have add: "mctp_msg_ctx_add_pkt i pkt w = Inr (0, set_ctx i ?c w)"
    using c(1,3) nw r(2) rx_pkt_body [OF pkt] by (simp add: mctp_msg_ctx_add_pkt_def Let_def)
  have "ctx_wf ?c"
    using wf room r(1) len by (auto simp: ctx_wf_def word_le_nat_alt)
  moreover have "ctx_msg ?c = ctx_msg c @ drop 4 (pktbuf_bytes pkt)"
    using wf c(3) r(1) len by (simp add: ctx_msg_def)
  ultimately show ?thesis
    using add c(3) r(1) len by (intro that [of ?c]) (auto simp: ctx_key_def)
qed

lemma mctp_msg_ctx_add_pkt_full:
  assumes c: "msg_ctxs w ! i = c" and pkt: "rx_pkt pkt"
    and full: "unat (ctx_buf_size c) + (length (pktbuf_bytes pkt) - 4) > unat (ctx_buf_alloc_size c)"
  shows "mctp_msg_ctx_add_pkt i pkt w = Inr (-1, w)"
proof -
  let ?len = "mctp_pktbuf_size pkt - SIZEOF_MCTP_HDR"
  have len: "unat ?len = length (pktbuf_bytes pkt) - 4"
    using pkt add_pkt_len by (auto simp: rx_pkt_def)
  have "?len + ctx_buf_size c < ctx_buf_size c \<or> ctx_buf_size c + ?len > ctx_buf_alloc_size c"
  proof (cases "unat (ctx_buf_size c) + unat ?len < 2 ^ 64")
    case True
    then have "unat (ctx_buf_size c + ?len) = unat (ctx_buf_size c) + unat ?len"
      by (intro unat_add_no_wrap) simp
    then show ?thesis using full len by (simp add: word_less_nat_alt)
  next
    case False
    then have "?len + ctx_buf_size c < ctx_buf_size c"
      by (intro word_add_overflow) simp
    then show ?thesis ..
  qed
  then show ?thesis
    using c by (auto simp: mctp_msg_ctx_add_pkt_def Let_def)
qed

end
