(* ===== verification/Mctp_Tags.thy ===== *)
theory Mctp_Tags
  imports Mctp_Types Mctp_Slots
begin

text \<open>
  The clock and the table of outstanding request tags: \<^verbatim>\<open>src/core.c\<close> lines 956 to 1029. An
  entry is in use when its local EID is not 0, and active while it has not expired. The tag
  loops are kept as loops: \<open>scan_tags\<close> walks the table collecting the mask of used tags and the
  last spare slot, and the tag search runs through the eight tags from \<open>tag_round_robin\<close> on.
\<close>

section \<open>Operations\<close>

definition mctp_set_now_op :: "fnptr \<Rightarrow> ptr \<Rightarrow> 'e world \<Rightarrow> 'e world res" where
  "mctp_set_now_op now ctx w =
     rbind (c_assert (now \<noteq> None)) (\<lambda>_. Inr (w\<lparr>platform_now := now, platform_now_ctx := ctx\<rparr>))"

definition mctp_now :: "'e world \<Rightarrow> u64 res" where
  "mctp_now w =
     (case platform_now w of None \<Rightarrow> Inl Assert_failed
      | Some f \<Rightarrow> Inr (clock w f (platform_now_ctx w)))"

definition mctp_dealloc_tag :: "nat \<Rightarrow> u8 \<Rightarrow> u8 \<Rightarrow> u8 \<Rightarrow> 'e world \<Rightarrow> 'e world res" where
  "mctp_dealloc_tag bi local remote tag w =
     rbind (deref (bus_binding (bus_at w bi))) (\<lambda>b.
     if local = 0 then Inr w
     else rbind (check Null_deref (b_mctp (bindings w b))) (\<lambda>_.
       case find_idx (\<lambda>r. rt_local r = local \<and> rt_remote r = remote \<and> rt_tag r = tag) (req_tags w) of
         None \<Rightarrow> Inr w
       | Some i \<Rightarrow> Inr (w\<lparr>req_tags := (req_tags w)[i := zero_req_tag]\<rparr>)))"

fun scan_tags ::
    "u64 \<Rightarrow> u8 \<Rightarrow> u8 \<Rightarrow> mctp_req_tag list \<Rightarrow> nat \<Rightarrow> u8 \<Rightarrow> nat option \<Rightarrow> u8 \<times> nat option" where
  "scan_tags now local remote [] i used spare = (used, spare)"
| "scan_tags now local remote (r # rs) i used spare =
     (if rt_local r = 0 \<or> rt_expiry r < now
      then scan_tags now local remote rs (Suc i) used (Some i)
      else if rt_local r = local \<and> rt_remote r = remote
      then scan_tags now local remote rs (Suc i) (used OR push_bit (unat (rt_tag r)) 1) spare
      else scan_tags now local remote rs (Suc i) used spare)"

definition next_tag :: "u8 \<Rightarrow> u8 \<Rightarrow> u8 option" where
  "next_tag used rr =
     find (\<lambda>tag. used AND push_bit (unat tag) 1 = 0)
       (map (\<lambda>t. of_nat ((t + unat rr) mod 8)) [0..<8])"

definition mctp_alloc_tag :: "u8 \<Rightarrow> u8 \<Rightarrow> 'e world \<Rightarrow> ((int \<times> u8 option) \<times> 'e world) res" where
  "mctp_alloc_tag local remote w =
     rbind (c_assert (local \<noteq> 0)) (\<lambda>_.
     rbind (mctp_now w) (\<lambda>now.
       let (used, spare) = scan_tags now local remote (req_tags w) 0 0 None in
       case spare of None \<Rightarrow> Inr ((- EBUSY, None), w)
       | Some i \<Rightarrow>
           (case next_tag used (tag_round_robin w) of
              None \<Rightarrow> Inr ((- EBUSY, None), w)
            | Some tag \<Rightarrow>
                Inr ((0, Some tag),
                     w\<lparr>req_tags := (req_tags w)[i := \<lparr>rt_local = local, rt_remote = remote,
                           rt_tag = tag, rt_expiry = now + MCTP_TAG_TIMEOUT\<rparr>],
                       tag_round_robin := of_nat ((unat tag + 1) mod 8)\<rparr>))))"

section \<open>Active entries\<close>

definition tag_used :: "mctp_req_tag \<Rightarrow> bool" where
  "tag_used r \<longleftrightarrow> rt_local r \<noteq> 0"

definition tag_key :: "mctp_req_tag \<Rightarrow> u8 \<times> u8 \<times> u8" where
  "tag_key r = (rt_local r, rt_remote r, rt_tag r)"

definition tag_active :: "u64 \<Rightarrow> mctp_req_tag \<Rightarrow> bool" where
  "tag_active now r \<longleftrightarrow> rt_local r \<noteq> 0 \<and> \<not> rt_expiry r < now"

text \<open>The tags in flight between two endpoints at a point in time.\<close>

definition active_tags :: "u64 \<Rightarrow> u8 \<Rightarrow> u8 \<Rightarrow> mctp_req_tag list \<Rightarrow> u8 set" where
  "active_tags now local remote rs =
     rt_tag ` {r \<in> set rs. tag_active now r \<and> rt_local r = local \<and> rt_remote r = remote}"

text \<open>Every recorded tag fits its three bits, and no two active entries agree.\<close>

definition tags_ok :: "u64 \<Rightarrow> mctp_req_tag list \<Rightarrow> bool" where
  "tags_ok now rs \<longleftrightarrow> (\<forall>r\<in>set rs. rt_tag r < 8) \<and> slots_unique (tag_active now) tag_key rs"

section \<open>Lemmas\<close>

interpretation tags: slot_table tag_used tag_key "\<lambda>r. zero_req_tag"
  by unfold_locales (simp add: tag_used_def zero_req_tag_def)

interpretation active: slot_table "tag_active now" tag_key "\<lambda>r. zero_req_tag" for now
  by unfold_locales (simp add: tag_active_def zero_req_tag_def)

subsection \<open>The scan\<close>

lemma scan_tags_spare:
  "snd (scan_tags now l r rs i used spare) = None \<longleftrightarrow> spare = None \<and> (\<forall>x\<in>set rs. tag_active now x)"
  by (induction rs arbitrary: i used spare) (auto simp: tag_active_def)

lemma scan_tags_spare_index:
  assumes "snd (scan_tags now l r rs i used spare) = Some j"
  shows "(spare = Some j) \<or> (i \<le> j \<and> j < i + length rs \<and> \<not> tag_active now (rs ! (j - i)))"
  using assms
proof (induction rs arbitrary: i used spare)
  case Nil
  then show ?case by simp
next
  case (Cons x rs)
  have step: "(sp = Some j) \<or> (Suc i \<le> j \<and> j < Suc i + length rs \<and> \<not> tag_active now (rs ! (j - Suc i)))"
    if "snd (scan_tags now l r rs (Suc i) u sp) = Some j" for u sp
    using Cons.IH [OF that] .
  have shift: "(x # rs) ! (j - i) = rs ! (j - Suc i)" if "Suc i \<le> j"
    using that by (simp add: nth_Cons' )
  show ?case
  proof (cases "tag_active now x")
    case True
    then have "\<exists>u. snd (scan_tags now l r rs (Suc i) u spare) = Some j"
      using Cons.prems by (auto simp: tag_active_def split: if_splits)
    then show ?thesis using step shift by fastforce
  next
    case False
    then have "snd (scan_tags now l r rs (Suc i) used (Some i)) = Some j"
      using Cons.prems by (auto simp: tag_active_def split: if_splits)
    from step [OF this] show ?thesis using shift False by auto
  qed
qed

lemma scan_tags_mask:
  "fst (scan_tags now l r rs i used spare) AND push_bit n 1 = 0 \<longleftrightarrow>
     used AND push_bit n 1 = 0 \<and>
     (\<forall>x\<in>set rs. tag_active now x \<longrightarrow> rt_local x = l \<longrightarrow> rt_remote x = r \<longrightarrow>
        push_bit (unat (rt_tag x)) 1 AND push_bit n 1 = (0 :: u8))"
proof (induction rs arbitrary: i used spare)
  case Nil
  then show ?case by simp
next
  case (Cons x rs)
  then show ?case
    by (auto simp: tag_active_def bit.conj_disj_distrib2 or_eq_0_iff)
qed


lemma single_bits_nat:
  "m < 8 \<Longrightarrow> n < 8 \<Longrightarrow> push_bit m 1 AND push_bit n 1 = (0 :: u8) \<longleftrightarrow> m \<noteq> n"
  by (auto simp: and_exp_eq_0_iff_not_bit bit_exp_iff)

lemma single_bits:
  fixes a b :: u8
  assumes "a < 8" "b < 8"
  shows "push_bit (unat a) 1 AND push_bit (unat b) 1 = (0 :: u8) \<longleftrightarrow> a \<noteq> b"
proof -
  have "unat a < 8" "unat b < 8" using assms by (simp_all add: word_less_nat_alt)
  from single_bits_nat [OF this] show ?thesis by (simp only: word_unat_eq_iff)
qed

lemma scan_tags_mask_active:
  assumes "\<forall>x\<in>set rs. rt_tag x < 8" and "tag < 8"
  shows "fst (scan_tags now l r rs 0 0 None) AND push_bit (unat tag) 1 = 0 \<longleftrightarrow>
           tag \<notin> active_tags now l r rs"
  unfolding scan_tags_mask
  using assms single_bits by (auto simp: active_tags_def)

subsection \<open>The tag search\<close>

lemma rotation_inverse:
  assumes "x < (8 :: nat)"
  shows "((x + (8 - r mod 8)) mod 8 + r) mod 8 = x"
proof -
  have "(8 - r mod 8) + r = 8 + 8 * (r div 8)"
    using mult_div_mod_eq [of 8 r] mod_less_divisor [of 8 r] by linarith
  then have "x + (8 - r mod 8) + r = x + 8 * (1 + r div 8)"
    by simp
  then have "(x + (8 - r mod 8) + r) mod 8 = x mod 8"
    by (metis mod_mult_self2)
  then show ?thesis using assms by (simp add: mod_add_left_eq)
qed

lemma rotation_covers: "(\<lambda>t. (t + r) mod 8) ` {0..<8} = {0..<(8 :: nat)}"
proof (intro equalityI subsetI)
  fix x assume "x \<in> {0..<(8 :: nat)}"
  then have "x = ((x + (8 - r mod 8)) mod 8 + r) mod 8" by (simp only: rotation_inverse atLeastLessThan_iff)
  then show "x \<in> (\<lambda>t. (t + r) mod 8) ` {0..<8}" by (rule image_eqI) simp
next
  fix x assume "x \<in> (\<lambda>t. (t + r) mod 8) ` {0..<8}"
  then show "x \<in> {0..<(8 :: nat)}" by auto
qed

lemma candidate_tags: "set (map (\<lambda>t. of_nat ((t + r) mod 8)) [0..<8]) = {t :: u8. t < 8}"
proof -
  have "set (map (\<lambda>t. of_nat ((t + r) mod 8)) [0..<8]) =
      (of_nat :: nat \<Rightarrow> u8) ` (\<lambda>t. (t + r) mod 8) ` {0..<8}"
    by (simp only: set_map set_upt image_image)
  also have "\<dots> = of_nat ` {0..<8}" by (simp only: rotation_covers)
  also have "\<dots> = {t. t < 8}"
  proof (intro equalityI subsetI)
    fix t :: u8 assume "t \<in> {t. t < 8}"
    then have "unat t < 8" by (simp add: word_less_nat_alt)
    then show "t \<in> of_nat ` {0..<8}" by (intro image_eqI [of _ _ "unat t"]) simp_all
  next
    fix t :: u8 assume "t \<in> of_nat ` {0..<8}"
    then obtain n where "n < 8" "t = of_nat n" by auto
    then show "t \<in> {t. t < 8}" by (simp add: word_less_nat_alt unat_of_nat)
  qed
  finally show ?thesis .
qed

lemma next_tag_None: "next_tag used rr = None \<longleftrightarrow> (\<forall>t :: u8. t < 8 \<longrightarrow> used AND push_bit (unat t) 1 \<noteq> 0)"
  unfolding next_tag_def find_None_iff candidate_tags by auto

lemma next_tag_Some:
  assumes "next_tag used rr = Some tag"
  shows "tag < 8" and "used AND push_bit (unat tag) 1 = 0"
proof -
  obtain i where "i < length (map (\<lambda>t. of_nat ((t + unat rr) mod 8)) [0..<8] :: u8 list)"
    and "used AND push_bit (unat tag) 1 = 0"
    and "tag = map (\<lambda>t. of_nat ((t + unat rr) mod 8)) [0..<8] ! i"
    using assms unfolding next_tag_def find_Some_iff by blast
  then show "used AND push_bit (unat tag) 1 = 0" and "tag < 8"
    using nth_mem [of i "map (\<lambda>t. of_nat ((t + unat rr) mod 8)) [0..<8] :: u8 list"]
    unfolding candidate_tags by simp_all
qed

subsection \<open>Allocation\<close>

text \<open>What a successful call did.\<close>

lemma mctp_alloc_tag_okE:
  assumes "mctp_alloc_tag l r w = Inr ((0, Some tag), w')" and "mctp_now w = Inr now"
    and "\<forall>x\<in>set (req_tags w). rt_tag x < 8"
  obtains i where "i < length (req_tags w)" and "\<not> tag_active now (req_tags w ! i)"
    and "tag < 8" and "tag \<notin> active_tags now l r (req_tags w)" and "l \<noteq> 0"
    and "w' = w\<lparr>req_tags := (req_tags w)[i := \<lparr>rt_local = l, rt_remote = r, rt_tag = tag,
            rt_expiry = now + MCTP_TAG_TIMEOUT\<rparr>], tag_round_robin := of_nat ((unat tag + 1) mod 8)\<rparr>"
proof -
  obtain used i where sc: "scan_tags now l r (req_tags w) 0 0 None = (used, Some i)"
    and tag: "next_tag used (tag_round_robin w) = Some tag" and "l \<noteq> 0"
    and w': "w' = w\<lparr>req_tags := (req_tags w)[i := \<lparr>rt_local = l, rt_remote = r, rt_tag = tag,
            rt_expiry = now + MCTP_TAG_TIMEOUT\<rparr>], tag_round_robin := of_nat ((unat tag + 1) mod 8)\<rparr>"
    using assms(1,2) by (auto simp: mctp_alloc_tag_def split: prod.splits option.splits)
  have "i < length (req_tags w) \<and> \<not> tag_active now (req_tags w ! i)"
    using scan_tags_spare_index [of now l r "req_tags w" 0 0 None i] sc by simp
  moreover have "tag \<notin> active_tags now l r (req_tags w)"
    using scan_tags_mask_active [OF assms(3) next_tag_Some(1) [OF tag], of now l r]
      next_tag_Some(2) [OF tag] sc by simp
  ultimately show ?thesis
    using that \<open>l \<noteq> 0\<close> w' next_tag_Some(1) [OF tag] by blast
qed

text \<open>The call reports busy exactly when there is no free slot or no free tag.\<close>

lemma mctp_alloc_tag_busy_iff:
  assumes "mctp_now w = Inr now" and "l \<noteq> 0" and "\<forall>x\<in>set (req_tags w). rt_tag x < 8"
  shows "mctp_alloc_tag l r w = Inr ((- EBUSY, None), w) \<longleftrightarrow>
     (\<forall>x\<in>set (req_tags w). tag_active now x) \<or> active_tags now l r (req_tags w) = {t. t < 8}"
proof -
  obtain used spare where sc: "scan_tags now l r (req_tags w) 0 0 None = (used, spare)"
    by fastforce
  have sp: "spare = None \<longleftrightarrow> (\<forall>x\<in>set (req_tags w). tag_active now x)"
    using scan_tags_spare [of now l r "req_tags w" 0 0 None] sc by simp
  have sub: "active_tags now l r (req_tags w) \<subseteq> {t. t < 8}"
    using assms(3) by (auto simp: active_tags_def)
  have "next_tag used rr = None \<longleftrightarrow> active_tags now l r (req_tags w) = {t. t < 8}" for rr
    unfolding next_tag_None
    using scan_tags_mask_active [OF assms(3), of _ now l r, unfolded sc fst_conv] sub by blast
  then show ?thesis
    using assms(1,2) sc sp by (auto simp: mctp_alloc_tag_def split: option.splits)
qed

section \<open>The table as a set of tags per pair of endpoints\<close>

lemma active_tags_alt:
  "active_tags now a b rs = {t. \<exists>x. (x \<in> set rs \<and> tag_active now x) \<and> rt_local x = a \<and> rt_remote x = b \<and> rt_tag x = t}"
  by (auto simp: active_tags_def)

lemma active_tags_fill:
  assumes "i < length rs" and "\<not> tag_active now (rs ! i)" and "l \<noteq> 0" and "\<not> t < now"
  shows "active_tags now a b (rs[i := \<lparr>rt_local = l, rt_remote = r, rt_tag = tag, rt_expiry = t\<rparr>]) =
     (if a = l \<and> b = r then insert tag (active_tags now a b rs) else active_tags now a b rs)"
proof -
  let ?x = "\<lparr>rt_local = l, rt_remote = r, rt_tag = tag, rt_expiry = t\<rparr>"
  have "{x \<in> set (rs[i := ?x]). tag_active now x} = insert ?x {x \<in> set rs. tag_active now x}"
  proof (intro equalityI subsetI)
    fix x assume "x \<in> insert ?x {x \<in> set rs. tag_active now x}"
    then consider "x = ?x" | j where "j < length rs" "x = rs ! j" "tag_active now x" by (auto simp: in_set_conv_nth)
    then show "x \<in> {x \<in> set (rs[i := ?x]). tag_active now x}"
    proof cases
      case 1
      then show ?thesis using assms by (auto simp: set_update_memI tag_active_def)
    next
      case 2
      then have "j \<noteq> i" using assms(2) by auto
      then have "rs[i := ?x] ! j = x" "j < length (rs[i := ?x])" using 2 by simp_all
      then show ?thesis using 2(3) nth_mem by fastforce
    qed
  next
    fix x assume "x \<in> {x \<in> set (rs[i := ?x]). tag_active now x}"
    then show "x \<in> insert ?x {x \<in> set rs. tag_active now x}" using set_update_subset_insert [of rs i ?x] by auto
  qed
  then have S: "x \<in> set (rs[i := ?x]) \<and> tag_active now x \<longleftrightarrow> x = ?x \<or> x \<in> set rs \<and> tag_active now x" for x by blast
  show ?thesis unfolding active_tags_alt S by (auto simp: conj_disj_distribR ex_disj_distrib Collect_disj_eq)
qed

lemma active_tags_clear:
  assumes "i < length rs" and "\<forall>j<length rs. j \<noteq> i \<longrightarrow> tag_key (rs ! j) \<noteq> tag_key (rs ! i)"
  shows "active_tags now a b (rs[i := zero_req_tag]) =
     (if (a, b) = (rt_local (rs ! i), rt_remote (rs ! i)) then active_tags now a b rs - {rt_tag (rs ! i)} else active_tags now a b rs)"
proof -
  have "{x \<in> set (rs[i := zero_req_tag]). tag_active now x} = {x \<in> set rs. tag_active now x} - {rs ! i}" (is "?L = ?R")
  proof (intro equalityI subsetI)
    fix x assume "x \<in> ?R"
    then obtain j where "j < length rs" "x = rs ! j" "tag_active now x" "j \<noteq> i" by (auto simp: in_set_conv_nth)
    then have "rs[i := zero_req_tag] ! j = x" "j < length (rs[i := zero_req_tag])" "tag_active now x" by simp_all
    then show "x \<in> ?L" using nth_mem by fastforce
  next
    fix x assume "x \<in> ?L"
    then obtain j where "j < length rs" "x = rs[i := zero_req_tag] ! j" "tag_active now x" by (auto simp: in_set_conv_nth)
    then show "x \<in> ?R" using assms by (auto simp: nth_list_update tag_active_def zero_req_tag_def split: if_splits)
  qed
  then have "{x \<in> set (rs[i := zero_req_tag]). tag_active now x \<and> rt_local x = a \<and> rt_remote x = b} =
     {x \<in> {x \<in> set rs. tag_active now x} - {rs ! i}. rt_local x = a \<and> rt_remote x = b}" by blast
  moreover have "rt_tag x \<noteq> rt_tag (rs ! i)" if "x \<in> set rs" "x \<noteq> rs ! i" "rt_local x = rt_local (rs ! i)" "rt_remote x = rt_remote (rs ! i)" for x
    using that assms(2) by (auto simp: in_set_conv_nth tag_key_def)
  ultimately show ?thesis by (auto simp: active_tags_def)
qed

text \<open>The table after the release of a tag, as \<open>mctp_dealloc_tag\<close> leaves it.\<close>

definition release_tag :: "u8 \<Rightarrow> u8 \<Rightarrow> u8 \<Rightarrow> mctp_req_tag list \<Rightarrow> mctp_req_tag list" where
  "release_tag local remote tag rs =
     (if local = 0 then rs
      else case find_idx (\<lambda>r. rt_local r = local \<and> rt_remote r = remote \<and> rt_tag r = tag) rs of
             None \<Rightarrow> rs | Some i \<Rightarrow> rs[i := zero_req_tag])"

lemma mctp_dealloc_tag_release:
  "bus_binding (bus_at w bi) = Some b \<Longrightarrow> b_mctp (bindings w b) \<Longrightarrow>
     mctp_dealloc_tag bi l r t w = Inr (w\<lparr>req_tags := release_tag l r t (req_tags w)\<rparr>)"
  by (cases w) (simp add: mctp_dealloc_tag_def release_tag_def split: option.split)

lemma release_tag_active:
  assumes "l \<noteq> 0" and "slots_unique tag_used tag_key rs"
  shows "slots_unique tag_used tag_key (release_tag l r tag rs)"
    and "active_tags now a c (release_tag l r tag rs) =
       (if a = l \<and> c = r then active_tags now a c rs - {tag} else active_tags now a c rs)"
proof -
  have "slots_unique tag_used tag_key (release_tag l r tag rs) \<and> active_tags now a c (release_tag l r tag rs) =
       (if a = l \<and> c = r then active_tags now a c rs - {tag} else active_tags now a c rs)"
  proof (cases "find_idx (\<lambda>x. rt_local x = l \<and> rt_remote x = r \<and> rt_tag x = tag) rs")
    case None
    moreover from None have "tag \<notin> active_tags now l r rs" by (auto simp: active_tags_def find_idx_None_iff)
    ultimately show ?thesis using assms by (auto simp: release_tag_def)
  next
    case (Some i)
    then have i: "i < length rs" "tag_key (rs ! i) = (l, r, tag)" by (auto dest!: find_idx_SomeD simp: tag_key_def)
    have "tag_key (rs ! j) \<noteq> tag_key (rs ! i)" if "j < length rs" "j \<noteq> i" for j
      using slots_uniqueD [OF assms(2) that(1) i(1)] that(2) i(2) assms(1) by (auto simp: tag_used_def tag_key_def)
    then show ?thesis using Some active_tags_clear [OF i(1)] i(2) tags.unique_release [OF assms(2) i(1)] assms(1)
      by (simp add: tag_key_def release_tag_def)
  qed
  then show "slots_unique tag_used tag_key (release_tag l r tag rs)"
    and "active_tags now a c (release_tag l r tag rs) =
       (if a = l \<and> c = r then active_tags now a c rs - {tag} else active_tags now a c rs)" by simp_all
qed

text \<open>With no expired entry left in the table, a new entry for a free tag repeats none.\<close>

lemma slots_unique_fill:
  assumes "slots_unique tag_used tag_key rs" and "\<forall>x\<in>set rs. tag_used x \<longrightarrow> tag_active now x"
    and "i < length rs" and "tag \<notin> active_tags now l r rs"
  shows "slots_unique tag_used tag_key (rs[i := \<lparr>rt_local = l, rt_remote = r, rt_tag = tag, rt_expiry = e\<rparr>])"
proof -
  have "tag_key (rs ! j) \<noteq> (l, r, tag)" if "j < length rs" "tag_used (rs ! j)" for j
    using assms(2,4) that nth_mem [OF that(1)] by (auto simp: active_tags_def tag_key_def)
  then show ?thesis
    using assms(1,3) by (fastforce simp: slots_unique_def nth_list_update tag_key_def)
qed

section \<open>Properties\<close>

definition ex_tags :: "mctp_req_tag list" where
  "ex_tags = [\<lparr>rt_local = 9, rt_remote = 8, rt_tag = 0, rt_expiry = 100\<rparr>, zero_req_tag,
     \<lparr>rt_local = 9, rt_remote = 8, rt_tag = 1, rt_expiry = 300\<rparr>]"

definition ex_tag_world :: "unit world" where
  "ex_tag_world = \<lparr>n_busses = 1, busses = [zero_bus\<lparr>bus_binding := Some 0\<rparr>], message_rx = None, message_rx_data = 0,
     capture = None, capture_data = 0, msg_ctxs = [], req_tags = ex_tags, tag_round_robin = 1, route_policy = ROUTE_ENDPOINT,
     max_message_size = 0, control = zero_control, alloc_ctx = 0, platform_now = Some 0, platform_now_ctx = 0,
     bindings = (\<lambda>_. \<lparr>b_name = [], b_version = 1, b_bus = Some 0, b_mctp = True, b_pkt_size = 68, b_pkt_header = 0, b_pkt_trailer = 0,
       b_tx_storage = None, b_start = None, b_tx = None, b_control_rx = None, b_control_rx_data = 0, b_priv = ()\<rparr>),
     heap = \<lparr>h_next = 0, h_live = {}, h_ok = (\<lambda>b n. True)\<rparr>, ops = default_alloc_ops,
     clock = (\<lambda>f u. 200), trace = []\<rparr>"

text \<open>
  C21: a successful \<open>mctp_alloc_tag\<close> hands out a tag below 8 that no unexpired request between the two
  endpoints uses, and records it: for this pair exactly that tag becomes active, for every other
  pair nothing changes. (The clock must be 6000 ms away from its wrap-around.)
\<close>

theorem alloc_tag_adds:
  assumes "mctp_alloc_tag l r w = Inr ((0, Some tag), w')" and "mctp_now w = Inr now" and "\<forall>x\<in>set (req_tags w). rt_tag x < 8"
    and "now \<le> now + MCTP_TAG_TIMEOUT"
  shows "tag < 8 \<and> tag \<notin> active_tags now l r (req_tags w) \<and>
     (\<forall>a b. active_tags now a b (req_tags w') =
        (if a = l \<and> b = r then insert tag (active_tags now a b (req_tags w)) else active_tags now a b (req_tags w))) \<and>
     (\<forall>x\<in>set (req_tags w'). rt_tag x < 8)"
proof -
  obtain i where i: "i < length (req_tags w)" "\<not> tag_active now (req_tags w ! i)" "tag < 8"
    "tag \<notin> active_tags now l r (req_tags w)" "l \<noteq> 0"
    "w' = w\<lparr>req_tags := (req_tags w)[i := \<lparr>rt_local = l, rt_remote = r, rt_tag = tag,
            rt_expiry = now + MCTP_TAG_TIMEOUT\<rparr>], tag_round_robin := of_nat ((unat tag + 1) mod 8)\<rparr>"
    by (rule mctp_alloc_tag_okE [OF assms(1-3)])
  have "\<not> now + MCTP_TAG_TIMEOUT < now" using assms(4) by simp
  from active_tags_fill [OF i(1,2,5) this] show ?thesis
    using i assms(3) set_update_subset_insert [of "req_tags w" i] by fastforce
qed

lemma ex_alloc_tag:
  "mctp_alloc_tag 9 8 ex_tag_world = Inr ((0, Some 2), ex_tag_world\<lparr>req_tags := ex_tags[1 := \<lparr>rt_local = 9, rt_remote = 8,
     rt_tag = 2, rt_expiry = 6200\<rparr>], tag_round_robin := 3\<rparr>)"
  by (simp add: mctp_alloc_tag_def mctp_now_def ex_tag_world_def ex_tags_def zero_req_tag_def next_tag_def upt_rec)

lemma ex_active: "active_tags 200 9 8 (req_tags ex_tag_world) = {1}"
  by (simp add: active_tags_alt ex_tag_world_def ex_tags_def zero_req_tag_def tag_active_def conj_disj_distribR
      ex_disj_distrib Collect_disj_eq cong: conj_cong)

theorem alloc_tag_adds_witness:
  "\<exists>w'. mctp_alloc_tag 9 8 ex_tag_world = Inr ((0, Some 2), w') \<and> active_tags 200 9 8 (req_tags w') = {1, 2}"
proof -
  have n: "mctp_now ex_tag_world = Inr 200" by (simp add: mctp_now_def ex_tag_world_def)
  have t: "\<forall>x\<in>set (req_tags ex_tag_world). rt_tag x < 8" by (simp add: ex_tag_world_def ex_tags_def zero_req_tag_def)
  show ?thesis using alloc_tag_adds [OF ex_alloc_tag n t] ex_active ex_alloc_tag by auto
qed

text \<open>
  C22: \<open>mctp_alloc_tag\<close> reports \<open>-EBUSY\<close>, with the state unchanged, exactly when every entry of the table is
  still active or all eight tags of this pair are; otherwise it succeeds. The round robin start
  value and the order of the table do not matter.
\<close>

theorem alloc_tag_exhausted:
  assumes "mctp_now w = Inr now" and "l \<noteq> 0" and "\<forall>x\<in>set (req_tags w). rt_tag x < 8"
  shows "if (\<forall>x\<in>set (req_tags w). tag_active now x) \<or> active_tags now l r (req_tags w) = {t. t < 8}
     then mctp_alloc_tag l r w = Inr ((- EBUSY, None), w)
     else \<exists>tag w'. mctp_alloc_tag l r w = Inr ((0, Some tag), w')"
proof -
  have "mctp_alloc_tag l r w = Inr ((- EBUSY, None), w) \<or> (\<exists>tag w'. mctp_alloc_tag l r w = Inr ((0, Some tag), w'))"
    using assms(1,2) by (auto simp: mctp_alloc_tag_def split: prod.split option.split)
  then show ?thesis using mctp_alloc_tag_busy_iff [OF assms] by auto
qed

theorem alloc_tag_exhausted_witness:
  "mctp_alloc_tag 9 8 (ex_tag_world\<lparr>req_tags := [\<lparr>rt_local = 9, rt_remote = 7, rt_tag = 0, rt_expiry = 300\<rparr>]\<rparr>) =
     Inr ((- EBUSY, None), ex_tag_world\<lparr>req_tags := [\<lparr>rt_local = 9, rt_remote = 7, rt_tag = 0, rt_expiry = 300\<rparr>]\<rparr>)"
proof -
  let ?w = "ex_tag_world\<lparr>req_tags := [\<lparr>rt_local = 9, rt_remote = 7, rt_tag = 0, rt_expiry = 300\<rparr>]\<rparr>"
  have n: "mctp_now ?w = Inr 200" by (simp add: mctp_now_def ex_tag_world_def)
  show ?thesis using alloc_tag_exhausted [OF n, of 9 8] by (simp add: tag_active_def)
qed

text \<open>
  When no two used entries of the table carry the same endpoints and tag, \<open>mctp_dealloc_tag\<close> makes
  exactly this tag inactive again and keeps the table free of such duplicates.
\<close>

lemma dealloc_tag_removes:
  assumes "bus_binding (bus_at w bi) = Some b" and "b_mctp (bindings w b)" and "l \<noteq> 0"
    and "slots_unique tag_used tag_key (req_tags w)"
  shows "\<exists>w'. mctp_dealloc_tag bi l r tag w = Inr w' \<and> slots_unique tag_used tag_key (req_tags w') \<and>
     (\<forall>a b. active_tags now a b (req_tags w') =
        (if a = l \<and> b = r then active_tags now a b (req_tags w) - {tag} else active_tags now a b (req_tags w)))"
  using mctp_dealloc_tag_release [OF assms(1,2)] release_tag_active [OF assms(3,4)]
  by (intro exI [of _ "w\<lparr>req_tags := release_tag l r tag (req_tags w)\<rparr>"]) simp

text \<open>
  With an expired entry for the same endpoints and tag in front, \<open>mctp_dealloc_tag\<close> clears the expired
  entry and stops: the tag that \<open>mctp_alloc_tag\<close> has just handed out stays active although its
  response has arrived.
\<close>

lemma dealloc_tag_keeps_live_tag:
  "\<exists>w1 w2. mctp_alloc_tag 9 8 (ex_tag_world\<lparr>tag_round_robin := 0\<rparr>) = Inr ((0, Some 0), w1) \<and>
     mctp_dealloc_tag 0 9 8 0 w1 = Inr w2 \<and> 0 \<in> active_tags 200 9 8 (req_tags w2)"
  by (simp add: mctp_alloc_tag_def mctp_dealloc_tag_def mctp_now_def ex_tag_world_def ex_tags_def zero_req_tag_def next_tag_def upt_rec
      bus_at_def active_tags_alt tag_active_def conj_disj_distribR ex_disj_distrib)

end
