(* ===== verification/Mctp_Tx.thy ===== *)
theory Mctp_Tx
  imports Mctp_Pktbuf Mctp_Reassembly Mctp_Tags
begin

text \<open>
  Transmission: \<^verbatim>\<open>src/core.c\<close> lines 336 to 345, 719 to 954 and 1031 to 1068. A bus carries one
  message at a time; \<open>mctp_next_tx_pkt\<close> cuts the next fragment into the binding's buffer,
  \<open>mctp_packet_tx\<close> hands it to the binding, \<open>mctp_tx_complete\<close> moves on, and the loop
  \<open>mctp_send_tx_queue\<close> repeats this until the message is out, the binding is busy, or it fails.
  The loop takes fuel; \<open>mctp_send_tx_queue\<close> gives it one unit more than the message has bytes,
  which \<open>loop_safe\<close> shows to be enough on every bus that passed the MTU check: each packet but
  the last carries at least one byte.

  The locale \<open>safe_tx\<close> states what the core expects of a binding's transmit function: on a
  packet that fits the transmission unit it returns, and it keeps the binding's invariant.
\<close>

section \<open>Operations\<close>

definition find_bus_for_eid :: "'e world \<Rightarrow> mctp_eid_t \<Rightarrow> nat option" where
  "find_bus_for_eid w dest = (if n_busses w = 0 then None else Some 0)"

definition capture_events :: "mctp_pktbuf \<Rightarrow> bool \<Rightarrow> 'e world \<Rightarrow> event list" where
  "capture_events pkt outgoing w =
     (case capture w of None \<Rightarrow> [] | Some f \<Rightarrow> [Ev_capture f pkt outgoing (capture_data w)])"

definition mctp_packet_tx :: "nat \<Rightarrow> mctp_pktbuf \<Rightarrow> 'e world \<Rightarrow> (int \<times> 'e world) res" where
  "mctp_packet_tx bi pkt w =
     rbind (deref (bus_binding (bus_at w bi))) (\<lambda>b.
     if bus_state (bus_at w bi) \<noteq> mctp_bus_state_tx_enabled then Inr (-1, w)
     else rbind (check Null_deref (b_mctp (bindings w b))) (\<lambda>_.
       let w = w\<lparr>trace := trace w @ capture_events pkt True w\<rparr> in
       rbind (deref (b_tx (bindings w b))) (\<lambda>tx.
       rbind (tx (b_priv (bindings w b)) pkt) (\<lambda>(rc, e).
         Inr (rc, emit (Ev_tx b pkt rc) (set_binding b ((bindings w b)\<lparr>b_priv := e\<rparr>) w))))))"

definition mctp_next_tx_pkt :: "nat \<Rightarrow> 'e world \<Rightarrow> (mctp_pktbuf option \<times> 'e world) res" where
  "mctp_next_tx_pkt bi w =
     (let bus = bus_at w bi in
      case tx_msg bus of None \<Rightarrow> Inr (None, w)
      | Some msg \<Rightarrow>
          rbind (deref (bus_binding bus)) (\<lambda>b.
          let bnd = bindings w b;
              p = tx_msgpos bus;
              msg_len = tx_msglen bus;
              payload_len = msg_len - p;
              max_payload_len = MCTP_BODY_SIZE (b_pkt_size bnd);
              payload_len = (if payload_len > max_payload_len then max_payload_len else payload_len)
          in rbind (deref (b_tx_storage bnd)) (\<lambda>st.
          let pkt = mctp_pktbuf_init bnd st;
              hdr = \<lparr>hdr_ver = b_version bnd AND 0xf, hdr_dest = tx_dest bus, hdr_src = tx_src bus,
                     flags_seq_tag = encode_fst (tx_to bus) (tx_tag bus) (tx_seq bus)
                                       (p = 0) (p + payload_len \<ge> msg_len)\<rparr>
          in rbind (mem_write (pk_data pkt) (unat (mctp_pktbuf_hdr pkt)) (hdr_bytes hdr)) (\<lambda>d.
             rbind (mem_read (mb_data msg) (unat p) (unat payload_len)) (\<lambda>bs.
             rbind (mem_write d (unat (mctp_pktbuf_data pkt)) bs) (\<lambda>d.
               let pkt = pkt\<lparr>pk_data := d, pk_end := pk_start pkt + SIZEOF_MCTP_HDR + payload_len\<rparr>
               in Inr (Some pkt,
                    set_bus bi (bus\<lparr>tx_pktlen := payload_len\<rparr>)
                      (set_binding b (bnd\<lparr>b_tx_storage := Some pkt\<rparr>) w))))))))"

definition mctp_tx_complete :: "nat \<Rightarrow> 'e world \<Rightarrow> 'e world res" where
  "mctp_tx_complete bi w =
     (let bus = bus_at w bi in
      case tx_msg bus of None \<Rightarrow> Inr w
      | Some msg \<Rightarrow>
          let bus = bus\<lparr>tx_seq := (tx_seq bus + 1) AND MCTP_HDR_SEQ_MASK,
                        tx_msgpos := tx_msgpos bus + tx_pktlen bus\<rparr>
          in if tx_msgpos bus \<ge> tx_msglen bus
             then rbind (deref (bus_binding bus)) (\<lambda>b.
                  rbind (w_msg_free (Some msg) (b_mctp (bindings w b)) w) (\<lambda>w.
                    Inr (set_bus bi (bus\<lparr>tx_msg := None\<rparr>) w)))
             else Inr (set_bus bi bus w))"

fun send_tx_queue :: "nat \<Rightarrow> nat \<Rightarrow> 'e world \<Rightarrow> 'e world res" where
  "send_tx_queue fuel bi w =
     (if tx_msg (bus_at w bi) = None \<or> bus_state (bus_at w bi) \<noteq> mctp_bus_state_tx_enabled
      then Inr w
      else (case fuel of 0 \<Rightarrow> Inl Diverged
        | Suc fuel \<Rightarrow>
            rbind (mctp_next_tx_pkt bi w) (\<lambda>(pkt, w).
            rbind (deref pkt) (\<lambda>pkt.
            rbind (mctp_packet_tx bi pkt w) (\<lambda>(rc, w).
              if rc = 0 then rbind (mctp_tx_complete bi w) (\<lambda>w. send_tx_queue fuel bi w)
              else if rc = - EBUSY then Inr w
              else mctp_tx_complete bi w)))))"

declare send_tx_queue.simps [simp del]

definition mctp_send_tx_queue :: "nat \<Rightarrow> 'e world \<Rightarrow> 'e world res" where
  "mctp_send_tx_queue bi w = send_tx_queue (Suc (unat (tx_msglen (bus_at w bi)))) bi w"

definition mctp_binding_set_tx_enabled :: "nat \<Rightarrow> bool \<Rightarrow> 'e world \<Rightarrow> 'e world res" where
  "mctp_binding_set_tx_enabled b enable w =
     rbind (deref (b_bus (bindings w b))) (\<lambda>bi.
       let bus = bus_at w bi in
       case bus_state bus of
         mctp_bus_state_constructed \<Rightarrow>
           if \<not> enable then Inr w
           else if b_pkt_size (bindings w b) < MCTP_PACKET_SIZE MCTP_BTU then Inr w
           else Inr (set_bus bi (bus\<lparr>bus_state := mctp_bus_state_tx_enabled\<rparr>) w)
       | mctp_bus_state_tx_enabled \<Rightarrow>
           if enable then Inr w
           else Inr (set_bus bi (bus\<lparr>bus_state := mctp_bus_state_tx_disabled\<rparr>) w)
       | mctp_bus_state_tx_disabled \<Rightarrow>
           if \<not> enable then Inr w
           else mctp_send_tx_queue bi (set_bus bi (bus\<lparr>bus_state := mctp_bus_state_tx_enabled\<rparr>) w))"

definition mctp_message_tx_on_bus ::
    "nat \<Rightarrow> mctp_eid_t \<Rightarrow> mctp_eid_t \<Rightarrow> bool \<Rightarrow> u8 \<Rightarrow> msgbuf \<Rightarrow> u64 \<Rightarrow> 'e world \<Rightarrow> (int \<times> 'e world) res" where
  "mctp_message_tx_on_bus bi src dest tag_owner msg_tag msg msg_len w =
     (let bus = bus_at w bi;
          err = (\<lambda>rc. rbind (deref (bus_binding bus)) (\<lambda>b.
                  rbind (w_msg_free (Some msg) (b_mctp (bindings w b)) w) (\<lambda>w. Inr (rc, w))))
      in if bus_state bus = mctp_bus_state_constructed then err (- ENXIO)
      else if msg_tag AND MCTP_HDR_TAG_MASK \<noteq> msg_tag then err (- EINVAL)
      else rbind (deref (bus_binding bus)) (\<lambda>b.
        let max_payload_len = MCTP_BODY_SIZE (b_pkt_size (bindings w b));
            valid_mtu = (max_payload_len \<ge> MCTP_BTU)
        in rbind (c_assert valid_mtu) (\<lambda>_.
        if tx_msg bus \<noteq> None then err (- EBUSY)
        else rbind (mctp_send_tx_queue bi (set_bus bi
               (bus\<lparr>tx_msg := Some msg, tx_msglen := msg_len, tx_msgpos := 0, tx_src := src,
                    tx_dest := dest, tx_to := tag_owner, tx_tag := msg_tag\<rparr>) w)) (\<lambda>w. Inr (0, w)))))"

definition mctp_message_tx_alloced ::
    "mctp_eid_t \<Rightarrow> bool \<Rightarrow> u8 \<Rightarrow> msgbuf \<Rightarrow> u64 \<Rightarrow> 'e world \<Rightarrow> (int \<times> 'e world) res" where
  "mctp_message_tx_alloced eid tag_owner msg_tag msg msg_len w =
     (if msg_tag AND MCTP_HDR_TAG_MASK \<noteq> msg_tag
      then rbind (w_msg_free (Some msg) True w) (\<lambda>w. Inr (- EINVAL, w))
      else case find_bus_for_eid w eid of
        None \<Rightarrow> rbind (w_msg_free (Some msg) True w) (\<lambda>w. Inr (0, w))
      | Some bi \<Rightarrow>
          mctp_message_tx_on_bus bi (bus_eid (bus_at w bi)) eid tag_owner msg_tag msg msg_len w)"

definition mctp_message_tx ::
    "mctp_eid_t \<Rightarrow> bool \<Rightarrow> u8 \<Rightarrow> bytes \<Rightarrow> u64 \<Rightarrow> 'e world \<Rightarrow> (int \<times> 'e world) res" where
  "mctp_message_tx eid tag_owner msg_tag msg msg_len w =
     rbind (mctp_msg_dup msg 0 msg_len True w) (\<lambda>(copy, w).
       case copy of None \<Rightarrow> Inr (- ENOMEM, w)
       | Some mb \<Rightarrow> mctp_message_tx_alloced eid tag_owner msg_tag mb msg_len w)"

definition mctp_message_tx_request ::
    "mctp_eid_t \<Rightarrow> msgbuf \<Rightarrow> u64 \<Rightarrow> 'e world \<Rightarrow> ((int \<times> u8 option) \<times> 'e world) res" where
  "mctp_message_tx_request eid msg msg_len w =
     (case find_bus_for_eid w eid of
        None \<Rightarrow> rbind (w_msg_free (Some msg) True w) (\<lambda>w. Inr ((0, None), w))
      | Some bi \<Rightarrow>
          rbind (mctp_alloc_tag (bus_eid (bus_at w bi)) eid w) (\<lambda>((rc, tag), w).
            if rc \<noteq> 0 then rbind (w_msg_free (Some msg) True w) (\<lambda>w. Inr ((rc, None), w))
            else rbind (deref tag) (\<lambda>alloc_tag.
              rbind (mctp_message_tx_alloced eid True alloc_tag msg msg_len w) (\<lambda>(rc, w).
                Inr ((rc, Some alloc_tag), w)))))"

definition mctp_is_tx_ready :: "'e world \<Rightarrow> mctp_eid_t \<Rightarrow> bool" where
  "mctp_is_tx_ready w eid =
     (case find_bus_for_eid w eid of None \<Rightarrow> True | Some bi \<Rightarrow> tx_msg (bus_at w bi) = None)"

section \<open>Vocabulary of the proofs\<close>

definition binding_ok :: "'e mctp_binding \<Rightarrow> bool" where
  "binding_ok bnd \<longleftrightarrow> b_mctp bnd \<and> 68 \<le> unat (b_pkt_size bnd) \<and>
     unat (b_pkt_size bnd) + unat (b_pkt_header bnd) + unat (b_pkt_trailer bnd) < 2 ^ 64 \<and>
     (\<exists>st. b_tx_storage bnd = Some st \<and> length (pk_data st) = unat (pktbuf_storage_size bnd))"

definition tx_pending_ok :: "mctp_bus \<Rightarrow> bool" where
  "tx_pending_ok bus \<longleftrightarrow> tx_seq bus AND 3 = tx_seq bus \<and>
     (\<forall>mb. tx_msg bus = Some mb \<longrightarrow> tx_tag bus AND 7 = tx_tag bus \<and>
        tx_msgpos bus \<le> tx_msglen bus \<and> unat (tx_msglen bus) \<le> length (mb_data mb))"

definition frag_hdr :: "'e mctp_binding \<Rightarrow> mctp_bus \<Rightarrow> bool \<Rightarrow> bool \<Rightarrow> mctp_hdr" where
  [wire_defs]: "frag_hdr bnd bus som eom =
     \<lparr>hdr_ver = b_version bnd AND 0xf, hdr_dest = tx_dest bus, hdr_src = tx_src bus,
      flags_seq_tag = encode_fst (tx_to bus) (tx_tag bus) (tx_seq bus) som eom\<rparr>"

definition frag_len :: "'e mctp_binding \<Rightarrow> mctp_bus \<Rightarrow> nat" where
  "frag_len bnd bus = min (unat (b_pkt_size bnd) - 4) (unat (tx_msglen bus) - unat (tx_msgpos bus))"

definition tx_upd ::
    "nat \<Rightarrow> nat \<Rightarrow> msgbuf option \<Rightarrow> u64 \<Rightarrow> u64 \<Rightarrow> u8 \<Rightarrow> mctp_pktbuf \<Rightarrow> 'e \<Rightarrow> heap \<Rightarrow> event list \<Rightarrow>
     'e world \<Rightarrow> 'e world" where
  "tx_upd bi b m pos pl sq st e h evs w =
     w\<lparr>busses := (busses w)[bi := (bus_at w bi)\<lparr>tx_msg := m, tx_msgpos := pos, tx_pktlen := pl, tx_seq := sq\<rparr>],
       bindings := (bindings w)(b := (bindings w b)\<lparr>b_tx_storage := Some st, b_priv := e\<rparr>),
       heap := h, trace := trace w @ evs\<rparr>"

text \<open>The part of the state a run of the transmit loop starts from.\<close>

definition tx_ready :: "('e \<Rightarrow> mctp_pktbuf \<Rightarrow> (int \<times> 'e) res) \<Rightarrow> ('e \<Rightarrow> bool) \<Rightarrow> nat \<Rightarrow> nat \<Rightarrow> nat \<Rightarrow> 'e world \<Rightarrow> bool" where
  "tx_ready tx P mtu bi b w \<longleftrightarrow> bi < length (busses w) \<and> bus_binding (bus_at w bi) = Some b \<and>
     binding_ok (bindings w b) \<and> tx_pending_ok (bus_at w bi) \<and> b_tx (bindings w b) = Some tx \<and>
     P (b_priv (bindings w b)) \<and> mtu = unat (b_pkt_size (bindings w b)) \<and>
     good_ops (ops w) \<and> heap_ok (heap w) \<and>
     (\<forall>mb. tx_msg (bus_at w bi) = Some mb \<longrightarrow> mb_blk mb \<in> h_live (heap w))"

text \<open>Events of the transmit path: calls of the binding and of the capture handler only.\<close>

definition tx_events :: "nat \<Rightarrow> event list \<Rightarrow> bool" where
  "tx_events b evs \<longleftrightarrow> (\<forall>ev\<in>set evs. (\<exists>pkt rc. ev = Ev_tx b pkt rc) \<or> (\<exists>f pkt u. ev = Ev_capture f pkt True u))"

section \<open>One packet\<close>

lemma binding_ok_storage:
  assumes "binding_ok bnd"
  shows "unat (pktbuf_storage_size bnd) =
     unat (b_pkt_size bnd) + unat (b_pkt_header bnd) + unat (b_pkt_trailer bnd)"
proof -
  have "unat (b_pkt_size bnd + b_pkt_header bnd) = unat (b_pkt_size bnd) + unat (b_pkt_header bnd)"
    using assms by (intro unat_add_no_wrap) (simp add: binding_ok_def)
  then show ?thesis
    using assms unfolding pktbuf_storage_size_def
    by (subst unat_add_no_wrap) (simp_all add: binding_ok_def)
qed

lemma frag_len_word:
  assumes "binding_ok bnd" and "tx_msgpos bus \<le> tx_msglen bus"
  shows "(if tx_msglen bus - tx_msgpos bus > b_pkt_size bnd - 4 then b_pkt_size bnd - 4
          else tx_msglen bus - tx_msgpos bus) = of_nat (frag_len bnd bus)" (is "?l = _")
    and "unat (of_nat (frag_len bnd bus) :: u64) = frag_len bnd bus"
proof -
  have "(4 :: u64) \<le> b_pkt_size bnd" using assms(1) by (simp add: binding_ok_def word_le_nat_alt)
  then have u: "unat (b_pkt_size bnd - 4) = unat (b_pkt_size bnd) - 4"
    "unat (tx_msglen bus - tx_msgpos bus) = unat (tx_msglen bus) - unat (tx_msgpos bus)"
    using assms(2) by (simp_all add: unat_diff_le)
  have "unat ?l = frag_len bnd bus"
    by (auto simp: frag_len_def word_less_nat_alt u min_def)
  moreover have "frag_len bnd bus < 2 ^ 64"
    using unat_u64_less [of "b_pkt_size bnd"] by (auto simp: frag_len_def)
  then show v: "unat (of_nat (frag_len bnd bus) :: u64) = frag_len bnd bus"
    by (simp add: unat_of_nat)
  ultimately show "?l = of_nat (frag_len bnd bus)" by (simp only: word_unat_eq_iff)
qed

lemma frag_eom_word:
  assumes "binding_ok bnd" and "tx_msgpos bus \<le> tx_msglen bus"
  shows "unat (tx_msgpos bus + of_nat (frag_len bnd bus)) = unat (tx_msgpos bus) + frag_len bnd bus"
    and "tx_msgpos bus + of_nat (frag_len bnd bus) \<ge> tx_msglen bus \<longleftrightarrow>
         unat (tx_msgpos bus) + frag_len bnd bus = unat (tx_msglen bus)"
proof -
  have le: "unat (tx_msgpos bus) + frag_len bnd bus \<le> unat (tx_msglen bus)"
    using assms(2) by (auto simp: frag_len_def word_le_nat_alt)
  then show u: "unat (tx_msgpos bus + of_nat (frag_len bnd bus)) = unat (tx_msgpos bus) + frag_len bnd bus"
    using size_room(1) [of "tx_msgpos bus" "of_nat (frag_len bnd bus)" "tx_msglen bus"]
      frag_len_word(2) [OF assms] by simp
  then show "tx_msgpos bus + of_nat (frag_len bnd bus) \<ge> tx_msglen bus \<longleftrightarrow>
         unat (tx_msgpos bus) + frag_len bnd bus = unat (tx_msglen bus)"
    using le by (auto simp: word_le_nat_alt)
qed

lemma mctp_next_tx_pkt_ok:
  assumes bus: "bus_at w bi = bus" and b: "bus_binding bus = Some b" and ok: "binding_ok (bindings w b)" "tx_pending_ok bus"
    and msg: "tx_msg bus = Some mb"
  obtains pkt where
    "mctp_next_tx_pkt bi w =
       Inr (Some pkt, set_bus bi (bus\<lparr>tx_pktlen := of_nat (frag_len (bindings w b) bus)\<rparr>)
                        (set_binding b ((bindings w b)\<lparr>b_tx_storage := Some pkt\<rparr>) w))"
    and "rx_pkt pkt"
    and "pktbuf_bytes pkt = hdr_bytes (frag_hdr (bindings w b) bus (tx_msgpos bus = 0)
            (unat (tx_msgpos bus) + frag_len (bindings w b) bus = unat (tx_msglen bus))) @
          take (frag_len (bindings w b) bus) (drop (unat (tx_msgpos bus)) (mb_data mb))"
    and "length (pk_data pkt) = unat (pktbuf_storage_size (bindings w b))"
proof -
  let ?bnd = "bindings w b"
  let ?n = "frag_len ?bnd bus"
  let ?h = "unat (b_pkt_header ?bnd)"
  let ?hdr = "frag_hdr ?bnd bus (tx_msgpos bus = 0) (unat (tx_msgpos bus) + ?n = unat (tx_msglen bus))"
  let ?body = "take ?n (drop (unat (tx_msgpos bus)) (mb_data mb))"
  obtain st where st: "b_tx_storage ?bnd = Some st" "length (pk_data st) = unat (pktbuf_storage_size ?bnd)"
    using ok(1) by (auto simp: binding_ok_def)
  note sz = binding_ok_storage [OF ok(1)]
  have pos: "tx_msgpos bus \<le> tx_msglen bus" and dl: "unat (tx_msglen bus) \<le> length (mb_data mb)"
    using ok(2) msg by (auto simp: tx_pending_ok_def)
  note n = frag_len_word [OF ok(1) pos] and eom = frag_eom_word [OF ok(1) pos]
  have le: "unat (tx_msgpos bus) + ?n \<le> unat (tx_msglen bus)" "?n \<le> unat (b_pkt_size ?bnd) - 4"
    using pos by (auto simp: frag_len_def word_le_nat_alt)
  have p4: "68 \<le> unat (b_pkt_size ?bnd)" using ok(1) by (simp add: binding_ok_def)
  have h4: "unat (b_pkt_header ?bnd + 4) = ?h + 4"
    using size_room(1) [of "b_pkt_header ?bnd" 4 "pktbuf_storage_size ?bnd"] sz p4 by simp
  have h4n: "unat (b_pkt_header ?bnd + 4 + of_nat ?n) = ?h + 4 + ?n"
    using size_room(1) [of "b_pkt_header ?bnd + 4" "of_nat ?n" "pktbuf_storage_size ?bnd"]
      sz p4 h4 n(2) le(2) by simp
  have body: "length ?body = ?n" using le dl by simp
  let ?d = "take ?h (pk_data st) @ hdr_bytes ?hdr @ ?body @ drop (?h + 4 + ?n) (pk_data st)"
  let ?pkt = "(mctp_pktbuf_init ?bnd st)\<lparr>pk_data := ?d, pk_end := b_pkt_header ?bnd + 4 + of_nat ?n\<rparr>"
  have nxt: "mctp_next_tx_pkt bi w =
       Inr (Some ?pkt, set_bus bi (bus\<lparr>tx_pktlen := of_nat ?n\<rparr>)
                        (set_binding b (?bnd\<lparr>b_tx_storage := Some ?pkt\<rparr>) w))"
  proof -
    have w1: "mem_write (pk_data st) ?h (hdr_bytes ?hdr) =
        Inr (take ?h (pk_data st) @ hdr_bytes ?hdr @ drop (?h + 4) (pk_data st))"
      using st(2) sz p4 by (simp add: mem_write_def)
    have r: "mem_read (mb_data mb) (unat (tx_msgpos bus)) ?n = Inr ?body"
      using le dl by (simp add: mem_read_def)
    have w2: "mem_write (take ?h (pk_data st) @ hdr_bytes ?hdr @ drop (?h + 4) (pk_data st)) (?h + 4) ?body = Inr ?d"
      using st(2) sz p4 le body by (simp add: mem_write_def add.commute)
    show ?thesis
      unfolding mctp_next_tx_pkt_def bus Let_def msg option.case b deref_simps rbind_Inr
        MCTP_BODY_SIZE_def SIZEOF_MCTP_HDR_def n(1) eom(2)
      using st(1) w1 r w2 n(2)
      by (simp add: mctp_pktbuf_init_def mctp_pktbuf_hdr_def mctp_pktbuf_data_def h4 frag_hdr_def)
  qed
  have len: "length ?d = unat (pktbuf_storage_size ?bnd)"
    using body le p4 sz st(2) by simp
  have "?h + 4 + ?n \<le> unat (pktbuf_storage_size ?bnd)" using le(2) p4 sz by linarith
  then have wf: "pktbuf_wf ?pkt"
    using len by (simp add: pktbuf_wf_def mctp_pktbuf_init_def word_le_nat_alt h4n
        del: length_append length_take length_drop)
  have bytes: "pktbuf_bytes ?pkt = hdr_bytes ?hdr @ ?body"
    using len body le p4 sz st(2)
    by (simp add: pktbuf_bytes_def mctp_pktbuf_init_def h4n)
  have "rx_pkt ?pkt"
    using wf bytes by (simp add: rx_pkt_def mctp_pktbuf_init_def)
  then show ?thesis using that [OF nxt] bytes len by simp
qed

lemma tx_upd_sel [simp]:
  "n_busses (tx_upd bi b m pos pl sq st e h evs w) = n_busses w"
  "message_rx (tx_upd bi b m pos pl sq st e h evs w) = message_rx w"
  "message_rx_data (tx_upd bi b m pos pl sq st e h evs w) = message_rx_data w"
  "capture (tx_upd bi b m pos pl sq st e h evs w) = capture w"
  "capture_data (tx_upd bi b m pos pl sq st e h evs w) = capture_data w"
  "msg_ctxs (tx_upd bi b m pos pl sq st e h evs w) = msg_ctxs w"
  "req_tags (tx_upd bi b m pos pl sq st e h evs w) = req_tags w"
  "tag_round_robin (tx_upd bi b m pos pl sq st e h evs w) = tag_round_robin w"
  "route_policy (tx_upd bi b m pos pl sq st e h evs w) = route_policy w"
  "control (tx_upd bi b m pos pl sq st e h evs w) = control w"
  "max_message_size (tx_upd bi b m pos pl sq st e h evs w) = max_message_size w"
  "alloc_ctx (tx_upd bi b m pos pl sq st e h evs w) = alloc_ctx w"
  "platform_now (tx_upd bi b m pos pl sq st e h evs w) = platform_now w"
  "platform_now_ctx (tx_upd bi b m pos pl sq st e h evs w) = platform_now_ctx w"
  "ops (tx_upd bi b m pos pl sq st e h evs w) = ops w"
  "clock (tx_upd bi b m pos pl sq st e h evs w) = clock w"
  "heap (tx_upd bi b m pos pl sq st e h evs w) = h"
  "trace (tx_upd bi b m pos pl sq st e h evs w) = trace w @ evs"
  "length (busses (tx_upd bi b m pos pl sq st e h evs w)) = length (busses w)"
  "bindings (tx_upd bi b m pos pl sq st e h evs w) =
     (bindings w)(b := (bindings w b)\<lparr>b_tx_storage := Some st, b_priv := e\<rparr>)"
  by (simp_all add: tx_upd_def)

lemma bus_at_tx_upd [simp]:
  "bi < length (busses w) \<Longrightarrow> bus_at (tx_upd bi b m pos pl sq st e h evs w) i =
     (if i = bi then (bus_at w bi)\<lparr>tx_msg := m, tx_msgpos := pos, tx_pktlen := pl, tx_seq := sq\<rparr>
      else bus_at w i)"
  by (simp add: tx_upd_def bus_at_def)

lemma capture_events_tx_upd [simp]:
  "capture_events pkt out (tx_upd bi b m pos pl sq st e h evs w) = capture_events pkt out w"
  by (simp add: capture_events_def split: option.split)

lemma tx_upd_tx_upd [simp]:
  "bi < length (busses w) \<Longrightarrow>
   tx_upd bi b m' pos' pl' sq' st' e' h' evs' (tx_upd bi b m pos pl sq st e h evs w) =
   tx_upd bi b m' pos' pl' sq' st' e' h' (evs @ evs') w"
  by (simp add: tx_upd_def bus_at_def)

lemma binding_ok_upd:
  assumes "binding_ok bnd" and "length (pk_data st) = unat (pktbuf_storage_size bnd)"
  shows "binding_ok (bnd\<lparr>b_tx_storage := Some st, b_priv := e\<rparr>)"
  using assms by (simp add: binding_ok_def pktbuf_storage_size_def)

locale safe_tx =
  fixes tx :: "'e \<Rightarrow> mctp_pktbuf \<Rightarrow> (int \<times> 'e) res" and P :: "'e \<Rightarrow> bool" and mtu :: nat
  assumes tx_safe: "P e \<Longrightarrow> rx_pkt pkt \<Longrightarrow> length (pktbuf_bytes pkt) \<le> mtu \<Longrightarrow>
      \<exists>rc e'. tx e pkt = Inr (rc, e') \<and> P e'"
begin

lemma one_packet:
  assumes r: "tx_ready tx P mtu bi b w" and bus: "bus_at w bi = bus" and msg: "tx_msg bus = Some mb"
    and en: "bus_state bus = mctp_bus_state_tx_enabled"
  obtains pkt w1 rc e' where "mctp_next_tx_pkt bi w = Inr (Some pkt, w1)"
    and "mctp_packet_tx bi pkt w1 = Inr (rc, tx_upd bi b (Some mb) (tx_msgpos bus)
           (of_nat (frag_len (bindings w b) bus)) (tx_seq bus) pkt e' (heap w)
           (capture_events pkt True w @ [Ev_tx b pkt rc]) w)"
    and "tx (b_priv (bindings w b)) pkt = Inr (rc, e')" and "P e'" and "rx_pkt pkt"
    and "pktbuf_bytes pkt = hdr_bytes (frag_hdr (bindings w b) bus (tx_msgpos bus = 0)
            (unat (tx_msgpos bus) + frag_len (bindings w b) bus = unat (tx_msglen bus))) @
          take (frag_len (bindings w b) bus) (drop (unat (tx_msgpos bus)) (mb_data mb))"
    and "length (pk_data pkt) = unat (pktbuf_storage_size (bindings w b))"
proof -
  from r have bi: "bi < length (busses w)" and b: "bus_binding bus = Some b"
    and ok: "binding_ok (bindings w b)" "tx_pending_ok bus" and tx: "b_tx (bindings w b) = Some tx"
    and P: "P (b_priv (bindings w b))" and mtu: "mtu = unat (b_pkt_size (bindings w b))"
    using bus by (auto simp: tx_ready_def)
  from mctp_next_tx_pkt_ok [OF bus b ok msg] obtain pkt where
    nxt: "mctp_next_tx_pkt bi w =
       Inr (Some pkt, set_bus bi (bus\<lparr>tx_pktlen := of_nat (frag_len (bindings w b) bus)\<rparr>)
                        (set_binding b ((bindings w b)\<lparr>b_tx_storage := Some pkt\<rparr>) w))"
    and pkt: "rx_pkt pkt" and bytes: "pktbuf_bytes pkt = hdr_bytes (frag_hdr (bindings w b) bus (tx_msgpos bus = 0)
            (unat (tx_msgpos bus) + frag_len (bindings w b) bus = unat (tx_msglen bus))) @
          take (frag_len (bindings w b) bus) (drop (unat (tx_msgpos bus)) (mb_data mb))"
    and len: "length (pk_data pkt) = unat (pktbuf_storage_size (bindings w b))" by blast
  have "length (pktbuf_bytes pkt) \<le> mtu"
  proof -
    have "frag_len (bindings w b) bus \<le> mtu - 4" "4 \<le> mtu"
      using ok(1) mtu by (auto simp: frag_len_def binding_ok_def)
    then show ?thesis using bytes by simp
  qed
  then obtain rc e' where t: "tx (b_priv (bindings w b)) pkt = Inr (rc, e')" and e: "P e'"
    using tx_safe [OF P pkt] by blast
  have "mctp_packet_tx bi pkt (set_bus bi (bus\<lparr>tx_pktlen := of_nat (frag_len (bindings w b) bus)\<rparr>)
                        (set_binding b ((bindings w b)\<lparr>b_tx_storage := Some pkt\<rparr>) w)) =
     Inr (rc, tx_upd bi b (Some mb) (tx_msgpos bus)
           (of_nat (frag_len (bindings w b) bus)) (tx_seq bus) pkt e' (heap w)
           (capture_events pkt True w @ [Ev_tx b pkt rc]) w)"
    using bi b en msg tx t ok(1) bus
    by (cases bus, cases w) (simp add: mctp_packet_tx_def tx_upd_def set_bus_def set_binding_def emit_def bus_at_def
        capture_events_def binding_ok_def Let_def split: option.split)
  then show ?thesis using that nxt t e pkt bytes len by blast
qed

end

text \<open>Moving on after a packet.\<close>

lemma complete_more:
  assumes bi: "bi < length (busses w)" and "tx_msgpos bus \<le> tx_msglen bus" and "binding_ok (bindings w b)"
    and more: "unat (tx_msgpos bus) + frag_len (bindings w b) bus \<noteq> unat (tx_msglen bus)"
    and bus: "bus_at w bi = bus" "tx_msg bus = Some mb"
  shows "mctp_tx_complete bi (tx_upd bi b (Some mb) (tx_msgpos bus)
           (of_nat (frag_len (bindings w b) bus)) (tx_seq bus) pkt e (heap w) evs w) =
         Inr (tx_upd bi b (Some mb) (tx_msgpos bus + of_nat (frag_len (bindings w b) bus))
           (of_nat (frag_len (bindings w b) bus)) ((tx_seq bus + 1) AND 3) pkt e (heap w) evs w)"
  using frag_eom_word(2) [OF assms(3,2)] more bi bus
  by (cases bus, cases w) (simp add: mctp_tx_complete_def Let_def, simp add: tx_upd_def set_bus_def bus_at_def)

lemma complete_done:
  assumes r: "tx_ready tx P mtu bi b w"
    and full: "unat (tx_msgpos bus) + frag_len (bindings w b) bus = unat (tx_msglen bus)"
    and bus: "bus_at w bi = bus" "tx_msg bus = Some mb"
  obtains h where "mctp_tx_complete bi (tx_upd bi b (Some mb) (tx_msgpos bus)
           (of_nat (frag_len (bindings w b) bus)) (tx_seq bus) pkt e (heap w) evs w) =
         Inr (tx_upd bi b None (tx_msgpos bus + of_nat (frag_len (bindings w b) bus))
           (of_nat (frag_len (bindings w b) bus)) ((tx_seq bus + 1) AND 3) pkt e h evs w)"
    and "heap_ok h" and "h_live h = h_live (heap w) - {mb_blk mb}"
proof -
  let ?w = "tx_upd bi b (Some mb) (tx_msgpos bus)
           (of_nat (frag_len (bindings w b) bus)) (tx_seq bus) pkt e (heap w) evs w"
  from r have bi: "bi < length (busses w)" and b: "bus_binding bus = Some b"
    and ok: "binding_ok (bindings w b)" "tx_pending_ok bus" "good_ops (ops ?w)" "heap_ok (heap ?w)"
    and live: "mb_blk mb \<in> h_live (heap ?w)"
    using bus by (auto simp: tx_ready_def)
  have pos: "tx_msgpos bus \<le> tx_msglen bus" using ok(2) bus by (simp add: tx_pending_ok_def)
  from w_msg_free_live [OF ok(3,4) live] obtain h where
    f: "w_msg_free (Some mb) True ?w = Inr (?w\<lparr>heap := h\<rparr>)" and h: "heap_ok h"
       "h_live h = h_live (heap w) - {mb_blk mb}" by auto
  have m: "b_mctp (bindings w b)" using ok(1) by (simp add: binding_ok_def)
  have "mctp_tx_complete bi ?w =
         Inr (tx_upd bi b None (tx_msgpos bus + of_nat (frag_len (bindings w b) bus))
           (of_nat (frag_len (bindings w b) bus)) ((tx_seq bus + 1) AND 3) pkt e h evs w)"
    using frag_eom_word(2) [OF ok(1) pos] full bi bus b f m
    by (cases bus, cases w) (simp add: mctp_tx_complete_def Let_def, simp add: tx_upd_def set_bus_def bus_at_def)
  then show ?thesis using that h by blast
qed

lemma tx_upd_id:
  assumes "bus_at w bi = bus" and "b_tx_storage (bindings w b) = Some st" and "bi < length (busses w)"
  shows "tx_upd bi b (tx_msg bus) (tx_msgpos bus) (tx_pktlen bus) (tx_seq bus) st
           (b_priv (bindings w b)) (heap w) [] w = w"
proof -
  have "(bindings w)(b := (bindings w b)\<lparr>b_tx_storage := Some st, b_priv := b_priv (bindings w b)\<rparr>) = bindings w"
    using assms(2) by (cases "bindings w b") (simp add: fun_upd_idem_iff)
  moreover have "(busses w)[bi := bus] = busses w"
    using assms(1) by (auto simp: bus_at_def)
  ultimately show ?thesis
    by (simp add: tx_upd_def assms(1))
qed

lemma tx_ready_next:
  assumes r: "tx_ready tx P mtu bi b w" and bus: "bus_at w bi = bus" "tx_msg bus = Some mb"
    and pkt: "length (pk_data pkt) = unat (pktbuf_storage_size (bindings w b))" and e: "P e"
    and pos: "tx_msgpos bus \<le> pos" "pos \<le> tx_msglen bus" and sq: "sq AND 3 = sq" and
    h: "heap_ok h" "m = Some mb \<Longrightarrow> h = heap w" "m = Some mb \<or> m = None"
  shows "tx_ready tx P mtu bi b (tx_upd bi b m pos pl sq pkt e h evs w)"
proof -
  have "binding_ok ((bindings w b)\<lparr>b_tx_storage := Some pkt, b_priv := e\<rparr>)"
    using r pkt by (intro binding_ok_upd) (auto simp: tx_ready_def)
  then show ?thesis
    using assms by (auto simp: tx_ready_def tx_pending_ok_def)
qed

text \<open>Both outcomes of completing a packet together.\<close>

lemma complete_packet:
  assumes r: "tx_ready tx P mtu bi b w" and bus: "bus_at w bi = bus" "tx_msg bus = Some mb"
    and pkt: "length (pk_data pkt) = unat (pktbuf_storage_size (bindings w b))" and e: "P e"
  obtains m h where "mctp_tx_complete bi (tx_upd bi b (Some mb) (tx_msgpos bus)
           (of_nat (frag_len (bindings w b) bus)) (tx_seq bus) pkt e (heap w) evs w) =
         Inr (tx_upd bi b m (tx_msgpos bus + of_nat (frag_len (bindings w b) bus))
           (of_nat (frag_len (bindings w b) bus)) ((tx_seq bus + 1) AND 3) pkt e h evs w)"
    and "tx_ready tx P mtu bi b (tx_upd bi b m (tx_msgpos bus + of_nat (frag_len (bindings w b) bus))
           (of_nat (frag_len (bindings w b) bus)) ((tx_seq bus + 1) AND 3) pkt e h evs w)"
    and "unat (tx_msgpos bus) + frag_len (bindings w b) bus \<noteq> unat (tx_msglen bus) \<and>
           m = Some mb \<and> h = heap w \<or>
         unat (tx_msgpos bus) + frag_len (bindings w b) bus = unat (tx_msglen bus) \<and>
           m = None \<and> h_live h = h_live (heap w) - {mb_blk mb}"
proof -
  let ?n = "frag_len (bindings w b) bus"
  have bi: "bi < length (busses w)" and ok: "binding_ok (bindings w b)"
    and pos: "tx_msgpos bus \<le> tx_msglen bus" and hp: "heap_ok (heap w)"
    using r bus by (auto simp: tx_ready_def tx_pending_ok_def)
  have "tx_msgpos bus \<le> tx_msgpos bus + of_nat ?n" "tx_msgpos bus + of_nat ?n \<le> tx_msglen bus"
    using frag_eom_word(1) [OF ok pos] pos by (auto simp: word_le_nat_alt frag_len_def)
  note nxt = tx_ready_next [OF r bus pkt e this, where sq = "(tx_seq bus + 1) AND 3"]
  show ?thesis
  proof (cases "unat (tx_msgpos bus) + ?n = unat (tx_msglen bus)")
    case True
    from complete_done [OF r True bus] obtain h where
      "mctp_tx_complete bi (tx_upd bi b (Some mb) (tx_msgpos bus) (of_nat ?n) (tx_seq bus) pkt e (heap w) evs w) =
         Inr (tx_upd bi b None (tx_msgpos bus + of_nat ?n) (of_nat ?n) ((tx_seq bus + 1) AND 3) pkt e h evs w)"
      "heap_ok h" "h_live h = h_live (heap w) - {mb_blk mb}" by metis
    then show ?thesis using that True nxt [where m = None and h = h] by (simp add: and.assoc)
  next
    case False
    show ?thesis
      using that [OF complete_more [OF bi pos ok False bus]] False hp
        nxt [where m = "Some mb" and h = "heap w"] by (simp add: and.assoc)
  qed
qed

lemma tx_events_packet: "tx_events b (capture_events pkt True w @ [Ev_tx b pkt rc])"
  by (auto simp: tx_events_def capture_events_def split: option.splits)

lemma tx_events_append: "tx_events b xs \<Longrightarrow> tx_events b ys \<Longrightarrow> tx_events b (xs @ ys)"
  by (auto simp: tx_events_def)

context safe_tx
begin

lemma loop_safe:
  assumes "tx_ready tx P mtu bi b w"
    and "unat (tx_msglen (bus_at w bi)) - unat (tx_msgpos (bus_at w bi)) < fuel"
  shows "\<exists>m pos pl sq st e h evs.
     send_tx_queue fuel bi w = Inr (tx_upd bi b m pos pl sq st e h evs w) \<and>
     tx_ready tx P mtu bi b (tx_upd bi b m pos pl sq st e h evs w) \<and> tx_events b evs \<and>
     (m = tx_msg (bus_at w bi) \<and> h_live h = h_live (heap w) \<or>
      (\<exists>mb. tx_msg (bus_at w bi) = Some mb \<and> m = None \<and> h_live h = h_live (heap w) - {mb_blk mb}))"
  using assms
proof (induction fuel arbitrary: w)
  case 0
  then show ?case by simp
next
  case (Suc fuel)
  let ?bus = "bus_at w bi" let ?n = "frag_len (bindings w b) ?bus"
  from Suc.prems(1) have bi: "bi < length (busses w)" and ok: "binding_ok (bindings w b)" "tx_pending_ok ?bus"
    by (auto simp: tx_ready_def)
  show ?case
  proof (cases "tx_msg ?bus = None \<or> bus_state ?bus \<noteq> mctp_bus_state_tx_enabled")
    case True
    obtain st where st: "b_tx_storage (bindings w b) = Some st" using ok(1) by (auto simp: binding_ok_def)
    have "send_tx_queue (Suc fuel) bi w = Inr w" using True by (simp add: send_tx_queue.simps)
    moreover have "w = tx_upd bi b (tx_msg ?bus) (tx_msgpos ?bus) (tx_pktlen ?bus) (tx_seq ?bus) st
           (b_priv (bindings w b)) (heap w) [] w" using tx_upd_id [OF refl st bi] by simp
    ultimately show ?thesis using Suc.prems(1)
      by (metis (no_types, lifting) empty_iff empty_set tx_events_def tx_upd_sel(17))
  next
    case False
    then obtain mb where msg: "tx_msg ?bus = Some mb" and en: "bus_state ?bus = mctp_bus_state_tx_enabled" by auto
    have pos: "tx_msgpos ?bus \<le> tx_msglen ?bus" using ok(2) msg by (simp add: tx_pending_ok_def)
    obtain pkt w1 rc e' where nxt: "mctp_next_tx_pkt bi w = Inr (Some pkt, w1)"
      and snd: "mctp_packet_tx bi pkt w1 = Inr (rc, tx_upd bi b (Some mb) (tx_msgpos ?bus)
           (of_nat ?n) (tx_seq ?bus) pkt e' (heap w)
           (capture_events pkt True w @ [Ev_tx b pkt rc]) w)"
      and e: "P e'" and len: "length (pk_data pkt) = unat (pktbuf_storage_size (bindings w b))"
      using one_packet [OF Suc.prems(1) refl msg en] by metis
    let ?evs = "capture_events pkt True w @ [Ev_tx b pkt rc]"
    obtain m h where cmp: "mctp_tx_complete bi (tx_upd bi b (Some mb) (tx_msgpos ?bus)
           (of_nat ?n) (tx_seq ?bus) pkt e' (heap w) ?evs w) =
         Inr (tx_upd bi b m (tx_msgpos ?bus + of_nat ?n) (of_nat ?n) ((tx_seq ?bus + 1) AND 3) pkt e' h ?evs w)"
      and r2: "tx_ready tx P mtu bi b (tx_upd bi b m (tx_msgpos ?bus + of_nat ?n) (of_nat ?n) ((tx_seq ?bus + 1) AND 3) pkt e' h ?evs w)"
      and mh: "unat (tx_msgpos ?bus) + ?n \<noteq> unat (tx_msglen ?bus) \<and> m = Some mb \<and> h = heap w \<or>
         unat (tx_msgpos ?bus) + ?n = unat (tx_msglen ?bus) \<and> m = None \<and> h_live h = h_live (heap w) - {mb_blk mb}"
      using complete_packet [OF Suc.prems(1) refl msg len e] by metis
    note np = frag_eom_word [OF ok(1) pos]
    let ?w2 = "tx_upd bi b m (tx_msgpos ?bus + of_nat ?n) (of_nat ?n) ((tx_seq ?bus + 1) AND 3) pkt e' h ?evs w"
    have ev: "tx_events b ?evs" by (rule tx_events_packet)
    consider "rc = 0" | "rc = - EBUSY" | "rc \<noteq> 0" "rc \<noteq> - EBUSY" by blast
    then show ?thesis
    proof cases
      case 1
      have "send_tx_queue (Suc fuel) bi w = send_tx_queue fuel bi ?w2"
        using msg en nxt snd cmp 1 by (simp add: send_tx_queue.simps [of "Suc fuel"])
      moreover have "\<exists>m' pos pl sq st e h' evs. send_tx_queue fuel bi ?w2 = Inr (tx_upd bi b m' pos pl sq st e h' evs w) \<and>
         tx_ready tx P mtu bi b (tx_upd bi b m' pos pl sq st e h' evs w) \<and> tx_events b evs \<and>
         (m' = Some mb \<and> h_live h' = h_live (heap w) \<or> m' = None \<and> h_live h' = h_live (heap w) - {mb_blk mb})"
      proof (cases m)
        case None
        then have "send_tx_queue fuel bi ?w2 = Inr ?w2" using bi by (simp add: send_tx_queue.simps)
        then show ?thesis using r2 ev mh None by blast
      next
        case (Some mb')
        have n0: "0 < ?n" and more: "unat (tx_msgpos ?bus) + ?n < unat (tx_msglen ?bus)"
          using mh Some pos ok(1) by (auto simp: frag_len_def binding_ok_def word_le_nat_alt)
        have "unat (tx_msglen (bus_at ?w2 bi)) - unat (tx_msgpos (bus_at ?w2 bi)) < fuel"
          using Suc.prems(2) n0 more np(1) bi by simp
        from Suc.IH [OF r2 this] show ?thesis
          using mh Some bi tx_events_append [OF ev] by (auto simp del: append_assoc) blast+
      qed
      ultimately show ?thesis using msg by auto
    next
      case 2
      then have "send_tx_queue (Suc fuel) bi w = Inr (tx_upd bi b (Some mb) (tx_msgpos ?bus)
           (of_nat ?n) (tx_seq ?bus) pkt e' (heap w) ?evs w)"
        using msg en nxt snd by (simp add: send_tx_queue.simps [of "Suc fuel"])
      moreover have "tx_ready tx P mtu bi b (tx_upd bi b (Some mb) (tx_msgpos ?bus)
           (of_nat ?n) (tx_seq ?bus) pkt e' (heap w) ?evs w)"
        using Suc.prems(1) msg len e pos ok(2)
        by (intro tx_ready_next [OF _ refl]) (auto simp: tx_ready_def tx_pending_ok_def)
      ultimately show ?thesis using ev msg by metis
    next
      case 3
      then have "send_tx_queue (Suc fuel) bi w = Inr ?w2"
        using msg en nxt snd cmp by (simp add: send_tx_queue.simps [of "Suc fuel"])
      then show ?thesis using r2 ev mh msg by metis
    qed
  qed
qed

end

section \<open>Fuel\<close>

text \<open>Once the loop has ended, more fuel changes nothing.\<close>

lemma more_fuel:
  "send_tx_queue n bi w = Inr w' \<Longrightarrow> n \<le> m \<Longrightarrow> send_tx_queue m bi w = Inr w'"
proof (induction n arbitrary: m w)
  case 0
  then show ?case by (auto simp: send_tx_queue.simps [of 0] send_tx_queue.simps [of m] split: if_splits)
next
  case (Suc n)
  then obtain k where m: "m = Suc k" "n \<le> k" by (cases m) auto
  from Suc.prems(1) show ?case
    unfolding m(1) using Suc.IH [OF _ m(2)]
    by (subst (asm) send_tx_queue.simps, subst send_tx_queue.simps) (auto split: if_splits)
qed

end
