(* ===== verification/Mctp_Control.thy ===== *)
theory Mctp_Control
  imports Mctp_Tx
begin

text \<open>
  MCTP control messages: \<^verbatim>\<open>src/control.c\<close> with the constants and message layouts of
  \<^verbatim>\<open>include/libmctp-cmds.h\<close>, and \<open>mctp_bus_set_eid\<close> of \<^verbatim>\<open>src/core.c\<close>. A request is the byte list
  of the received buffer, read with bounds checks; a response is built as the bytes of its packed
  structure and handed to \<open>mctp_message_tx_alloced\<close>. The debug messages are left out.
\<close>

section \<open>Constants and layouts\<close>

record mctp_ctrl_msg_hdr =
  ic_msg_type :: u8
  rq_dgram_inst :: u8
  command_code :: u8

definition MCTP_CTRL_HDR_MSG_TYPE :: u8 where [simp]: "MCTP_CTRL_HDR_MSG_TYPE = 0"
definition MCTP_CTRL_HDR_FLAG_REQUEST :: u8 where [simp]: "MCTP_CTRL_HDR_FLAG_REQUEST = 0x80"
definition MCTP_CTRL_HDR_FLAG_DGRAM :: u8 where [simp]: "MCTP_CTRL_HDR_FLAG_DGRAM = 0x40"
definition MCTP_CTRL_HDR_INSTANCE_ID_MASK :: u8 where [simp]: "MCTP_CTRL_HDR_INSTANCE_ID_MASK = 0x1f"

definition MCTP_CTRL_CMD_SET_ENDPOINT_ID :: u8 where [simp]: "MCTP_CTRL_CMD_SET_ENDPOINT_ID = 1"
definition MCTP_CTRL_CMD_GET_ENDPOINT_ID :: u8 where [simp]: "MCTP_CTRL_CMD_GET_ENDPOINT_ID = 2"
definition MCTP_CTRL_CMD_GET_VERSION_SUPPORT :: u8 where [simp]: "MCTP_CTRL_CMD_GET_VERSION_SUPPORT = 4"
definition MCTP_CTRL_CMD_GET_MESSAGE_TYPE_SUPPORT :: u8 where
  [simp]: "MCTP_CTRL_CMD_GET_MESSAGE_TYPE_SUPPORT = 5"
definition MCTP_CTRL_CMD_FIRST_TRANSPORT :: u8 where [simp]: "MCTP_CTRL_CMD_FIRST_TRANSPORT = 0xf0"
definition MCTP_CTRL_CMD_LAST_TRANSPORT :: u8 where [simp]: "MCTP_CTRL_CMD_LAST_TRANSPORT = 0xff"

definition MCTP_CTRL_CC_SUCCESS :: u8 where [simp]: "MCTP_CTRL_CC_SUCCESS = 0"
definition MCTP_CTRL_CC_ERROR :: u8 where [simp]: "MCTP_CTRL_CC_ERROR = 1"
definition MCTP_CTRL_CC_ERROR_INVALID_DATA :: u8 where [simp]: "MCTP_CTRL_CC_ERROR_INVALID_DATA = 2"
definition MCTP_CTRL_CC_ERROR_INVALID_LENGTH :: u8 where [simp]: "MCTP_CTRL_CC_ERROR_INVALID_LENGTH = 3"
definition MCTP_CTRL_CC_ERROR_UNSUPPORTED_CMD :: u8 where [simp]: "MCTP_CTRL_CC_ERROR_UNSUPPORTED_CMD = 5"
definition MCTP_CTRL_VERSIONS_NOT_SUPPORTED :: u8 where [simp]: "MCTP_CTRL_VERSIONS_NOT_SUPPORTED = 0x80"

definition MCTP_CTRL_SET_EID_OP_MASK :: u8 where [simp]: "MCTP_CTRL_SET_EID_OP_MASK = 3"
definition MCTP_CTRL_SET_EID_OP_SET :: u8 where [simp]: "MCTP_CTRL_SET_EID_OP_SET = 0"
definition MCTP_CTRL_SET_EID_OP_FORCE :: u8 where [simp]: "MCTP_CTRL_SET_EID_OP_FORCE = 1"
definition MCTP_CTRL_SET_EID_STATUS_ACCEPTED :: u8 where [simp]: "MCTP_CTRL_SET_EID_STATUS_ACCEPTED = 0"
definition MCTP_CTRL_ENDPOINT_TYPE_SIMPLE :: u8 where [simp]: "MCTP_CTRL_ENDPOINT_TYPE_SIMPLE = 0"
definition MCTP_CTRL_ENDPOINT_ID_TYPE_STATIC :: u8 where [simp]: "MCTP_CTRL_ENDPOINT_ID_TYPE_STATIC = 1"

text \<open>Sizes of the packed structures.\<close>

definition SIZEOF_ctrl_msg_hdr :: u64 where [simp]: "SIZEOF_ctrl_msg_hdr = 3"
definition SIZEOF_set_endpoint_id_req :: u64 where [simp]: "SIZEOF_set_endpoint_id_req = 5"
definition SIZEOF_get_version_req :: u64 where [simp]: "SIZEOF_get_version_req = 4"

definition MCTP_PROTOCOL_COUNT :: u8 where [simp]: "MCTP_PROTOCOL_COUNT = 4"

definition MCTP_PROTOCOL_VERSIONS :: bytes where
  "MCTP_PROTOCOL_VERSIONS =
     [0xf1, 0xf0, 0xff, 0x00,
      0xf1, 0xf1, 0xff, 0x00,
      0xf1, 0xf2, 0xff, 0x00,
      0xf1, 0xf3, 0xf3, 0x00]"

section \<open>Reading requests, building responses\<close>

definition rd8 :: "bytes \<Rightarrow> nat \<Rightarrow> u8 res" where
  "rd8 m off = rbind (mem_read m off 1) (\<lambda>bs. Inr (hd bs))"

definition read_ctrl_hdr :: "bytes \<Rightarrow> mctp_ctrl_msg_hdr res" where
  "read_ctrl_hdr data =
     rbind (rd8 data 0) (\<lambda>t. rbind (rd8 data 1) (\<lambda>i. rbind (rd8 data 2) (\<lambda>c.
       Inr \<lparr>ic_msg_type = t, rq_dgram_inst = i, command_code = c\<rparr>)))"

definition fill_resp :: "mctp_ctrl_msg_hdr \<Rightarrow> mctp_ctrl_msg_hdr" where
  "fill_resp req_hdr =
     \<lparr>ic_msg_type = MCTP_CTRL_HDR_MSG_TYPE,
      rq_dgram_inst = rq_dgram_inst req_hdr AND MCTP_CTRL_HDR_INSTANCE_ID_MASK,
      command_code = command_code req_hdr\<rparr>"

text \<open>
  The responses, and the bytes of each: the structures are packed, so their bytes are the fields in order,
  and a flexible array is the rest of the buffer. The elements of \<open>versions\<close> are written as bytes.
\<close>

record mctp_ctrl_cmd_empty_resp =
  er_hdr :: mctp_ctrl_msg_hdr
  er_completion_code :: u8

record mctp_ctrl_cmd_set_endpoint_id_resp =
  ser_hdr :: mctp_ctrl_msg_hdr
  ser_completion_code :: u8
  ser_status :: u8
  ser_eid :: u8
  ser_pool_size :: u8

record mctp_ctrl_cmd_get_endpoint_id_resp =
  ger_hdr :: mctp_ctrl_msg_hdr
  ger_completion_code :: u8
  ger_endpoint_id :: u8
  ger_endpoint_type :: u8
  ger_medium_specific :: u8

record mctp_ctrl_cmd_get_version_resp =
  gvr_hdr :: mctp_ctrl_msg_hdr
  gvr_completion_code :: u8
  gvr_version_count :: u8
  gvr_versions :: bytes

record mctp_ctrl_cmd_get_types_resp =
  gtr_hdr :: mctp_ctrl_msg_hdr
  gtr_completion_code :: u8
  gtr_type_count :: u8
  gtr_types :: bytes

definition ctrl_hdr_bytes :: "mctp_ctrl_msg_hdr \<Rightarrow> bytes" where
  "ctrl_hdr_bytes h = [ic_msg_type h, rq_dgram_inst h, command_code h]"

definition empty_resp_bytes :: "mctp_ctrl_cmd_empty_resp \<Rightarrow> bytes" where
  [simp]: "empty_resp_bytes r = ctrl_hdr_bytes (er_hdr r) @ [er_completion_code r]"

definition set_endpoint_id_resp_bytes :: "mctp_ctrl_cmd_set_endpoint_id_resp \<Rightarrow> bytes" where
  [simp]: "set_endpoint_id_resp_bytes r =
     ctrl_hdr_bytes (ser_hdr r) @ [ser_completion_code r, ser_status r, ser_eid r, ser_pool_size r]"

definition get_endpoint_id_resp_bytes :: "mctp_ctrl_cmd_get_endpoint_id_resp \<Rightarrow> bytes" where
  [simp]: "get_endpoint_id_resp_bytes r =
     ctrl_hdr_bytes (ger_hdr r) @ [ger_completion_code r, ger_endpoint_id r, ger_endpoint_type r, ger_medium_specific r]"

definition get_version_resp_bytes :: "mctp_ctrl_cmd_get_version_resp \<Rightarrow> bytes" where
  [simp]: "get_version_resp_bytes r =
     ctrl_hdr_bytes (gvr_hdr r) @ [gvr_completion_code r, gvr_version_count r] @ gvr_versions r"

definition get_types_resp_bytes :: "mctp_ctrl_cmd_get_types_resp \<Rightarrow> bytes" where
  [simp]: "get_types_resp_bytes r =
     ctrl_hdr_bytes (gtr_hdr r) @ [gtr_completion_code r, gtr_type_count r] @ gtr_types r"

text \<open>
  The common tail of the handlers: allocate a response of the size of \<open>resp\<close>, fill it, send it.
  The result tells whether there was a buffer; the return code of the transmission is ignored, as
  in the code.
\<close>

definition send_resp :: "bool \<Rightarrow> u8 \<Rightarrow> u8 \<Rightarrow> bytes \<Rightarrow> 'e world \<Rightarrow> (bool \<times> 'e world) res" where
  "send_resp m src_eid msg_tag resp w =
     rbind (w_msg_alloc (of_nat (length resp)) m w) (\<lambda>(buf, w).
       case buf of None \<Rightarrow> Inr (False, w)
       | Some mb \<Rightarrow>
           rbind (buf_write mb 0 resp) (\<lambda>mb.
           rbind (mctp_message_tx_alloced src_eid False msg_tag mb (of_nat (length resp)) w)
             (\<lambda>(rc, w). Inr (True, w))))"

section \<open>Operations\<close>

definition mctp_bus_set_eid :: "nat \<Rightarrow> mctp_eid_t \<Rightarrow> 'e world \<Rightarrow> (int \<times> 'e world) res" where
  "mctp_bus_set_eid b eid w =
     (if eid < 8 \<or> eid = 0xff then Inr (- EINVAL, w)
      else rbind (deref (b_bus (bindings w b))) (\<lambda>bi.
        Inr (0, set_bus bi ((bus_at w bi)\<lparr>bus_eid := eid\<rparr>) w)))"

definition mctp_ctrl_set_endpoint_id ::
    "nat \<Rightarrow> u8 \<Rightarrow> u8 \<Rightarrow> bytes \<Rightarrow> u64 \<Rightarrow> 'e world \<Rightarrow> (u8 \<times> 'e world) res" where
  "mctp_ctrl_set_endpoint_id bi src_eid msg_tag data len w =
     (if len \<noteq> SIZEOF_set_endpoint_id_req then Inr (MCTP_CTRL_CC_ERROR_INVALID_LENGTH, w)
      else rbind (rd8 data 3) (\<lambda>operation. rbind (rd8 data 4) (\<lambda>eid.
        let oper = operation AND MCTP_CTRL_SET_EID_OP_MASK in
        if \<not> (oper = MCTP_CTRL_SET_EID_OP_SET \<or> oper = MCTP_CTRL_SET_EID_OP_FORCE)
        then Inr (MCTP_CTRL_CC_ERROR_INVALID_DATA, w)
        else rbind (deref (bus_binding (bus_at w bi))) (\<lambda>b.
          rbind (mctp_bus_set_eid b eid w) (\<lambda>(rc, w).
          if rc \<noteq> 0 then Inr (MCTP_CTRL_CC_ERROR_INVALID_DATA, w)
          else rbind (read_ctrl_hdr data) (\<lambda>hdr.
            rbind (send_resp (bus_mctp (bus_at w bi)) src_eid msg_tag
                    (set_endpoint_id_resp_bytes
                       \<lparr>ser_hdr = fill_resp hdr, ser_completion_code = MCTP_CTRL_CC_SUCCESS,
                        ser_status = MCTP_CTRL_SET_EID_STATUS_ACCEPTED, ser_eid = eid, ser_pool_size = 0\<rparr>) w)
              (\<lambda>(sent, w). Inr (if sent then MCTP_CTRL_CC_SUCCESS else MCTP_CTRL_CC_ERROR, w))))))))"

definition mctp_ctrl_get_endpoint_id ::
    "nat \<Rightarrow> u8 \<Rightarrow> u8 \<Rightarrow> bytes \<Rightarrow> u64 \<Rightarrow> 'e world \<Rightarrow> (u8 \<times> 'e world) res" where
  "mctp_ctrl_get_endpoint_id bi src_eid msg_tag data len w =
     (if len \<noteq> SIZEOF_ctrl_msg_hdr then Inr (MCTP_CTRL_CC_ERROR_INVALID_LENGTH, w)
      else rbind (read_ctrl_hdr data) (\<lambda>hdr.
        rbind (send_resp (bus_mctp (bus_at w bi)) src_eid msg_tag
                (get_endpoint_id_resp_bytes
                   \<lparr>ger_hdr = fill_resp hdr, ger_completion_code = MCTP_CTRL_CC_SUCCESS,
                    ger_endpoint_id = bus_eid (bus_at w bi),
                    ger_endpoint_type = MCTP_CTRL_ENDPOINT_TYPE_SIMPLE OR MCTP_CTRL_ENDPOINT_ID_TYPE_STATIC,
                    ger_medium_specific = 0\<rparr>) w)
          (\<lambda>(sent, w). Inr (if sent then MCTP_CTRL_CC_SUCCESS else MCTP_CTRL_CC_ERROR, w))))"

definition mctp_ctrl_get_version ::
    "nat \<Rightarrow> u8 \<Rightarrow> u8 \<Rightarrow> bytes \<Rightarrow> u64 \<Rightarrow> 'e world \<Rightarrow> (u8 \<times> 'e world) res" where
  "mctp_ctrl_get_version bi src_eid msg_tag data len w =
     (if len \<noteq> SIZEOF_get_version_req then Inr (MCTP_CTRL_CC_ERROR_INVALID_LENGTH, w)
      else rbind (rd8 data 3) (\<lambda>msg_type.
        if msg_type \<noteq> 0x00 \<and> msg_type \<noteq> 0xff then Inr (MCTP_CTRL_VERSIONS_NOT_SUPPORTED, w)
        else rbind (read_ctrl_hdr data) (\<lambda>hdr.
          rbind (send_resp (bus_mctp (bus_at w bi)) src_eid msg_tag
                  (get_version_resp_bytes
                     \<lparr>gvr_hdr = fill_resp hdr, gvr_completion_code = MCTP_CTRL_CC_SUCCESS,
                      gvr_version_count = MCTP_PROTOCOL_COUNT, gvr_versions = MCTP_PROTOCOL_VERSIONS\<rparr>) w)
            (\<lambda>(sent, w). Inr (if sent then MCTP_CTRL_CC_SUCCESS else MCTP_CTRL_CC_ERROR, w)))))"

definition mctp_ctrl_get_types ::
    "nat \<Rightarrow> u8 \<Rightarrow> u8 \<Rightarrow> bytes \<Rightarrow> u64 \<Rightarrow> 'e world \<Rightarrow> (u8 \<times> 'e world) res" where
  "mctp_ctrl_get_types bi src_eid msg_tag data len w =
     (if len \<noteq> SIZEOF_ctrl_msg_hdr then Inr (MCTP_CTRL_CC_ERROR_INVALID_LENGTH, w)
      else rbind (check Null_deref (bus_mctp (bus_at w bi))) (\<lambda>_.
        rbind (read_ctrl_hdr data) (\<lambda>hdr.
        rbind (mem_read (msg_types (control w)) 0 (unat (num_msg_types (control w)))) (\<lambda>types.
        rbind (send_resp (bus_mctp (bus_at w bi)) src_eid msg_tag
                (get_types_resp_bytes
                   \<lparr>gtr_hdr = fill_resp hdr, gtr_completion_code = MCTP_CTRL_CC_SUCCESS,
                    gtr_type_count = ucast (num_msg_types (control w)), gtr_types = types\<rparr>) w)
          (\<lambda>(sent, w). Inr (if sent then MCTP_CTRL_CC_SUCCESS else MCTP_CTRL_CC_ERROR, w))))))"

definition reply_error ::
    "bool \<Rightarrow> u8 \<Rightarrow> u8 \<Rightarrow> mctp_ctrl_msg_hdr \<Rightarrow> u8 \<Rightarrow> 'e world \<Rightarrow> 'e world res" where
  "reply_error m src_eid msg_tag ctrl_hdr ccode w =
     rbind (send_resp m src_eid msg_tag (empty_resp_bytes \<lparr>er_hdr = fill_resp ctrl_hdr, er_completion_code = ccode\<rparr>) w) (\<lambda>(sent, w). Inr w)"

definition mctp_control_handler ::
    "nat \<Rightarrow> mctp_eid_t \<Rightarrow> bool \<Rightarrow> u8 \<Rightarrow> bytes \<Rightarrow> u64 \<Rightarrow> 'e world \<Rightarrow> (bool \<times> 'e world) res" where
  "mctp_control_handler bi src_eid tag_owner msg_tag data len w =
     (if \<not> tag_owner then Inr (False, w)
      else if len < 1 then Inr (False, w)
      else rbind (rd8 data 0) (\<lambda>msg_type.
        if msg_type \<noteq> MCTP_CTRL_HDR_MSG_TYPE then Inr (False, w)
        else if len < SIZEOF_ctrl_msg_hdr then Inr (True, w)
        else rbind (read_ctrl_hdr data) (\<lambda>ctrl_hdr.
          if rq_dgram_inst ctrl_hdr AND (MCTP_CTRL_HDR_FLAG_REQUEST OR MCTP_CTRL_HDR_FLAG_DGRAM)
               \<noteq> MCTP_CTRL_HDR_FLAG_REQUEST
          then Inr (True, w)
          else rbind
            (if command_code ctrl_hdr = MCTP_CTRL_CMD_SET_ENDPOINT_ID
             then mctp_ctrl_set_endpoint_id bi src_eid msg_tag data len w
             else if command_code ctrl_hdr = MCTP_CTRL_CMD_GET_ENDPOINT_ID
             then mctp_ctrl_get_endpoint_id bi src_eid msg_tag data len w
             else if command_code ctrl_hdr = MCTP_CTRL_CMD_GET_VERSION_SUPPORT
             then mctp_ctrl_get_version bi src_eid msg_tag data len w
             else if command_code ctrl_hdr = MCTP_CTRL_CMD_GET_MESSAGE_TYPE_SUPPORT
             then mctp_ctrl_get_types bi src_eid msg_tag data len w
             else Inr (MCTP_CTRL_CC_ERROR_UNSUPPORTED_CMD, w)) (\<lambda>(cc, w).
            rbind (if cc \<noteq> 0
                   then reply_error (bus_mctp (bus_at w bi)) src_eid msg_tag ctrl_hdr cc w
                   else Inr w) (\<lambda>w. Inr (True, w))))))"

subsection \<open>The table of message types\<close>

text \<open>The search loop of \<open>mctp_control_add_type\<close> and the loop of \<open>mctp_control_remove_type\<close>,
  with their index and the number of entries as they change.\<close>

function has_type_loop :: "u8 \<Rightarrow> bytes \<Rightarrow> nat \<Rightarrow> nat \<Rightarrow> bool res" where
  "has_type_loop t types n i =
     (if i < n
      then rbind (rd8 types i) (\<lambda>x. if x = t then Inr True else has_type_loop t types n (Suc i))
      else Inr False)"
  by pat_completeness auto
termination
  by (relation "measure (\<lambda>(t, types, n, i). n - i)") auto

function remove_type_loop :: "u8 \<Rightarrow> bytes \<Rightarrow> nat \<Rightarrow> nat \<Rightarrow> (bytes \<times> nat) res" where
  "remove_type_loop t types n i =
     (if i < n
      then rbind (rd8 types i) (\<lambda>x.
        if x = t
        then rbind (mem_read types (i + 1) (n - (i + 1))) (\<lambda>tail.
             rbind (mem_write types i tail) (\<lambda>types. remove_type_loop t types (n - 1) (Suc i)))
        else remove_type_loop t types n (Suc i))
      else Inr (types, n))"
  by pat_completeness auto
termination
  by (relation "measure (\<lambda>(t, types, n, i). n - i)") auto

declare has_type_loop.simps [simp del] remove_type_loop.simps [simp del]

definition mctp_control_add_type :: "u8 \<Rightarrow> mctp_control \<Rightarrow> (int \<times> mctp_control) res" where
  "mctp_control_add_type msg_type c =
     rbind (has_type_loop msg_type (msg_types c) (unat (num_msg_types c)) 0) (\<lambda>found.
       if found then Inr (0, c)
       else if num_msg_types c = of_nat MCTP_CONTROL_MAX_TYPES then Inr (- ENOSPC, c)
       else rbind (mem_write (msg_types c) (unat (num_msg_types c)) [msg_type]) (\<lambda>types.
         Inr (0, c\<lparr>msg_types := types, num_msg_types := num_msg_types c + 1\<rparr>)))"

definition mctp_control_remove_type :: "u8 \<Rightarrow> mctp_control \<Rightarrow> mctp_control res" where
  "mctp_control_remove_type msg_type c =
     rbind (remove_type_loop msg_type (msg_types c) (unat (num_msg_types c)) 0) (\<lambda>(types, n).
       Inr (c\<lparr>msg_types := types, num_msg_types := of_nat n\<rparr>))"

section \<open>Lemmas\<close>

lemma rd8_ok: "off < length m \<Longrightarrow> rd8 m off = Inr (m ! off)"
  by (simp add: rd8_def mem_read_def take_Suc hd_drop_conv_nth)

lemma read_ctrl_hdr_ok:
  assumes "3 \<le> length m"
  shows "read_ctrl_hdr m = Inr \<lparr>ic_msg_type = m ! 0, rq_dgram_inst = m ! 1, command_code = m ! 2\<rparr>"
proof -
  have "0 < length m" "1 < length m" "2 < length m" using assms by linarith+
  then show ?thesis unfolding read_ctrl_hdr_def by (simp only: rd8_ok rbind_Inr)
qed

lemma length_ctrl_hdr_bytes [simp]: "length (ctrl_hdr_bytes h) = 3"
  by (simp add: ctrl_hdr_bytes_def)

end
