(* ===== verification/Mctp_Rx.thy ===== *)
theory Mctp_Rx
  imports Mctp_Control
begin

text \<open>
  Reception: \<^verbatim>\<open>src/core.c\<close> lines 443 to 717. \<open>mctp_bus_rx\<close> takes one packet from a binding,
  drops it, delivers it, or adds it to a reassembly context; \<open>mctp_rx\<close> takes a complete message
  and delivers it to the control handler, to the user's handler, or to the other bus of a bridge.
\<close>

section \<open>Operations\<close>

definition mctp_ctrl_cmd_is_transport :: "mctp_ctrl_msg_hdr \<Rightarrow> bool" where
  "mctp_ctrl_cmd_is_transport hdr \<longleftrightarrow>
     command_code hdr \<ge> MCTP_CTRL_CMD_FIRST_TRANSPORT \<and> command_code hdr \<le> MCTP_CTRL_CMD_LAST_TRANSPORT"

definition mctp_ctrl_handle_msg ::
    "nat \<Rightarrow> mctp_eid_t \<Rightarrow> u8 \<Rightarrow> bool \<Rightarrow> bytes \<Rightarrow> u64 \<Rightarrow> 'e world \<Rightarrow> (bool \<times> 'e world) res" where
  "mctp_ctrl_handle_msg bi src msg_tag tag_owner buffer len w =
     rbind (read_ctrl_hdr buffer) (\<lambda>msg_hdr.
       if mctp_ctrl_cmd_is_transport msg_hdr
       then rbind (deref (bus_binding (bus_at w bi))) (\<lambda>b.
         case b_control_rx (bindings w b) of
           None \<Rightarrow> Inr (False, w)
         | Some f \<Rightarrow>
             Inr (True, emit (Ev_control_rx f src msg_tag tag_owner (b_control_rx_data (bindings w b))
                                (take (unat len) buffer) len) w))
       else mctp_control_handler bi src tag_owner msg_tag buffer len w)"

definition mctp_rx_dest_is_local :: "mctp_bus \<Rightarrow> mctp_eid_t \<Rightarrow> bool" where
  "mctp_rx_dest_is_local bus dest \<longleftrightarrow>
     dest = bus_eid bus \<or> dest = MCTP_EID_NULL \<or> dest = MCTP_EID_BROADCAST"

definition mctp_ctrl_cmd_is_request :: "mctp_ctrl_msg_hdr \<Rightarrow> bool" where
  "mctp_ctrl_cmd_is_request hdr \<longleftrightarrow>
     ic_msg_type hdr = MCTP_CTRL_HDR_MSG_TYPE \<and> rq_dgram_inst hdr AND MCTP_CTRL_HDR_FLAG_REQUEST \<noteq> 0"

text \<open>The loop over the busses of a bridge: \<open>is\<close> are the indices still to visit.\<close>

fun bridge_loop ::
    "nat list \<Rightarrow> nat \<Rightarrow> mctp_eid_t \<Rightarrow> mctp_eid_t \<Rightarrow> bool \<Rightarrow> u8 \<Rightarrow> bytes \<Rightarrow> u64 \<Rightarrow> 'e world \<Rightarrow> 'e world res" where
  "bridge_loop [] bi src dest tag_owner msg_tag buf len w = Inr w"
| "bridge_loop (i # is) bi src dest tag_owner msg_tag buf len w =
     (if i = bi then bridge_loop is bi src dest tag_owner msg_tag buf len w
      else rbind (mctp_msg_dup buf 0 len True w) (\<lambda>(copy, w).
        case copy of None \<Rightarrow> Inr w
        | Some mb \<Rightarrow>
            rbind (mctp_message_tx_on_bus i src dest tag_owner msg_tag mb len w) (\<lambda>(rc, w).
              bridge_loop is bi src dest tag_owner msg_tag buf len w)))"

text \<open>The message handler of the user, when there is one.\<close>

definition deliver :: "mctp_eid_t \<Rightarrow> bool \<Rightarrow> u8 \<Rightarrow> bytes \<Rightarrow> u64 \<Rightarrow> 'e world \<Rightarrow> 'e world" where
  "deliver src tag_owner msg_tag buf len w =
     (case message_rx w of None \<Rightarrow> w
      | Some f \<Rightarrow> emit (Ev_message_rx f (message_rx_data w) src tag_owner msg_tag (take (unat len) buf) len) w)"

definition mctp_rx ::
    "nat \<Rightarrow> mctp_eid_t \<Rightarrow> mctp_eid_t \<Rightarrow> bool \<Rightarrow> u8 \<Rightarrow> bytes option \<Rightarrow> u64 \<Rightarrow> 'e world \<Rightarrow> 'e world res" where
  "mctp_rx bi src dest tag_owner msg_tag buf len w =
     (case buf of None \<Rightarrow> Inl Assert_failed
      | Some buf \<Rightarrow>
          if route_policy w = ROUTE_ENDPOINT \<and> mctp_rx_dest_is_local (bus_at w bi) dest
          then rbind (if \<not> tag_owner then mctp_dealloc_tag bi dest src msg_tag w else Inr w) (\<lambda>w.
            rbind (if len \<ge> SIZEOF_ctrl_msg_hdr
                   then rbind (read_ctrl_hdr buf) (\<lambda>msg_hdr.
                     if mctp_ctrl_cmd_is_request msg_hdr
                     then mctp_ctrl_handle_msg bi src msg_tag tag_owner buf len w
                     else Inr (False, w))
                   else Inr (False, w)) (\<lambda>(handled, w).
              if handled then Inr w
              else Inr (deliver src tag_owner msg_tag buf len w)))
          else if route_policy w = ROUTE_BRIDGE
          then bridge_loop [0..<nat (n_busses w)] bi src dest tag_owner msg_tag buf len w
          else Inr w)"

definition rx_single :: "nat \<Rightarrow> mctp_hdr \<Rightarrow> mctp_pktbuf \<Rightarrow> 'e world \<Rightarrow> 'e world res" where
  "rx_single bi hdr pkt w =
     (let len = pk_end pkt - mctp_hdr_off pkt - SIZEOF_MCTP_HDR
      in rbind (mctp_msg_dup (pk_data pkt) (unat (mctp_hdr_off pkt + SIZEOF_MCTP_HDR)) len True w)
           (\<lambda>(p, w). case p of None \<Rightarrow> Inr w
             | Some mb \<Rightarrow>
                 rbind (mctp_rx bi (hdr_src hdr) (hdr_dest hdr) (fst_to (flags_seq_tag hdr))
                          (fst_tag (flags_seq_tag hdr)) (Some (mb_data mb)) len w) (\<lambda>w.
                   w_msg_free (Some mb) True w)))"

definition rx_start :: "nat \<Rightarrow> mctp_hdr \<Rightarrow> mctp_pktbuf \<Rightarrow> 'e world \<Rightarrow> 'e world res" where
  "rx_start bi hdr pkt w =
     (let tag = fst_tag (flags_seq_tag hdr); seq = fst_seq (flags_seq_tag hdr)
      in rbind (case mctp_msg_ctx_lookup w (hdr_src hdr) (hdr_dest hdr) tag of
            Some i \<Rightarrow> Inr (Some i, mctp_msg_ctx_reset i w)
          | None \<Rightarrow> mctp_msg_ctx_create (hdr_src hdr) (hdr_dest hdr) tag w) (\<lambda>(ctx, w).
        case ctx of None \<Rightarrow> Inr w
        | Some i \<Rightarrow>
            let w = set_ctx i ((msg_ctxs w ! i)\<lparr>ctx_fragment_size := mctp_pktbuf_size pkt\<rparr>) w
            in rbind (mctp_msg_ctx_add_pkt i pkt w) (\<lambda>(rc, w).
                 if rc \<noteq> 0 then mctp_msg_ctx_drop bi i w
                 else Inr (set_ctx i ((msg_ctxs w ! i)\<lparr>ctx_last_seq := seq\<rparr>) w))))"

definition rx_end :: "nat \<Rightarrow> mctp_hdr \<Rightarrow> mctp_pktbuf \<Rightarrow> 'e world \<Rightarrow> 'e world res" where
  "rx_end bi hdr pkt w =
     (let tag = fst_tag (flags_seq_tag hdr); seq = fst_seq (flags_seq_tag hdr)
      in case mctp_msg_ctx_lookup w (hdr_src hdr) (hdr_dest hdr) tag of
           None \<Rightarrow> Inr w
         | Some i \<Rightarrow>
             let exp_seq = (ctx_last_seq (msg_ctxs w ! i) + 1) mod 4
             in if exp_seq \<noteq> seq then mctp_msg_ctx_drop bi i w
                else if mctp_pktbuf_size pkt > ctx_fragment_size (msg_ctxs w ! i)
                then mctp_msg_ctx_drop bi i w
                else rbind (mctp_msg_ctx_add_pkt i pkt w) (\<lambda>(rc, w).
                  rbind (if rc = 0
                         then let c = msg_ctxs w ! i in
                           mctp_rx bi (ctx_src c) (ctx_dest c) (fst_to (flags_seq_tag hdr)) tag
                             (map_option mb_data (ctx_buf c)) (ctx_buf_size c) w
                         else Inr w) (\<lambda>w.
                    mctp_msg_ctx_drop bi i w)))"

definition rx_middle :: "nat \<Rightarrow> mctp_hdr \<Rightarrow> mctp_pktbuf \<Rightarrow> 'e world \<Rightarrow> 'e world res" where
  "rx_middle bi hdr pkt w =
     (let tag = fst_tag (flags_seq_tag hdr); seq = fst_seq (flags_seq_tag hdr)
      in case mctp_msg_ctx_lookup w (hdr_src hdr) (hdr_dest hdr) tag of
           None \<Rightarrow> Inr w
         | Some i \<Rightarrow>
             let exp_seq = (ctx_last_seq (msg_ctxs w ! i) + 1) mod 4
             in if exp_seq \<noteq> seq then mctp_msg_ctx_drop bi i w
                else if mctp_pktbuf_size pkt \<noteq> ctx_fragment_size (msg_ctxs w ! i)
                then mctp_msg_ctx_drop bi i w
                else rbind (mctp_msg_ctx_add_pkt i pkt w) (\<lambda>(rc, w).
                  if rc \<noteq> 0 then mctp_msg_ctx_drop bi i w
                  else Inr (set_ctx i ((msg_ctxs w ! i)\<lparr>ctx_last_seq := seq\<rparr>) w)))"

text \<open>The switch over the start and end flags of the header.\<close>

definition rx_switch :: "nat \<Rightarrow> mctp_hdr \<Rightarrow> mctp_pktbuf \<Rightarrow> 'e world \<Rightarrow> 'e world res" where
  "rx_switch bi hdr pkt w =
     (let flags = fst_flags (flags_seq_tag hdr)
      in if flags = MCTP_HDR_FLAG_SOM OR MCTP_HDR_FLAG_EOM then rx_single bi hdr pkt w
         else if flags = MCTP_HDR_FLAG_SOM then rx_start bi hdr pkt w
         else if flags = MCTP_HDR_FLAG_EOM then rx_end bi hdr pkt w
         else if flags = 0 then rx_middle bi hdr pkt w
         else Inr w)"

definition mctp_bus_rx :: "nat \<Rightarrow> mctp_pktbuf \<Rightarrow> 'e world \<Rightarrow> 'e world res" where
  "mctp_bus_rx b pkt w =
     (case b_bus (bindings w b) of None \<Rightarrow> Inl Assert_failed
      | Some bi \<Rightarrow>
          if mctp_pktbuf_size pkt < SIZEOF_MCTP_HDR then Inr w
          else rbind (check Null_deref (b_mctp (bindings w b))) (\<lambda>_.
            let w = w\<lparr>trace := trace w @ capture_events pkt False w\<rparr>
            in rbind (read_hdr pkt) (\<lambda>hdr.
              if hdr_src hdr = MCTP_EID_BROADCAST then Inr w
              else if route_policy w = ROUTE_ENDPOINT \<and> \<not> mctp_rx_dest_is_local (bus_at w bi) (hdr_dest hdr)
              then Inr w
              else rx_switch bi hdr pkt w)))"

end
