(* ===== verification/Mctp_Endpoint.thy ===== *)
theory Mctp_Endpoint
  imports Mctp_Rx "HOL-Library.Multiset"
begin

text \<open>
  The invariant of an endpoint: an instance with one registered bus. \<open>endpoint_ok\<close> says that the
  tables have their sizes, that every assembly fits its buffer, that the binding and the pending
  message are sound, and who owns which heap block: the pending message and the contexts in use own
  theirs, each exactly once, and \<open>F\<close> are the blocks of everybody else. An operation that keeps
  \<open>endpoint_ok\<close> with the same \<open>F\<close> neither leaks a buffer nor frees one twice. The lemmas in the
  context of \<open>safe_tx\<close> show this for the operations that transmit, with their return codes.
\<close>

section \<open>Ownership\<close>

definition own :: "msgbuf option \<Rightarrow> nat multiset" where
  "own p = (case p of None \<Rightarrow> {#} | Some mb \<Rightarrow> {#mb_blk mb#})"

definition ctx_own :: "mctp_msg_ctx list \<Rightarrow> nat multiset" where
  "ctx_own cs = sum_list (map (\<lambda>c. own (ctx_buf c)) cs)"

definition owned :: "'e world \<Rightarrow> nat multiset" where
  "owned w = own (tx_msg (bus_at w 0)) + ctx_own (msg_ctxs w)"

definition heap_owns :: "nat multiset \<Rightarrow> heap \<Rightarrow> bool" where
  "heap_owns M h \<longleftrightarrow> heap_ok h \<and> M = mset_set (h_live h)"

lemma own_simps [simp]: "own None = {#}" "own (Some mb) = {#mb_blk mb#}"
  by (simp_all add: own_def)

lemma own_eq_empty [simp]: "own p = {#} \<longleftrightarrow> p = None"
  by (cases p) auto

lemma heap_ok_finite: "heap_ok h \<Longrightarrow> finite (h_live h)"
  by (rule finite_subset [of _ "{..<h_next h}"]) (auto simp: heap_ok_def)

lemma heap_owns_live: "heap_owns (add_mset b M) h \<Longrightarrow> b \<in> h_live h"
  by (metis elem_mset_set finite_set_mset heap_ok_finite heap_owns_def union_single_eq_member)

lemma heap_owns_insert:
  "heap_owns M h \<Longrightarrow> heap_ok h' \<Longrightarrow> b \<notin> h_live h \<Longrightarrow> h_live h' = insert b (h_live h) \<Longrightarrow>
     heap_owns (add_mset b M) h'"
  by (simp add: heap_owns_def heap_ok_finite)

lemma heap_owns_remove:
  assumes "heap_owns (add_mset b M) h" and "heap_ok h'" and "h_live h' = h_live h - {b}"
  shows "heap_owns M h'"
proof -
  have "add_mset b M = mset_set (h_live h)" using assms(1) by (simp add: heap_owns_def)
  also have "\<dots> = add_mset b (mset_set (h_live h - {b}))"
    using assms(1) heap_owns_live [OF assms(1)] by (intro mset_set.remove) (auto simp: heap_owns_def heap_ok_finite)
  finally show ?thesis using assms(2,3) by (simp add: heap_owns_def)
qed

lemma heap_owns_same:
  "heap_owns M h \<Longrightarrow> heap_ok h' \<Longrightarrow> h_live h' = h_live h \<Longrightarrow> heap_owns M h'"
  by (simp add: heap_owns_def)

lemma w_msg_alloc_owns:
  assumes "good_ops (ops w)" and "heap_owns M (heap w)"
  obtains p h where "w_msg_alloc n True w = Inr (p, w\<lparr>heap := h\<rparr>)" and "heap_owns (own p + M) h"
    and "\<And>mb. p = Some mb \<Longrightarrow> mb_size mb = n \<and> mb_data mb = []"
proof -
  have ok: "heap_ok (heap w)" using assms(2) by (simp add: heap_owns_def)
  obtain p w' where a: "w_msg_alloc n True w = Inr (p, w')"
    using w_msg_alloc_total [OF assms(1) ok] by blast
  from w_msg_alloc_InrE [OF a assms(1) ok] obtain h where
    h: "w' = w\<lparr>heap := h\<rparr>" "heap_ok h" "p = None \<Longrightarrow> h_live h = h_live (heap w)"
      "\<And>mb. p = Some mb \<Longrightarrow> mb_size mb = n \<and> mb_data mb = [] \<and>
           mb_blk mb \<notin> h_live (heap w) \<and> h_live h = insert (mb_blk mb) (h_live (heap w))"
    by metis
  have "heap_owns (own p + M) h"
    using h assms(2) heap_owns_insert heap_owns_same by (cases p) auto
  then show ?thesis using that a h by blast
qed

lemma w_msg_free_owns:
  assumes "good_ops (ops w)" and "heap_owns (add_mset (mb_blk mb) M) (heap w)"
  obtains h where "w_msg_free (Some mb) True w = Inr (w\<lparr>heap := h\<rparr>)" and "heap_owns M h"
proof -
  have ok: "heap_ok (heap w)" using assms(2) by (simp add: heap_owns_def)
  from w_msg_free_live [OF assms(1) ok heap_owns_live [OF assms(2)]] heap_owns_remove [OF assms(2)]
  show ?thesis using that by blast
qed

lemma ctx_own_update:
  "i < length cs \<Longrightarrow> ctx_own (cs[i := c]) + own (ctx_buf (cs ! i)) = ctx_own cs + own (ctx_buf c)"
proof (induction cs arbitrary: i)
  case (Cons x cs)
  then show ?case by (cases i) (simp_all add: ctx_own_def ac_simps)
qed simp

lemma ctx_own_fill:
  "i < length cs \<Longrightarrow> ctx_buf (cs ! i) = None \<Longrightarrow> ctx_own (cs[i := c]) = own (ctx_buf c) + ctx_own cs"
  using ctx_own_update [of i cs c] by (simp add: ac_simps)

lemma ctx_own_rewrite:
  "i < length cs \<Longrightarrow> own (ctx_buf c) = own (ctx_buf (cs ! i)) \<Longrightarrow> ctx_own (cs[i := c]) = ctx_own cs"
  using ctx_own_update [of i cs c] by simp

lemma ctx_own_drop:
  "i < length cs \<Longrightarrow> ctx_buf c = None \<Longrightarrow> ctx_own cs = own (ctx_buf (cs ! i)) + ctx_own (cs[i := c])"
  using ctx_own_update [of i cs c] by (simp add: ac_simps)

section \<open>The invariant of an endpoint\<close>

definition control_ok :: "mctp_control \<Rightarrow> bool" where
  "control_ok c \<longleftrightarrow> length (msg_types c) = 10 \<and> num_msg_types c \<le> 10 \<and>
     distinct (take (unat (num_msg_types c)) (msg_types c))"

definition ctxs_ok :: "mctp_msg_ctx list \<Rightarrow> bool" where
  "ctxs_ok cs \<longleftrightarrow> length cs = 16 \<and> (\<forall>c\<in>set cs. ctx_wf c) \<and> ctxs_unique cs"

definition ep_shape ::
    "('e \<Rightarrow> mctp_pktbuf \<Rightarrow> (int \<times> 'e) res) \<Rightarrow> ('e \<Rightarrow> bool) \<Rightarrow> nat \<Rightarrow> nat \<Rightarrow> 'e world \<Rightarrow> bool" where
  [endpoint_defs]: "ep_shape tx P mtu b w \<longleftrightarrow> n_busses w = 1 \<and> route_policy w = ROUTE_ENDPOINT \<and> length (busses w) = 2 \<and>
     bus_mctp (bus_at w 0) \<and> bus_binding (bus_at w 0) = Some b \<and> b_bus (bindings w b) = Some 0 \<and>
     binding_ok (bindings w b) \<and> tx_pending_ok (bus_at w 0) \<and> b_tx (bindings w b) = Some tx \<and>
     P (b_priv (bindings w b)) \<and> mtu = unat (b_pkt_size (bindings w b)) \<and> good_ops (ops w) \<and>
     ctxs_ok (msg_ctxs w) \<and> length (req_tags w) = 16 \<and> (\<forall>r\<in>set (req_tags w). rt_tag r < 8) \<and>
     platform_now w \<noteq> None \<and> control_ok (control w)"

definition endpoint_ok ::
    "('e \<Rightarrow> mctp_pktbuf \<Rightarrow> (int \<times> 'e) res) \<Rightarrow> ('e \<Rightarrow> bool) \<Rightarrow> nat \<Rightarrow> nat \<Rightarrow> nat multiset \<Rightarrow> 'e world \<Rightarrow> bool" where
  [endpoint_defs]: "endpoint_ok tx P mtu b F w \<longleftrightarrow> ep_shape tx P mtu b w \<and> heap_owns (owned w + F) (heap w)"

lemma ep_shape_heap [simp]: "ep_shape tx P mtu b (w\<lparr>heap := h\<rparr>) = ep_shape tx P mtu b w"
  by (simp add: ep_shape_def)

lemma ep_shape_trace [simp]: "ep_shape tx P mtu b (w\<lparr>trace := t\<rparr>) = ep_shape tx P mtu b w"
  by (simp add: ep_shape_def bus_at_def)

lemma ep_shape_emit [simp]: "ep_shape tx P mtu b (emit e w) = ep_shape tx P mtu b w"
  by (simp add: emit_def)

lemma owned_simps [simp]: "owned (w\<lparr>heap := h\<rparr>) = owned w" "owned (w\<lparr>trace := t\<rparr>) = owned w"
  "owned (emit e w) = owned w" "owned (w\<lparr>req_tags := ts\<rparr>) = owned w"
  "owned (w\<lparr>req_tags := ts, tag_round_robin := rr\<rparr>) = owned w"
  by (simp_all add: owned_def bus_at_def emit_def)

lemma endpoint_ok_trace [simp]:
  "endpoint_ok tx P mtu b F (w\<lparr>trace := t\<rparr>) = endpoint_ok tx P mtu b F w"
  "endpoint_ok tx P mtu b F (emit e w) = endpoint_ok tx P mtu b F w"
  by (simp_all add: endpoint_ok_def emit_def)

lemma endpoint_ok_tx_ready:
  assumes "endpoint_ok tx P mtu b F w"
  shows "tx_ready tx P mtu 0 b w"
proof -
  have "mb_blk mb \<in> h_live (heap w)" if "tx_msg (bus_at w 0) = Some mb" for mb
    using assms that by (intro heap_owns_live [of _ "ctx_own (msg_ctxs w) + F"])
      (auto simp: endpoint_ok_def owned_def)
  then show ?thesis using assms
    by (auto simp: tx_ready_def endpoint_defs heap_owns_def)
qed

lemma mctp_msg_dup_ok:
  assumes "endpoint_ok tx P mtu b F w" and "off + unat len \<le> length src"
  obtains p h where "mctp_msg_dup src off len True w = Inr (p, w\<lparr>heap := h\<rparr>)"
    and "endpoint_ok tx P mtu b (own p + F) (w\<lparr>heap := h\<rparr>)"
    and "\<And>mb. p = Some mb \<Longrightarrow> mb_data mb = take (unat len) (drop off src)"
proof -
  have "good_ops (ops w)" "heap_owns (owned w + F) (heap w)"
    using assms(1) by (auto simp: endpoint_defs)
  then obtain p h where a: "w_msg_alloc len True w = Inr (p, w\<lparr>heap := h\<rparr>)"
    and h: "heap_owns (own p + (owned w + F)) h"
    and mb: "\<And>mb. p = Some mb \<Longrightarrow> mb_size mb = len \<and> mb_data mb = []"
    using w_msg_alloc_owns by blast
  let ?p = "map_option (\<lambda>mb. mb\<lparr>mb_data := take (unat len) (drop off src)\<rparr>) p"
  have "mctp_msg_dup src off len True w = Inr (?p, w\<lparr>heap := h\<rparr>)"
    using a mb assms(2) by (cases p) (auto simp: mctp_msg_dup_def mem_read_def buf_write_def)
  moreover have "own ?p = own p" by (cases p) auto
  ultimately show ?thesis
    using h assms(1) by (intro that [of ?p h]) (auto simp: endpoint_ok_def ac_simps)
qed


section \<open>Transmission on an endpoint\<close>

text \<open>What transmitting leaves alone: everything but the transmit state of the bus, the binding's
  buffer and private state, and the heap; it only adds calls of the binding and of the capture
  handler to the trace.\<close>

definition tx_frame :: "nat \<Rightarrow> 'e world \<Rightarrow> 'e world \<Rightarrow> bool" where
  "tx_frame b w w' \<longleftrightarrow> msg_ctxs w' = msg_ctxs w \<and> req_tags w' = req_tags w \<and>
     tag_round_robin w' = tag_round_robin w \<and> control w' = control w \<and>
     message_rx w' = message_rx w \<and> message_rx_data w' = message_rx_data w \<and>
     capture w' = capture w \<and> capture_data w' = capture_data w \<and>
     max_message_size w' = max_message_size w \<and> clock w' = clock w \<and> ops w' = ops w \<and>
     platform_now w' = platform_now w \<and> platform_now_ctx w' = platform_now_ctx w \<and>
     bus_eid (bus_at w' 0) = bus_eid (bus_at w 0) \<and> bus_state (bus_at w' 0) = bus_state (bus_at w 0) \<and>
     (\<exists>evs. trace w' = trace w @ evs \<and> tx_events b evs)"

lemma tx_frame_refl [simp]: "tx_frame b w w"
  by (simp add: tx_frame_def) (simp add: tx_events_def)

lemma tx_frame_heap [simp]: "tx_frame b w (w\<lparr>heap := h\<rparr>)"
  by (simp add: tx_frame_def) (simp add: tx_events_def)

lemma tx_frame_trans [trans]: "tx_frame b w1 w2 \<Longrightarrow> tx_frame b w2 w3 \<Longrightarrow> tx_frame b w1 w3"
  unfolding tx_frame_def by (auto simp del: append_assoc simp: append_assoc [symmetric] intro: tx_events_append) (metis append_assoc tx_events_append)

text \<open>Without a bus the message is freed and, but for a bad tag, 0 returned; a packet size below the minimum fails
  the assertion.\<close>

lemma tx_alloced_no_bus:
  assumes "n_busses w = 0" and "good_ops (ops w)" and "heap_owns (add_mset (mb_blk mb) F) (heap w)"
  shows "\<exists>h. mctp_message_tx_alloced eid to tag mb n w = Inr (if tag AND 7 \<noteq> tag then - EINVAL else 0, w\<lparr>heap := h\<rparr>) \<and>
    heap_owns F h"
proof -
  obtain h where "w_msg_free (Some mb) True w = Inr (w\<lparr>heap := h\<rparr>)" "heap_owns F h" by (rule w_msg_free_owns [OF assms(2,3)])
  then show ?thesis using assms(1)
    by (intro exI [of _ h]) (simp add: mctp_message_tx_alloced_def find_bus_for_eid_def)
qed

lemma tx_alloced_small_mtu:
  assumes "0 < n_busses w" and "tag AND 7 = tag" and "bus_state (bus_at w 0) \<noteq> mctp_bus_state_constructed"
    and "bus_binding (bus_at w 0) = Some b" and "MCTP_BODY_SIZE (b_pkt_size (bindings w b)) < MCTP_BTU"
  shows "mctp_message_tx_alloced eid to tag mb n w = Inl Assert_failed"
  using assms by (auto simp: mctp_message_tx_alloced_def find_bus_for_eid_def mctp_message_tx_on_bus_def Let_def c_assert_def
      check_def dest: leD simp del: MCTP_BODY_SIZE_def MCTP_BTU_def)

context safe_tx
begin

lemma queue_ok:
  assumes "endpoint_ok tx P mtu b F w"
  obtains w' where "mctp_send_tx_queue 0 w = Inr w'" and "endpoint_ok tx P mtu b F w'" and "tx_frame b w w'"
proof -
  let ?bus = "bus_at w 0"
  note r = endpoint_ok_tx_ready [OF assms]
  from loop_safe [OF r, of "Suc (unat (tx_msglen ?bus))"] obtain m pos pl sq st e h evs where
    run: "send_tx_queue (Suc (unat (tx_msglen ?bus))) 0 w = Inr (tx_upd 0 b m pos pl sq st e h evs w)"
    and r': "tx_ready tx P mtu 0 b (tx_upd 0 b m pos pl sq st e h evs w)" and ev: "tx_events b evs"
    and mh: "m = tx_msg ?bus \<and> h_live h = h_live (heap w) \<or>
      (\<exists>mb. tx_msg ?bus = Some mb \<and> m = None \<and> h_live h = h_live (heap w) - {mb_blk mb})"
    by (elim meta_impE exE conjE) (simp, rule that)
  let ?w = "tx_upd 0 b m pos pl sq st e h evs w"
  have len: "length (busses w) = 2" using assms by (simp add: endpoint_defs)
  have sh: "ep_shape tx P mtu b ?w"
    using assms r' len by (simp add: endpoint_defs tx_ready_def)
  have h: "heap_ok h" using r' by (simp add: tx_ready_def)
  have ow: "heap_owns (own (tx_msg ?bus) + (ctx_own (msg_ctxs w) + F)) (heap w)"
    using assms by (simp add: endpoint_ok_def owned_def add.assoc)
  have "heap_owns (own m + (ctx_own (msg_ctxs w) + F)) h"
    using mh
  proof (elim disjE conjE exE)
    assume "m = tx_msg ?bus" "h_live h = h_live (heap w)"
    then show ?thesis using heap_owns_same [OF ow h] by simp
  next
    fix mb assume "tx_msg ?bus = Some mb" "m = None" "h_live h = h_live (heap w) - {mb_blk mb}"
    then show ?thesis using heap_owns_remove [OF _ h, of "mb_blk mb" _ "heap w"] ow by simp
  qed
  then have "endpoint_ok tx P mtu b F ?w"
    using sh len by (simp add: endpoint_ok_def owned_def add.assoc)
  moreover have "tx_frame b w ?w" using len ev by (simp add: tx_frame_def)
  ultimately show ?thesis using that run by (simp add: mctp_send_tx_queue_def)
qed

lemma tx_on_bus_ok:
  assumes ok: "endpoint_ok tx P mtu b (add_mset (mb_blk mb) F) w" and len: "unat n \<le> length (mb_data mb)"
  obtains rc w' where "mctp_message_tx_on_bus 0 src dest to tag mb n w = Inr (rc, w')"
    and "endpoint_ok tx P mtu b F w'" and "tx_frame b w w'"
    and "rc = (if bus_state (bus_at w 0) = mctp_bus_state_constructed then - ENXIO
               else if tag AND 7 \<noteq> tag then - EINVAL
               else if tx_msg (bus_at w 0) \<noteq> None then - EBUSY else 0)"
proof -
  let ?bus = "bus_at w 0"
  from ok have sh: "ep_shape tx P mtu b w" and ow: "heap_owns (add_mset (mb_blk mb) (owned w + F)) (heap w)"
    by (simp_all add: endpoint_ok_def)
  from sh have b: "bus_binding ?bus = Some b" and m: "b_mctp (bindings w b)" and g: "good_ops (ops w)"
    and len2: "length (busses w) = 2" and p: "68 \<le> unat (b_pkt_size (bindings w b))"
    by (auto simp: ep_shape_def binding_ok_def)
  obtain h where f: "w_msg_free (Some mb) True w = Inr (w\<lparr>heap := h\<rparr>)" and h: "heap_owns (owned w + F) h"
    using w_msg_free_owns [OF g ow] by blast
  have okf: "endpoint_ok tx P mtu b F (w\<lparr>heap := h\<rparr>)" using sh h by (simp add: endpoint_ok_def)
  have mtu: "MCTP_BODY_SIZE (b_pkt_size (bindings w b)) \<ge> MCTP_BTU"
    using p by (simp add: word_le_nat_alt unat_diff_le)
  consider "bus_state ?bus = mctp_bus_state_constructed \<or> tag AND 7 \<noteq> tag \<or> tx_msg ?bus \<noteq> None"
    | "bus_state ?bus \<noteq> mctp_bus_state_constructed" "tag AND 7 = tag" "tx_msg ?bus = None" by blast
  then show ?thesis
  proof cases
    case 1
    then show ?thesis
      using that [OF _ okf] b f m mtu
      by (auto simp: mctp_message_tx_on_bus_def Let_def simp del: MCTP_BODY_SIZE_def MCTP_BTU_def split: if_splits)
  next
    case 2
    let ?bus' = "?bus\<lparr>tx_msg := Some mb, tx_msglen := n, tx_msgpos := 0, tx_src := src,
                    tx_dest := dest, tx_to := to, tx_tag := tag\<rparr>"
    have "endpoint_ok tx P mtu b F (set_bus 0 ?bus' w)"
      using sh ow 2 len len2 by (simp add: endpoint_defs tx_pending_ok_def owned_def)
    from queue_ok [OF this] obtain w' where q: "mctp_send_tx_queue 0 (set_bus 0 ?bus' w) = Inr w'"
      and ok': "endpoint_ok tx P mtu b F w'" and fr: "tx_frame b (set_bus 0 ?bus' w) w'" by blast
    have "mctp_message_tx_on_bus 0 src dest to tag mb n w = Inr (0, w')"
      using 2 b mtu q by (simp add: mctp_message_tx_on_bus_def Let_def del: MCTP_BODY_SIZE_def MCTP_BTU_def)
    moreover have "tx_frame b w w'" using fr len2 by (simp add: tx_frame_def)
    ultimately show ?thesis using that ok' 2 by simp
  qed
qed

lemma tx_alloced_ok:
  assumes ok: "endpoint_ok tx P mtu b (add_mset (mb_blk mb) F) w" and len: "unat n \<le> length (mb_data mb)"
  obtains rc w' where "mctp_message_tx_alloced eid to tag mb n w = Inr (rc, w')"
    and "endpoint_ok tx P mtu b F w'" and "tx_frame b w w'"
    and "rc = (if tag AND 7 \<noteq> tag then - EINVAL
               else if bus_state (bus_at w 0) = mctp_bus_state_constructed then - ENXIO
               else if tx_msg (bus_at w 0) \<noteq> None then - EBUSY else 0)"
proof (cases "tag AND 7 = tag")
  case True
  from ok have "find_bus_for_eid w eid = Some 0" by (simp add: endpoint_defs find_bus_for_eid_def)
  then show ?thesis
    using that True by (rule_tac tx_on_bus_ok [OF ok len, of "bus_eid (bus_at w 0)" eid to tag])
      (simp add: mctp_message_tx_alloced_def)
next
  case False
  from ok have g: "good_ops (ops w)" and sh: "ep_shape tx P mtu b w"
    and ow: "heap_owns (add_mset (mb_blk mb) (owned w + F)) (heap w)"
    by (auto simp: endpoint_defs)
  from w_msg_free_owns [OF g ow] obtain h where
    "w_msg_free (Some mb) True w = Inr (w\<lparr>heap := h\<rparr>)" "heap_owns (owned w + F) h" by blast
  then show ?thesis using False sh
    by (intro that [of "- EINVAL" "w\<lparr>heap := h\<rparr>"]) (simp_all add: mctp_message_tx_alloced_def endpoint_ok_def)
qed

text \<open>A binding that refuses a full packet with an error other than \<open>-EBUSY\<close>: the loop drops the packet and
  stops, with the rest of the message still pending.\<close>

lemma queue_fails:
  assumes ok: "endpoint_ok tx P mtu b F w" and msg: "tx_msg (bus_at w 0) = Some mb"
    and en: "bus_state (bus_at w 0) = mctp_bus_state_tx_enabled"
    and more: "unat (tx_msgpos (bus_at w 0)) + (mtu - 4) < unat (tx_msglen (bus_at w 0))"
    and refuse: "\<And>pkt rc e. rx_pkt pkt \<Longrightarrow> length (pktbuf_bytes pkt) = mtu \<Longrightarrow>
      tx (b_priv (bindings w b)) pkt = Inr (rc, e) \<Longrightarrow> rc \<noteq> 0 \<and> rc \<noteq> - EBUSY"
  obtains w' where "mctp_send_tx_queue 0 w = Inr w'" and "endpoint_ok tx P mtu b F w'" and "tx_frame b w w'"
    and "tx_msg (bus_at w' 0) = Some mb" and "unat (tx_msgpos (bus_at w' 0)) = unat (tx_msgpos (bus_at w 0)) + (mtu - 4)"
    and "tx_msglen (bus_at w' 0) = tx_msglen (bus_at w 0)"
proof -
  let ?bus = "bus_at w 0" let ?n = "frag_len (bindings w b) ?bus"
  note r = endpoint_ok_tx_ready [OF ok]
  from r have bi: "0 < length (busses w)" and bok: "binding_ok (bindings w b)" "tx_pending_ok ?bus"
    and mtu: "mtu = unat (b_pkt_size (bindings w b))" by (auto simp: tx_ready_def)
  have pos: "tx_msgpos ?bus \<le> tx_msglen ?bus" and dl: "unat (tx_msglen ?bus) \<le> length (mb_data mb)"
    using bok(2) msg by (auto simp: tx_pending_ok_def)
  have m4: "4 \<le> mtu" using bok(1) mtu by (simp add: binding_ok_def)
  have n: "?n = mtu - 4" using more mtu by (simp add: frag_len_def)
  obtain pkt w1 rc e' where nxt: "mctp_next_tx_pkt 0 w = Inr (Some pkt, w1)"
    and snd: "mctp_packet_tx 0 pkt w1 = Inr (rc, tx_upd 0 b (Some mb) (tx_msgpos ?bus)
           (of_nat ?n) (tx_seq ?bus) pkt e' (heap w) (capture_events pkt True w @ [Ev_tx b pkt rc]) w)"
    and t: "tx (b_priv (bindings w b)) pkt = Inr (rc, e')" and pkt: "rx_pkt pkt"
    and bytes: "pktbuf_bytes pkt = hdr_bytes (frag_hdr (bindings w b) ?bus (tx_msgpos ?bus = 0)
            (unat (tx_msgpos ?bus) + ?n = unat (tx_msglen ?bus))) @ take ?n (drop (unat (tx_msgpos ?bus)) (mb_data mb))"
    by (rule one_packet [OF r refl msg en])
  have "length (pktbuf_bytes pkt) = mtu" using bytes n m4 more dl by simp
  from refuse [OF pkt this t] have rc: "rc \<noteq> 0" "rc \<noteq> - EBUSY" by simp_all
  have neq: "unat (tx_msgpos ?bus) + ?n \<noteq> unat (tx_msglen ?bus)" using more n by simp
  let ?w' = "tx_upd 0 b (Some mb) (tx_msgpos ?bus + of_nat ?n) (of_nat ?n) ((tx_seq ?bus + 1) AND 3) pkt e' (heap w)
      (capture_events pkt True w @ [Ev_tx b pkt rc]) w"
  have run: "mctp_send_tx_queue 0 w = Inr ?w'"
    using msg en nxt snd rc complete_more [OF bi pos bok(1) neq refl msg]
    by (simp add: mctp_send_tx_queue_def send_tx_queue.simps)
  from queue_ok [OF ok] obtain w' where "mctp_send_tx_queue 0 w = Inr w'" "endpoint_ok tx P mtu b F w'" "tx_frame b w w'" .
  with run show ?thesis using that [of w'] frag_eom_word(1) [OF bok(1) pos] n bi by simp
qed

lemma tx_alloced_fails:
  assumes ok: "endpoint_ok tx P mtu b (add_mset (mb_blk mb) F) w" and len: "unat n \<le> length (mb_data mb)"
    and idle: "tx_msg (bus_at w 0) = None" and en: "bus_state (bus_at w 0) = mctp_bus_state_tx_enabled"
    and tag: "tag AND 7 = tag" and more: "mtu - 4 < unat n"
    and refuse: "\<And>pkt rc e. rx_pkt pkt \<Longrightarrow> length (pktbuf_bytes pkt) = mtu \<Longrightarrow>
      tx (b_priv (bindings w b)) pkt = Inr (rc, e) \<Longrightarrow> rc \<noteq> 0 \<and> rc \<noteq> - EBUSY"
  obtains w' where "mctp_message_tx_alloced eid to tag mb n w = Inr (0, w')" and "endpoint_ok tx P mtu b F w'"
    and "bus_state (bus_at w' 0) = mctp_bus_state_tx_enabled"
    and "tx_msg (bus_at w' 0) = Some mb" and "unat (tx_msgpos (bus_at w' 0)) = mtu - 4" and "tx_msglen (bus_at w' 0) = n"
proof -
  let ?bus' = "(bus_at w 0)\<lparr>tx_msg := Some mb, tx_msglen := n, tx_msgpos := 0, tx_src := bus_eid (bus_at w 0),
                    tx_dest := eid, tx_to := to, tx_tag := tag\<rparr>"
  let ?w = "set_bus 0 ?bus' w"
  from ok have sh: "ep_shape tx P mtu b w" and ow: "heap_owns (add_mset (mb_blk mb) (owned w + F)) (heap w)"
    by (simp_all add: endpoint_ok_def)
  from sh have b: "bus_binding (bus_at w 0) = Some b" and len2: "length (busses w) = 2"
    and p: "68 \<le> unat (b_pkt_size (bindings w b))" and bus: "find_bus_for_eid w eid = Some 0"
    by (auto simp: ep_shape_def binding_ok_def find_bus_for_eid_def)
  have ok': "endpoint_ok tx P mtu b F ?w"
    using sh ow idle tag len len2 by (simp add: endpoint_defs tx_pending_ok_def owned_def)
  have at: "bus_at ?w 0 = ?bus'" using len2 by simp
  obtain w' where q: "mctp_send_tx_queue 0 ?w = Inr w'" and w': "endpoint_ok tx P mtu b F w'" "tx_frame b ?w w'"
    "tx_msg (bus_at w' 0) = Some mb" "unat (tx_msgpos (bus_at w' 0)) = mtu - 4" "tx_msglen (bus_at w' 0) = n"
    by (rule queue_fails [OF ok']) (use at en more refuse that in simp_all)
  have mtu: "MCTP_BODY_SIZE (b_pkt_size (bindings w b)) \<ge> MCTP_BTU"
    using p by (simp add: word_le_nat_alt unat_diff_le)
  have "mctp_message_tx_alloced eid to tag mb n w = Inr (0, w')"
    using bus b en idle tag mtu q
    by (simp add: mctp_message_tx_alloced_def mctp_message_tx_on_bus_def Let_def del: MCTP_BODY_SIZE_def MCTP_BTU_def)
  then show ?thesis using that w' en at by (simp add: tx_frame_def)
qed

end

end
