(* ===== verification/Mctp_Endpoint_Rx.thy ===== *)
theory Mctp_Endpoint_Rx
  imports Mctp_Endpoint
begin

text \<open>
  Reception on an endpoint: in the context of \<open>safe_tx\<close>, every control request, every complete
  message and every packet a binding hands up is handled without a fault and keeps \<open>endpoint_ok\<close>.
\<close>

section \<open>Control messages on an endpoint\<close>

text \<open>What handling a received message leaves alone: the reassembly contexts and the settings.\<close>

definition rx_frame :: "'e world \<Rightarrow> 'e world \<Rightarrow> bool" where
  "rx_frame w w' \<longleftrightarrow> msg_ctxs w' = msg_ctxs w \<and> message_rx w' = message_rx w \<and>
     message_rx_data w' = message_rx_data w \<and> capture w' = capture w \<and> capture_data w' = capture_data w \<and>
     max_message_size w' = max_message_size w \<and> clock w' = clock w \<and> ops w' = ops w"

lemma tx_frame_rx: "tx_frame b w w' \<Longrightarrow> rx_frame w w'"
  by (simp add: tx_frame_def rx_frame_def)

lemma rx_frame_refl [simp]: "rx_frame w w"
  by (simp add: rx_frame_def)

lemma rx_frame_trans [trans]: "rx_frame w1 w2 \<Longrightarrow> rx_frame w2 w3 \<Longrightarrow> rx_frame w1 w3"
  by (simp add: rx_frame_def)

lemma endpoint_ok_bus_mctp: "endpoint_ok tx P mtu b F w \<Longrightarrow> bus_mctp (bus_at w 0)"
  by (simp add: endpoint_defs)

lemma mctp_bus_set_eid_ok:
  assumes "endpoint_ok tx P mtu b F w"
  obtains rc w' where "mctp_bus_set_eid b eid w = Inr (rc, w')" and "endpoint_ok tx P mtu b F w'"
    and "rx_frame w w'" and "trace w' = trace w"
    and "rc = (if 8 \<le> eid \<and> eid \<noteq> 0xff then 0 else - EINVAL)"
    and "bus_at w' 0 = (bus_at w 0)\<lparr>bus_eid := if 8 \<le> eid \<and> eid \<noteq> 0xff then eid else bus_eid (bus_at w 0)\<rparr>"
proof (cases "8 \<le> eid \<and> eid \<noteq> 0xff")
  case True
  let ?w = "set_bus 0 ((bus_at w 0)\<lparr>bus_eid := eid\<rparr>) w"
  have "mctp_bus_set_eid b eid w = Inr (0, ?w)"
    using assms True by (auto simp: mctp_bus_set_eid_def endpoint_defs not_less)
  moreover have "endpoint_ok tx P mtu b F ?w"
    using assms by (simp add: endpoint_defs tx_pending_ok_def owned_def)
  moreover have "bus_at ?w 0 = (bus_at w 0)\<lparr>bus_eid := eid\<rparr>"
    using assms by (simp add: endpoint_defs)
  ultimately show ?thesis using True by (intro that [of 0 ?w]) (auto simp: rx_frame_def)
next
  case False
  then have "mctp_bus_set_eid b eid w = Inr (- EINVAL, w)"
    by (auto simp: mctp_bus_set_eid_def not_le)
  then show ?thesis using False assms by (intro that [of "- EINVAL" w]) auto
qed

context safe_tx
begin

lemma send_resp_ok:
  assumes ok: "endpoint_ok tx P mtu b F w" and len: "length resp < 2 ^ 64"
  obtains s w' where "send_resp True src tag resp w = Inr (s, w')"
    and "endpoint_ok tx P mtu b F w'" and "tx_frame b w w'"
proof -
  have u: "unat (of_nat (length resp) :: u64) = length resp" using len by (simp add: unat_of_nat)
  from ok have "good_ops (ops w)" "heap_owns (owned w + F) (heap w)"
    by (auto simp: endpoint_defs)
  then obtain p h where a: "w_msg_alloc (of_nat (length resp)) True w = Inr (p, w\<lparr>heap := h\<rparr>)"
    and h: "heap_owns (own p + (owned w + F)) h"
    and mb: "\<And>mb. p = Some mb \<Longrightarrow> mb_size mb = of_nat (length resp) \<and> mb_data mb = []"
    using w_msg_alloc_owns by blast
  show ?thesis
  proof (cases p)
    case None
    then show ?thesis
      using a h ok by (intro that [of False "w\<lparr>heap := h\<rparr>"]) (auto simp: send_resp_def endpoint_ok_def)
  next
    case (Some m)
    let ?m = "m\<lparr>mb_data := resp\<rparr>"
    have bw: "buf_write m 0 resp = Inr ?m" using mb [OF Some] u by (simp add: buf_write_def)
    have "endpoint_ok tx P mtu b (add_mset (mb_blk ?m) F) (w\<lparr>heap := h\<rparr>)"
      using ok h Some by (simp add: endpoint_ok_def)
    then obtain rc w' where "mctp_message_tx_alloced src False tag ?m (of_nat (length resp)) (w\<lparr>heap := h\<rparr>) = Inr (rc, w')"
      "endpoint_ok tx P mtu b F w'" "tx_frame b (w\<lparr>heap := h\<rparr>) w'"
      by (rule tx_alloced_ok [of b ?m F "w\<lparr>heap := h\<rparr>" "of_nat (length resp)" src False tag]) (use u in simp_all)
    then show ?thesis
      using a bw Some tx_frame_trans [OF tx_frame_heap [of b w h], of w']
      by (intro that [of True w']) (simp_all add: send_resp_def)
  qed
qed

lemma ctrl_set_endpoint_id_ok:
  assumes ok: "endpoint_ok tx P mtu b F w" and len: "unat len \<le> length data"
  obtains cc w' where "mctp_ctrl_set_endpoint_id 0 src tag data len w = Inr (cc, w')"
    and "endpoint_ok tx P mtu b F w'" and "rx_frame w w'"
    and "\<exists>evs. trace w' = trace w @ evs \<and> tx_events b evs"
proof (cases "len = 5")
  case False
  then show ?thesis using ok
    by (intro that [of MCTP_CTRL_CC_ERROR_INVALID_LENGTH w]) (simp_all add: mctp_ctrl_set_endpoint_id_def, simp add: tx_events_def)
next
  case True
  then have l: "5 \<le> length data" using len by simp
  obtain rc w1 where s: "mctp_bus_set_eid b (data ! 4) w = Inr (rc, w1)"
    and ok1: "endpoint_ok tx P mtu b F w1" and f1: "rx_frame w w1" and t: "trace w1 = trace w"
    using mctp_bus_set_eid_ok [OF ok] by metis
  let ?resp = "ctrl_hdr_bytes (fill_resp \<lparr>ic_msg_type = data ! 0, rq_dgram_inst = data ! 1, command_code = data ! 2\<rparr>) @
      [MCTP_CTRL_CC_SUCCESS, MCTP_CTRL_SET_EID_STATUS_ACCEPTED, data ! 4, 0]"
  obtain sent w2 where r: "send_resp True src tag ?resp w1 = Inr (sent, w2)"
    and ok2: "endpoint_ok tx P mtu b F w2" and f2: "tx_frame b w1 w2"
    by (rule send_resp_ok [OF ok1, of ?resp src tag]) simp_all
  have b: "bus_binding (bus_at w 0) = Some b" using ok by (simp add: endpoint_defs)
  have tr: "\<exists>evs. trace w2 = trace w @ evs \<and> tx_events b evs" using f2 t by (simp add: tx_frame_def)
  have tr0: "\<exists>evs. trace w = trace w @ evs \<and> tx_events b evs" by (simp add: tx_events_def)
  note run = True l b s r rd8_ok read_ctrl_hdr_ok endpoint_ok_bus_mctp [OF ok1]
  consider "\<not> (data ! 3 AND 3 = 0 \<or> data ! 3 AND 3 = 1)"
    | "data ! 3 AND 3 = 0 \<or> data ! 3 AND 3 = 1" "rc \<noteq> 0"
    | "data ! 3 AND 3 = 0 \<or> data ! 3 AND 3 = 1" "rc = 0" by blast
  then show ?thesis
  proof cases
    case 1
    then show ?thesis using run ok tr0
      by (intro that [of MCTP_CTRL_CC_ERROR_INVALID_DATA w]) (simp_all add: mctp_ctrl_set_endpoint_id_def Let_def)
  next
    case 2
    then show ?thesis using run ok1 f1 tr0 t
      by (intro that [of MCTP_CTRL_CC_ERROR_INVALID_DATA w1]) (auto simp: mctp_ctrl_set_endpoint_id_def Let_def)
  next
    case 3
    then show ?thesis using run ok2 tr rx_frame_trans [OF f1 tx_frame_rx [OF f2]]
      by (intro that [of "if sent then MCTP_CTRL_CC_SUCCESS else MCTP_CTRL_CC_ERROR" w2])
        (auto simp: mctp_ctrl_set_endpoint_id_def Let_def)
  qed
qed

lemma ctrl_get_endpoint_id_ok:
  assumes ok: "endpoint_ok tx P mtu b F w" and len: "unat len \<le> length data"
  obtains cc w' where "mctp_ctrl_get_endpoint_id 0 src tag data len w = Inr (cc, w')"
    and "endpoint_ok tx P mtu b F w'" and "tx_frame b w w'"
proof (cases "len = 3")
  case False
  then show ?thesis using ok
    by (intro that [of MCTP_CTRL_CC_ERROR_INVALID_LENGTH w]) (simp_all add: mctp_ctrl_get_endpoint_id_def)
next
  case True
  let ?resp = "ctrl_hdr_bytes (fill_resp \<lparr>ic_msg_type = data ! 0, rq_dgram_inst = data ! 1, command_code = data ! 2\<rparr>) @
      [MCTP_CTRL_CC_SUCCESS, bus_eid (bus_at w 0), MCTP_CTRL_ENDPOINT_TYPE_SIMPLE OR MCTP_CTRL_ENDPOINT_ID_TYPE_STATIC, 0]"
  obtain sent w2 where "send_resp True src tag ?resp w = Inr (sent, w2)"
    "endpoint_ok tx P mtu b F w2" "tx_frame b w w2"
    by (rule send_resp_ok [OF ok, of ?resp src tag]) simp_all
  then show ?thesis using True len endpoint_ok_bus_mctp [OF ok]
    by (intro that [of "if sent then MCTP_CTRL_CC_SUCCESS else MCTP_CTRL_CC_ERROR" w2])
      (simp_all add: mctp_ctrl_get_endpoint_id_def read_ctrl_hdr_ok)
qed

lemma ctrl_get_version_ok:
  assumes ok: "endpoint_ok tx P mtu b F w" and len: "unat len \<le> length data"
  obtains cc w' where "mctp_ctrl_get_version 0 src tag data len w = Inr (cc, w')"
    and "endpoint_ok tx P mtu b F w'" and "tx_frame b w w'"
proof (cases "len = 4")
  case False
  then show ?thesis using ok
    by (intro that [of MCTP_CTRL_CC_ERROR_INVALID_LENGTH w]) (simp_all add: mctp_ctrl_get_version_def)
next
  case True
  let ?resp = "ctrl_hdr_bytes (fill_resp \<lparr>ic_msg_type = data ! 0, rq_dgram_inst = data ! 1, command_code = data ! 2\<rparr>) @
      [MCTP_CTRL_CC_SUCCESS, MCTP_PROTOCOL_COUNT] @ MCTP_PROTOCOL_VERSIONS"
  obtain sent w2 where r: "send_resp True src tag ?resp w = Inr (sent, w2)"
    "endpoint_ok tx P mtu b F w2" "tx_frame b w w2"
    by (rule send_resp_ok [OF ok, of ?resp src tag]) (simp_all add: MCTP_PROTOCOL_VERSIONS_def)
  show ?thesis
  proof (cases "data ! 3 = 0 \<or> data ! 3 = 0xff")
    case True
    then show ?thesis using r \<open>len = 4\<close> len endpoint_ok_bus_mctp [OF ok]
      by (intro that [of "if sent then MCTP_CTRL_CC_SUCCESS else MCTP_CTRL_CC_ERROR" w2])
        (auto simp: mctp_ctrl_get_version_def read_ctrl_hdr_ok rd8_ok)
  next
    case False
    then show ?thesis using ok \<open>len = 4\<close> len
      by (intro that [of MCTP_CTRL_VERSIONS_NOT_SUPPORTED w]) (auto simp: mctp_ctrl_get_version_def rd8_ok)
  qed
qed

lemma ctrl_get_types_ok:
  assumes ok: "endpoint_ok tx P mtu b F w" and len: "unat len \<le> length data"
  obtains cc w' where "mctp_ctrl_get_types 0 src tag data len w = Inr (cc, w')"
    and "endpoint_ok tx P mtu b F w'" and "tx_frame b w w'"
proof (cases "len = 3")
  case False
  then show ?thesis using ok
    by (intro that [of MCTP_CTRL_CC_ERROR_INVALID_LENGTH w]) (simp_all add: mctp_ctrl_get_types_def)
next
  case True
  let ?n = "unat (num_msg_types (control w))"
  let ?resp = "ctrl_hdr_bytes (fill_resp \<lparr>ic_msg_type = data ! 0, rq_dgram_inst = data ! 1, command_code = data ! 2\<rparr>) @
      [MCTP_CTRL_CC_SUCCESS, ucast (num_msg_types (control w))] @ take ?n (msg_types (control w))"
  from ok have c: "length (msg_types (control w)) = 10" "?n \<le> 10"
    by (auto simp: endpoint_defs control_ok_def word_le_nat_alt)
  obtain sent w2 where "send_resp True src tag ?resp w = Inr (sent, w2)"
    "endpoint_ok tx P mtu b F w2" "tx_frame b w w2"
    by (rule send_resp_ok [OF ok, of ?resp src tag]) (use c in simp_all)
  then show ?thesis using True len endpoint_ok_bus_mctp [OF ok] c
    by (intro that [of "if sent then MCTP_CTRL_CC_SUCCESS else MCTP_CTRL_CC_ERROR" w2])
      (simp_all add: mctp_ctrl_get_types_def read_ctrl_hdr_ok mem_read_def)
qed

end

lemma ctxs_ok_index: "ctxs_ok cs \<Longrightarrow> i < length cs \<Longrightarrow> ctx_wf (cs ! i)"
  by (simp add: ctxs_ok_def)

section \<open>Complete messages on an endpoint\<close>

lemma mctp_dealloc_tag_ok:
  assumes "endpoint_ok tx P mtu b F w"
  obtains w' where "mctp_dealloc_tag 0 l r t w = Inr w'" and "endpoint_ok tx P mtu b F w'"
    and "rx_frame w w'" and "trace w' = trace w" and "bus_at w' 0 = bus_at w 0" 
proof -
  have rt: "\<forall>x\<in>set ((req_tags w)[i := zero_req_tag]). rt_tag x < 8" for i
    using assms set_update_subset_insert [of "req_tags w" i zero_req_tag]
    by (auto simp: endpoint_defs zero_req_tag_def)
  have ok: "endpoint_ok tx P mtu b F (w\<lparr>req_tags := (req_tags w)[i := zero_req_tag]\<rparr>)" for i
    using assms rt [of i] by (simp add: endpoint_defs)
  show ?thesis
  proof (cases "l = 0 \<or> find_idx (\<lambda>r'. rt_local r' = l \<and> rt_remote r' = r \<and> rt_tag r' = t) (req_tags w) = None")
    case True
    then have "mctp_dealloc_tag 0 l r t w = Inr w"
      using assms by (auto simp: mctp_dealloc_tag_def endpoint_defs binding_ok_def)
    then show ?thesis using that assms by simp
  next
    case False
    then obtain i where "find_idx (\<lambda>r'. rt_local r' = l \<and> rt_remote r' = r \<and> rt_tag r' = t) (req_tags w) = Some i"
      by auto
    then have "mctp_dealloc_tag 0 l r t w = Inr (w\<lparr>req_tags := (req_tags w)[i := zero_req_tag]\<rparr>)"
      using False assms by (simp add: mctp_dealloc_tag_def endpoint_defs binding_ok_def)
    then show ?thesis using that ok [of i] by (simp add: rx_frame_def)
  qed
qed

text \<open>An operation that returns, in a state with the property \<open>Q\<close>.\<close>

definition keeps :: "('e world \<Rightarrow> bool) \<Rightarrow> ('a \<times> 'e world) res \<Rightarrow> bool" where
  "keeps Q r \<longleftrightarrow> (\<exists>x w. r = Inr (x, w) \<and> Q w)"

lemma keeps_Inr [simp]: "keeps Q (Inr (x, w)) \<longleftrightarrow> Q w"
  by (simp add: keeps_def)

lemma keeps_if: "(c \<Longrightarrow> keeps Q r) \<Longrightarrow> (\<not> c \<Longrightarrow> keeps Q r') \<Longrightarrow> keeps Q (if c then r else r')"
  by simp

lemma keeps_bind: "keeps Q r \<Longrightarrow> (\<And>x w. Q w \<Longrightarrow> keeps R (k (x, w))) \<Longrightarrow> keeps R (rbind r k)"
  by (auto simp: keeps_def)

lemma keeps_mono: "keeps Q r \<Longrightarrow> (\<And>w. Q w \<Longrightarrow> R w) \<Longrightarrow> keeps R r"
  by (auto simp: keeps_def)

text \<open>Handling a control request: the frame, and only transmissions in the trace.\<close>

definition ctrl_frame :: "nat \<Rightarrow> 'e world \<Rightarrow> 'e world \<Rightarrow> bool" where
  "ctrl_frame b w w' \<longleftrightarrow> rx_frame w w' \<and> (\<exists>evs. trace w' = trace w @ evs \<and> tx_events b evs)"

lemma tx_frame_ctrl: "tx_frame b w w' \<Longrightarrow> ctrl_frame b w w'"
  by (simp add: ctrl_frame_def tx_frame_rx) (simp add: tx_frame_def)

lemma ctrl_frame_refl [simp]: "ctrl_frame b w w"
  by (simp add: tx_frame_ctrl)

lemma ctrl_frame_trans [trans]: "ctrl_frame b w1 w2 \<Longrightarrow> ctrl_frame b w2 w3 \<Longrightarrow> ctrl_frame b w1 w3"
  by (auto simp: ctrl_frame_def intro: rx_frame_trans tx_events_append)

context safe_tx
begin

lemma reply_error_ok:
  assumes ok: "endpoint_ok tx P mtu b F w"
  obtains w' where "reply_error True src tag hdr cc w = Inr w'" and "endpoint_ok tx P mtu b F w'" and "tx_frame b w w'"
proof -
  obtain s w' where "send_resp True src tag (ctrl_hdr_bytes (fill_resp hdr) @ [cc]) w = Inr (s, w')"
    "endpoint_ok tx P mtu b F w'" "tx_frame b w w'"
    by (rule send_resp_ok [OF ok, of "ctrl_hdr_bytes (fill_resp hdr) @ [cc]" src tag]) simp_all
  then show ?thesis using that by (simp add: reply_error_def)
qed

lemma control_handler_keeps:
  assumes ok: "endpoint_ok tx P mtu b F w" and len: "unat len \<le> length data"
  shows "keeps (\<lambda>w'. endpoint_ok tx P mtu b F w' \<and> ctrl_frame b w w') (mctp_control_handler 0 src to tag data len w)"
proof -
  let ?Q = "\<lambda>w'. endpoint_ok tx P mtu b F w' \<and> ctrl_frame b w w'"
  have set_eid: "keeps ?Q (mctp_ctrl_set_endpoint_id 0 src tag data len w)"
    by (rule ctrl_set_endpoint_id_ok [OF ok len, of src tag]) (simp add: ctrl_frame_def)
  have get_eid: "keeps ?Q (mctp_ctrl_get_endpoint_id 0 src tag data len w)"
    by (rule ctrl_get_endpoint_id_ok [OF ok len, of src tag]) (simp add: tx_frame_ctrl)
  have version: "keeps ?Q (mctp_ctrl_get_version 0 src tag data len w)"
    by (rule ctrl_get_version_ok [OF ok len, of src tag]) (simp add: tx_frame_ctrl)
  have types: "keeps ?Q (mctp_ctrl_get_types 0 src tag data len w)"
    by (rule ctrl_get_types_ok [OF ok len, of src tag]) (simp add: tx_frame_ctrl)
  have reply: "keeps ?Q (rbind (if cc \<noteq> 0 then reply_error (bus_mctp (bus_at w' 0)) src tag hdr cc w' else Inr w') (\<lambda>w. Inr (True, w)))"
    if Q: "?Q w'" for cc hdr w'
  proof -
    obtain w2 where "reply_error True src tag hdr cc w' = Inr w2" "endpoint_ok tx P mtu b F w2" "ctrl_frame b w' w2"
      using reply_error_ok [of b F w' src tag hdr cc] Q tx_frame_ctrl by metis
    then show ?thesis using Q by (auto simp: endpoint_ok_bus_mctp intro: ctrl_frame_trans)
  qed
  have d0: "rd8 data 0 = Inr (data ! 0)" if "\<not> len < 1"
    using that len by (intro rd8_ok) (auto simp: word_less_nat_alt)
  have hdr: "read_ctrl_hdr data = Inr \<lparr>ic_msg_type = data ! 0, rq_dgram_inst = data ! 1, command_code = data ! 2\<rparr>"
    if "\<not> len < 3"
    using that len by (intro read_ctrl_hdr_ok) (auto simp: word_less_nat_alt)
  have dispatch: "keeps ?Q
      (if c = MCTP_CTRL_CMD_SET_ENDPOINT_ID then mctp_ctrl_set_endpoint_id 0 src tag data len w
       else if c = MCTP_CTRL_CMD_GET_ENDPOINT_ID then mctp_ctrl_get_endpoint_id 0 src tag data len w
       else if c = MCTP_CTRL_CMD_GET_VERSION_SUPPORT then mctp_ctrl_get_version 0 src tag data len w
       else if c = MCTP_CTRL_CMD_GET_MESSAGE_TYPE_SUPPORT then mctp_ctrl_get_types 0 src tag data len w
       else Inr (MCTP_CTRL_CC_ERROR_UNSUPPORTED_CMD, w))" for c
    using ok set_eid get_eid version types by simp
  have whole: "keeps ?Q (rbind r (\<lambda>(cc, w'). rbind (if cc \<noteq> 0
      then reply_error (bus_mctp (bus_at w' 0)) src tag hdr cc w' else Inr w') (\<lambda>w. Inr (True, w))))"
    if "keeps ?Q r" for r hdr
    by (rule keeps_bind [OF that]) (simp only: split_conv, rule reply)
  consider "\<not> to \<or> len < 1" | "to" "\<not> len < 1" "len < 3" | "to" "\<not> len < 3" by fastforce
  then show ?thesis
  proof cases
    case 3
    then have "\<not> len < 1" by (simp add: word_less_nat_alt)
    then show ?thesis
      unfolding mctp_control_handler_def d0 [OF \<open>\<not> len < 1\<close>] hdr [OF 3(2)] SIZEOF_ctrl_msg_hdr_def rbind_Inr
      by (intro keeps_if whole [OF dispatch]) (use 3 ok in simp_all)
  qed (use ok d0 in \<open>auto simp: mctp_control_handler_def\<close>)
qed

lemma ctrl_handle_msg_keeps:
  assumes ok: "endpoint_ok tx P mtu b F w" and len: "unat len \<le> length data" "3 \<le> unat len"
  shows "keeps (\<lambda>w'. endpoint_ok tx P mtu b F w' \<and> rx_frame w w') (mctp_ctrl_handle_msg 0 src tag to data len w)"
proof -
  have hdr: "read_ctrl_hdr data = Inr \<lparr>ic_msg_type = data ! 0, rq_dgram_inst = data ! 1, command_code = data ! 2\<rparr>"
    using len by (intro read_ctrl_hdr_ok) simp
  have b: "bus_binding (bus_at w 0) = Some b" using ok by (simp add: endpoint_defs)
  have "keeps (\<lambda>w'. endpoint_ok tx P mtu b F w' \<and> rx_frame w w') (mctp_control_handler 0 src to tag data len w)"
    by (rule keeps_mono [OF control_handler_keeps [OF ok len(1)]]) (simp add: ctrl_frame_def)
  then show ?thesis
    unfolding mctp_ctrl_handle_msg_def hdr using ok b
    by (auto simp: rx_frame_def split: option.split)
qed

lemma mctp_rx_ok:
  assumes ok: "endpoint_ok tx P mtu b F w" and len: "unat len \<le> length buf"
  obtains w' where "mctp_rx 0 src dest to tag (Some buf) len w = Inr w'"
    and "endpoint_ok tx P mtu b F w'" and "rx_frame w w'"
proof -
  let ?Q = "\<lambda>w'. endpoint_ok tx P mtu b F w' \<and> rx_frame w w'"
  have rp: "route_policy w = ROUTE_ENDPOINT" using ok by (simp add: endpoint_defs)
  obtain w1 where d: "(if \<not> to then mctp_dealloc_tag 0 dest src tag w else Inr w) = Inr w1"
    and ok1: "endpoint_ok tx P mtu b F w1" and f1: "rx_frame w w1"
    by (rule mctp_dealloc_tag_ok [OF ok, of dest src tag], cases to) (use ok in auto)
  have hdr: "read_ctrl_hdr buf = Inr \<lparr>ic_msg_type = buf ! 0, rq_dgram_inst = buf ! 1, command_code = buf ! 2\<rparr>"
    if "3 \<le> len" using that len by (intro read_ctrl_hdr_ok) (simp add: word_le_nat_alt)
  have msg: "keeps ?Q (mctp_ctrl_handle_msg 0 src tag to buf len w1)" if "3 \<le> len"
    by (rule keeps_mono [OF ctrl_handle_msg_keeps [OF ok1 len]])
      (use that f1 rx_frame_trans in \<open>auto simp: word_le_nat_alt\<close>)
  have "keeps ?Q (if len \<ge> SIZEOF_ctrl_msg_hdr
                   then rbind (read_ctrl_hdr buf) (\<lambda>msg_hdr.
                     if mctp_ctrl_cmd_is_request msg_hdr
                     then mctp_ctrl_handle_msg 0 src tag to buf len w1
                     else Inr (False, w1))
                   else Inr (False, w1))"
    using ok1 f1 msg hdr by auto
  then obtain s w2 where h: "(if len \<ge> SIZEOF_ctrl_msg_hdr
                   then rbind (read_ctrl_hdr buf) (\<lambda>msg_hdr.
                     if mctp_ctrl_cmd_is_request msg_hdr
                     then mctp_ctrl_handle_msg 0 src tag to buf len w1
                     else Inr (False, w1))
                   else Inr (False, w1)) = Inr (s, w2)" and Q2: "?Q w2"
    unfolding keeps_def by blast
  have Qd: "?Q (deliver src to tag buf len w2)"
    using Q2 by (auto simp: deliver_def rx_frame_def split: option.split)
  show ?thesis
  proof (cases "mctp_rx_dest_is_local (bus_at w 0) dest")
    case True
    then have "mctp_rx 0 src dest to tag (Some buf) len w = Inr (if s then w2 else deliver src to tag buf len w2)"
      using rp d h by (simp add: mctp_rx_def)
    then show ?thesis using that Q2 Qd by auto
  next
    case False
    then show ?thesis using that [of w] rp ok by (simp add: mctp_rx_def)
  qed
qed

end

end
