(* ===== verification/Mctp_Assembly.thy ===== *)
theory Mctp_Assembly
  imports Mctp_Endpoint_Rx
begin

text \<open>
  Reassembly as a specification and its refinement. An \<open>assembly\<close> is the message collected so far
  with the sequence number, fragment size and limit that decide on the next fragment; \<open>asm_start\<close>,
  \<open>asm_next\<close> and \<open>asm_last\<close> are the rules for the first, a middle and the last fragment.
  \<open>asm_table\<close> reads the fixed array of contexts as a map of assemblies, and the lemmas
  \<open>rx_start_reuse\<close>, \<open>rx_start_new\<close>, \<open>rx_middle_ok\<close> and \<open>rx_end_ok\<close> show that each branch of
  \<open>mctp_bus_rx\<close> changes this map as the rules say, frees what it drops and keeps \<open>endpoint_ok\<close>.
\<close>

section \<open>Specification of reassembly\<close>

record assembly =
  asm_msg :: bytes
  asm_seq :: u8
  asm_frag :: u64
  asm_limit :: u64

definition asm_add :: "assembly \<Rightarrow> bytes \<Rightarrow> assembly option" where
  "asm_add a body =
     (if length (asm_msg a) + length body \<le> unat (asm_limit a)
      then Some (a\<lparr>asm_msg := asm_msg a @ body\<rparr>) else None)"

definition asm_start :: "u64 \<Rightarrow> u64 \<Rightarrow> u8 \<Rightarrow> bytes \<Rightarrow> assembly option" where
  "asm_start lim sz sq body =
     asm_add \<lparr>asm_msg = [], asm_seq = sq, asm_frag = sz, asm_limit = lim\<rparr> body"

definition asm_next :: "assembly \<Rightarrow> u64 \<Rightarrow> u8 \<Rightarrow> bytes \<Rightarrow> assembly option" where
  "asm_next a sz sq body =
     (if (asm_seq a + 1) mod 4 \<noteq> sq \<or> sz \<noteq> asm_frag a then None
      else asm_add (a\<lparr>asm_seq := sq\<rparr>) body)"

definition asm_last :: "assembly \<Rightarrow> u64 \<Rightarrow> u8 \<Rightarrow> bytes \<Rightarrow> bytes option" where
  "asm_last a sz sq body =
     (if (asm_seq a + 1) mod 4 \<noteq> sq \<or> sz > asm_frag a then None
      else map_option asm_msg (asm_add a body))"

definition asm_of :: "mctp_msg_ctx \<Rightarrow> assembly" where
  "asm_of c = \<lparr>asm_msg = ctx_msg c, asm_seq = ctx_last_seq c, asm_frag = ctx_fragment_size c,
     asm_limit = ctx_buf_alloc_size c\<rparr>"

definition asm_table :: "mctp_msg_ctx list \<Rightarrow> u8 \<times> u8 \<times> u8 \<Rightarrow> assembly option" where
  "asm_table cs k = map_option asm_of (ctx_table cs k)"

section \<open>Updates of the context table\<close>

definition ctx_upd :: "nat \<Rightarrow> mctp_msg_ctx \<Rightarrow> heap \<Rightarrow> 'e world \<Rightarrow> 'e world" where
  "ctx_upd i c h w = w\<lparr>msg_ctxs := (msg_ctxs w)[i := c], heap := h\<rparr>"

lemma ctx_msg_length: "ctx_wf c \<Longrightarrow> ctx_buf c = Some mb \<Longrightarrow> length (ctx_msg c) = unat (ctx_buf_size c)"
  by (simp add: ctx_wf_def ctx_msg_def)

lemma asm_of_seq [simp]: "asm_of (c\<lparr>ctx_last_seq := s\<rparr>) = (asm_of c)\<lparr>asm_seq := s\<rparr>"
  by (simp add: asm_of_def ctx_msg_def split: option.split)

lemma asm_table_lookup:
  "asm_table (msg_ctxs w) (s, d, t) =
     map_option (\<lambda>i. asm_of (msg_ctxs w ! i)) (mctp_msg_ctx_lookup w s d t)"
  by (simp add: asm_table_def slot_map_def mctp_msg_ctx_lookup_slot option.map_comp comp_def)

lemma ep_shape_ctx_upd:
  "ctxs_ok ((msg_ctxs w)[i := c]) \<Longrightarrow> ep_shape tx P mtu b w \<Longrightarrow> ep_shape tx P mtu b (ctx_upd i c h w)"
  by (simp add: ep_shape_def ctx_upd_def bus_at_def)

lemma owned_ctx_upd [simp]:
  "owned (ctx_upd i c h w) = own (tx_msg (bus_at w 0)) + ctx_own ((msg_ctxs w)[i := c])"
  by (simp add: owned_def ctx_upd_def bus_at_def)

lemma heap_ctx_upd [simp]: "heap (ctx_upd i c h w) = h" "msg_ctxs (ctx_upd i c h w) = (msg_ctxs w)[i := c]"
  by (simp_all add: ctx_upd_def)

lemma set_ctx_ctx_upd [simp]: "set_ctx i c' (ctx_upd i c h w) = ctx_upd i c' h w"
  by (cases w) (simp add: set_ctx_def ctx_upd_def)

lemma ctx_upd_upd [simp]: "(ctx_upd i c h w)\<lparr>msg_ctxs := cs, heap := h'\<rparr> = w\<lparr>msg_ctxs := cs, heap := h'\<rparr>"
  by (cases w) (simp add: ctx_upd_def)

lemma ctxs_ok_update:
  assumes "ctxs_ok cs" and "ctx_wf c" and "ctxs_unique (cs[i := c])"
  shows "ctxs_ok (cs[i := c])"
  using assms set_update_subset_insert [of cs i c] by (auto simp: ctxs_ok_def)

lemma ctx_rewrite_ok:
  assumes ok: "endpoint_ok tx P mtu b F w" and i: "i < length (msg_ctxs w)" and used: "ctx_used (msg_ctxs w ! i)"
    and c: "ctx_wf c" "ctx_key c = ctx_key (msg_ctxs w ! i)" "own (ctx_buf c) = own (ctx_buf (msg_ctxs w ! i))"
  shows "endpoint_ok tx P mtu b F (ctx_upd i c (heap w) w)"
    and "asm_table ((msg_ctxs w)[i := c]) = (asm_table (msg_ctxs w))(ctx_key c \<mapsto> asm_of c)"
proof -
  from ok have cs: "ctxs_ok (msg_ctxs w)" by (simp add: endpoint_defs)
  then have u: "ctxs_unique (msg_ctxs w)" by (simp add: ctxs_ok_def)
  have cu: "ctx_used c" using c(3) used by (auto simp: ctx_used_def own_def split: option.splits)
  show "endpoint_ok tx P mtu b F (ctx_upd i c (heap w) w)"
    using ok ctxs_ok_update [OF cs c(1) ctxs.unique_rewrite [OF u i used c(2)]] ctx_own_rewrite [OF i c(3)]
    by (simp add: endpoint_ok_def ep_shape_ctx_upd) (simp add: owned_def)
  show "asm_table ((msg_ctxs w)[i := c]) = (asm_table (msg_ctxs w))(ctx_key c \<mapsto> asm_of c)"
    using ctxs.map_rewrite [OF u i used c(2) cu] by (simp add: asm_table_def fun_eq_iff)
qed

lemma mctp_msg_ctx_drop_ok:
  assumes ok: "endpoint_ok tx P mtu b F w" and i: "i < length (msg_ctxs w)" and used: "ctx_used (msg_ctxs w ! i)"
  obtains h where "mctp_msg_ctx_drop 0 i w = Inr (ctx_upd i ((msg_ctxs w ! i)\<lparr>ctx_buf := None\<rparr>) h w)"
    and "endpoint_ok tx P mtu b F (ctx_upd i ((msg_ctxs w ! i)\<lparr>ctx_buf := None\<rparr>) h w)"
    and "asm_table ((msg_ctxs w)[i := (msg_ctxs w ! i)\<lparr>ctx_buf := None\<rparr>]) =
         (asm_table (msg_ctxs w))(ctx_key (msg_ctxs w ! i) := None)"
proof -
  let ?c = "(msg_ctxs w ! i)\<lparr>ctx_buf := None\<rparr>"
  obtain mb where mb: "ctx_buf (msg_ctxs w ! i) = Some mb" using used by (auto simp: ctx_used_def)
  from ok have cs: "ctxs_ok (msg_ctxs w)" and g: "good_ops (ops w)" and m: "bus_mctp (bus_at w 0)"
    by (simp_all add: endpoint_defs)
  then have u: "ctxs_unique (msg_ctxs w)" by (simp add: ctxs_ok_def)
  have "heap_owns (add_mset (mb_blk mb) (own (tx_msg (bus_at w 0)) + ctx_own ((msg_ctxs w)[i := ?c]) + F)) (heap w)"
    using ok ctx_own_drop [OF i, of ?c] mb by (simp add: endpoint_ok_def owned_def)
  from w_msg_free_owns [OF g this] obtain h where
    f: "w_msg_free (Some mb) True w = Inr (w\<lparr>heap := h\<rparr>)" and
    h: "heap_owns (own (tx_msg (bus_at w 0)) + ctx_own ((msg_ctxs w)[i := ?c]) + F) h" by blast
  have "mctp_msg_ctx_drop 0 i w = Inr (ctx_upd i ?c h w)"
    using f m mb by (simp add: mctp_msg_ctx_drop_def set_ctx_def ctx_upd_def)
  moreover have "endpoint_ok tx P mtu b F (ctx_upd i ?c h w)"
    using ok h ctxs_ok_update [OF cs _ ctxs.unique_release [OF u i], of "msg_ctxs w ! i"]
    by (simp add: endpoint_ok_def ep_shape_ctx_upd ctx_wf_def)
  moreover have "asm_table ((msg_ctxs w)[i := ?c]) = (asm_table (msg_ctxs w))(ctx_key (msg_ctxs w ! i) := None)"
    using ctxs.map_release [OF u i used] by (simp add: asm_table_def fun_eq_iff)
  ultimately show ?thesis by (rule that)
qed

text \<open>Adding a fragment to a context in use, against the specification.\<close>

lemma add_pkt_asm:
  assumes ok: "endpoint_ok tx P mtu b F w" and i: "i < length (msg_ctxs w)" and used: "ctx_used (msg_ctxs w ! i)"
    and pkt: "rx_pkt pkt"
  obtains (full) "mctp_msg_ctx_add_pkt i pkt w = Inr (-1, w)"
      "asm_add (asm_of (msg_ctxs w ! i)) (drop 4 (pktbuf_bytes pkt)) = None"
  | (fits) c where "mctp_msg_ctx_add_pkt i pkt w = Inr (0, ctx_upd i c (heap w) w)"
      "asm_add (asm_of (msg_ctxs w ! i)) (drop 4 (pktbuf_bytes pkt)) = Some (asm_of c)"
      "ctx_wf c" "ctx_key c = ctx_key (msg_ctxs w ! i)" "own (ctx_buf c) = own (ctx_buf (msg_ctxs w ! i))"
proof -
  let ?c = "msg_ctxs w ! i"
  obtain mb where mb: "ctx_buf ?c = Some mb" using used by (auto simp: ctx_used_def)
  have wf: "ctx_wf ?c" using ok i ctxs_ok_index by (auto simp: endpoint_defs)
  note len = ctx_msg_length [OF wf mb]
  show ?thesis
  proof (cases "unat (ctx_buf_size ?c) + (length (pktbuf_bytes pkt) - 4) \<le> unat (ctx_buf_alloc_size ?c)")
    case True
    from mctp_msg_ctx_add_pkt_fits [OF refl wf mb pkt True] obtain c' where
      c': "mctp_msg_ctx_add_pkt i pkt w = Inr (0, set_ctx i c' w)" "ctx_wf c'"
      "ctx_msg c' = ctx_msg ?c @ drop 4 (pktbuf_bytes pkt)" "ctx_key c' = ctx_key ?c"
      "ctx_last_seq c' = ctx_last_seq ?c" "ctx_fragment_size c' = ctx_fragment_size ?c"
      "ctx_buf_alloc_size c' = ctx_buf_alloc_size ?c" "\<exists>mb'. ctx_buf c' = Some mb' \<and> mb_blk mb' = mb_blk mb"
      by metis
    have "set_ctx i c' w = ctx_upd i c' (heap w) w" by (simp add: set_ctx_def ctx_upd_def)
    then show ?thesis using c' mb len True by (intro fits [of c']) (auto simp: asm_add_def asm_of_def)
  next
    case False
    then show ?thesis
      using full mctp_msg_ctx_add_pkt_full [OF refl pkt, of w i] len by (simp add: asm_add_def asm_of_def)
  qed
qed

lemma rx_middle_ok:
  assumes ok: "endpoint_ok tx P mtu b F w" and pkt: "rx_pkt pkt"
    and k: "k = (hdr_src hdr, hdr_dest hdr, fst_tag (flags_seq_tag hdr))"
  obtains cs h where "rx_middle 0 hdr pkt w = Inr (w\<lparr>msg_ctxs := cs, heap := h\<rparr>)"
    and "endpoint_ok tx P mtu b F (w\<lparr>msg_ctxs := cs, heap := h\<rparr>)"
    and "asm_table cs = (asm_table (msg_ctxs w))(k :=
       Option.bind (asm_table (msg_ctxs w) k)
         (\<lambda>a. asm_next a (mctp_pktbuf_size pkt) (fst_seq (flags_seq_tag hdr)) (drop 4 (pktbuf_bytes pkt))))"
proof -
  let ?seq = "fst_seq (flags_seq_tag hdr)"
  let ?body = "drop 4 (pktbuf_bytes pkt)"
  note that' = that
  note lk = asm_table_lookup [of w "hdr_src hdr" "hdr_dest hdr" "fst_tag (flags_seq_tag hdr)", folded k]
  show ?thesis
  proof (cases "mctp_msg_ctx_lookup w (hdr_src hdr) (hdr_dest hdr) (fst_tag (flags_seq_tag hdr))")
    case None
    then show ?thesis using that [where cs = "msg_ctxs w" and h = "heap w"] ok lk
      by (simp add: rx_middle_def Let_def fun_upd_idem)
  next
    case (Some i)
    let ?c = "msg_ctxs w ! i"
    from mctp_msg_ctx_lookup_SomeD [OF Some] have i: "i < length (msg_ctxs w)" and used: "ctx_used ?c"
      and key: "ctx_key ?c = k" using k by auto
    have tk: "asm_table (msg_ctxs w) k = Some (asm_of ?c)" using lk Some by simp
    from mctp_msg_ctx_drop_ok [OF ok i used] obtain h where
      drop: "mctp_msg_ctx_drop 0 i w = Inr (ctx_upd i (?c\<lparr>ctx_buf := None\<rparr>) h w)"
      "endpoint_ok tx P mtu b F (ctx_upd i (?c\<lparr>ctx_buf := None\<rparr>) h w)"
      "asm_table ((msg_ctxs w)[i := ?c\<lparr>ctx_buf := None\<rparr>]) = (asm_table (msg_ctxs w))(k := None)"
      unfolding key by blast
    have dropped: thesis if "rx_middle 0 hdr pkt w = mctp_msg_ctx_drop 0 i w"
      "asm_next (asm_of ?c) (mctp_pktbuf_size pkt) ?seq ?body = None"
      by (rule that' [where cs = "(msg_ctxs w)[i := ?c\<lparr>ctx_buf := None\<rparr>]" and h = h])
        (use that drop tk in \<open>simp_all add: ctx_upd_def\<close>)
    show ?thesis
    proof (cases "(ctx_last_seq ?c + 1) mod 4 \<noteq> ?seq \<or> mctp_pktbuf_size pkt \<noteq> ctx_fragment_size ?c")
      case True
      then show ?thesis using Some
        by (intro dropped) (auto simp: rx_middle_def Let_def asm_next_def asm_of_def)
    next
      case False
      then have nxt: "asm_next (asm_of ?c) (mctp_pktbuf_size pkt) ?seq ?body =
          map_option (\<lambda>a. a\<lparr>asm_seq := ?seq\<rparr>) (asm_add (asm_of ?c) ?body)"
        by (simp add: asm_next_def asm_add_def asm_of_def)
      from ok i used pkt show ?thesis
      proof (cases rule: add_pkt_asm)
        case full
        then show ?thesis using Some False nxt by (intro dropped) (simp_all add: rx_middle_def Let_def)
      next
        case (fits c)
        let ?c' = "c\<lparr>ctx_last_seq := ?seq\<rparr>"
        have c': "ctx_wf ?c'" "ctx_key ?c' = ctx_key ?c" "own (ctx_buf ?c') = own (ctx_buf ?c)"
          using fits by (auto simp: ctx_wf_def ctx_key_def split: option.splits)
        have "rx_middle 0 hdr pkt w = Inr (ctx_upd i ?c' (heap w) w)"
          using fits(1) Some False i by (simp add: rx_middle_def Let_def ctx_upd_def set_ctx_def)
        then show ?thesis
          using that [where cs = "(msg_ctxs w)[i := ?c']" and h = "heap w"] ctx_rewrite_ok [OF ok i used c'] tk nxt fits(2) key c'(2)
          by (simp add: ctx_upd_def)
      qed
    qed
  qed
qed


text \<open>A new message needs a context: one that is already assembling under the same key, or a free
  slot and a buffer.\<close>

definition slot_available :: "'e world \<Rightarrow> u8 \<times> u8 \<times> u8 \<Rightarrow> bool" where
  "slot_available w k \<longleftrightarrow> asm_table (msg_ctxs w) k \<noteq> None \<or>
     (find_idx (\<lambda>c. ctx_buf c = None) (msg_ctxs w) \<noteq> None \<and>
      (case w_msg_alloc (max_message_size w) True w of Inr (Some mb, w') \<Rightarrow> True | _ \<Rightarrow> False))"

definition start_limit :: "'e world \<Rightarrow> u8 \<times> u8 \<times> u8 \<Rightarrow> u64" where
  "start_limit w k = (case asm_table (msg_ctxs w) k of None \<Rightarrow> max_message_size w | Some a \<Rightarrow> asm_limit a)"

lemma rx_start_tail:
  assumes ok: "endpoint_ok tx P mtu b F w" and pkt: "rx_pkt pkt" and i: "i < length (msg_ctxs w)"
    and c: "ctx_used (msg_ctxs w ! i)" "ctx_key (msg_ctxs w ! i) = k" "ctx_msg (msg_ctxs w ! i) = []"
      "ctx_fragment_size (msg_ctxs w ! i) = sz"
  obtains cs h where "rbind (mctp_msg_ctx_add_pkt i pkt w) (\<lambda>(rc, w).
        if rc \<noteq> 0 then mctp_msg_ctx_drop 0 i w
        else Inr (set_ctx i ((msg_ctxs w ! i)\<lparr>ctx_last_seq := sq\<rparr>) w)) = Inr (w\<lparr>msg_ctxs := cs, heap := h\<rparr>)"
    and "endpoint_ok tx P mtu b F (w\<lparr>msg_ctxs := cs, heap := h\<rparr>)"
    and "asm_table cs = (asm_table (msg_ctxs w))(k :=
       asm_start (ctx_buf_alloc_size (msg_ctxs w ! i)) sz sq (drop 4 (pktbuf_bytes pkt)))"
proof -
  let ?c = "msg_ctxs w ! i" and ?body = "drop 4 (pktbuf_bytes pkt)"
  have st: "asm_start (ctx_buf_alloc_size ?c) sz sq ?body = map_option (\<lambda>a. a\<lparr>asm_seq := sq\<rparr>) (asm_add (asm_of ?c) ?body)"
    using c by (simp add: asm_start_def asm_add_def asm_of_def)
  from ok i c(1) pkt show ?thesis
  proof (cases rule: add_pkt_asm)
    case full
    from mctp_msg_ctx_drop_ok [OF ok i c(1)] obtain h where
      "mctp_msg_ctx_drop 0 i w = Inr (ctx_upd i (?c\<lparr>ctx_buf := None\<rparr>) h w)"
      "endpoint_ok tx P mtu b F (ctx_upd i (?c\<lparr>ctx_buf := None\<rparr>) h w)"
      "asm_table ((msg_ctxs w)[i := ?c\<lparr>ctx_buf := None\<rparr>]) = (asm_table (msg_ctxs w))(k := None)"
      unfolding c(2) by blast
    then show ?thesis using full st
      by (intro that [where cs = "(msg_ctxs w)[i := ?c\<lparr>ctx_buf := None\<rparr>]" and h = h]) (simp_all add: ctx_upd_def)
  next
    case (fits c1)
    let ?c' = "c1\<lparr>ctx_last_seq := sq\<rparr>"
    have c': "ctx_wf ?c'" "ctx_key ?c' = ctx_key ?c" "own (ctx_buf ?c') = own (ctx_buf ?c)"
      using fits by (auto simp: ctx_wf_def ctx_key_def split: option.splits)
    show ?thesis
      using ctx_rewrite_ok [OF ok i c(1) c'] fits(1,2) st i c(2) c'(2)
      by (intro that [where cs = "(msg_ctxs w)[i := ?c']" and h = "heap w"])
        (simp_all add: ctx_upd_def set_ctx_def)
  qed
qed

lemma rx_start_reuse:
  assumes ok: "endpoint_ok tx P mtu b F w" and pkt: "rx_pkt pkt"
    and k: "k = (hdr_src hdr, hdr_dest hdr, fst_tag (flags_seq_tag hdr))"
    and a: "asm_table (msg_ctxs w) k = Some a"
  obtains cs h where "rx_start 0 hdr pkt w = Inr (w\<lparr>msg_ctxs := cs, heap := h\<rparr>)"
    and "endpoint_ok tx P mtu b F (w\<lparr>msg_ctxs := cs, heap := h\<rparr>)"
    and "asm_table cs = (asm_table (msg_ctxs w))(k :=
       asm_start (asm_limit a) (mctp_pktbuf_size pkt) (fst_seq (flags_seq_tag hdr)) (drop 4 (pktbuf_bytes pkt)))"
proof -
  from a obtain i where lk: "mctp_msg_ctx_lookup w (hdr_src hdr) (hdr_dest hdr) (fst_tag (flags_seq_tag hdr)) = Some i"
    and ai: "a = asm_of (msg_ctxs w ! i)" unfolding k asm_table_lookup by auto
  let ?c = "(msg_ctxs w ! i)\<lparr>ctx_buf_size := 0, ctx_fragment_size := mctp_pktbuf_size pkt\<rparr>"
  let ?w = "ctx_upd i ?c (heap w) w"
  from mctp_msg_ctx_lookup_SomeD [OF lk] have i: "i < length (msg_ctxs w)" and used: "ctx_used (msg_ctxs w ! i)"
    and key: "ctx_key (msg_ctxs w ! i) = k" using k by auto
  have wf: "ctx_wf (msg_ctxs w ! i)" using ok i ctxs_ok_index by (auto simp: endpoint_defs)
  have c: "ctx_wf ?c" "ctx_key ?c = ctx_key (msg_ctxs w ! i)" "own (ctx_buf ?c) = own (ctx_buf (msg_ctxs w ! i))"
    using wf by (auto simp: ctx_wf_def ctx_key_def split: option.splits)
  note ok1 = ctx_rewrite_ok [OF ok i used c]
  have c1: "ctx_used ?c" "ctx_key ?c = k" "ctx_msg ?c = []"
    using used key by (auto simp: ctx_used_def ctx_key_def ctx_msg_def split: option.splits)
  have c1': "i < length (msg_ctxs ?w)" "ctx_used (msg_ctxs ?w ! i)" "ctx_key (msg_ctxs ?w ! i) = k"
    "ctx_msg (msg_ctxs ?w ! i) = []" "ctx_fragment_size (msg_ctxs ?w ! i) = mctp_pktbuf_size pkt"
    using c1 i by simp_all
  obtain cs h where t: "rbind (mctp_msg_ctx_add_pkt i pkt ?w) (\<lambda>(rc, w).
        if rc \<noteq> 0 then mctp_msg_ctx_drop 0 i w
        else Inr (set_ctx i ((msg_ctxs w ! i)\<lparr>ctx_last_seq := fst_seq (flags_seq_tag hdr)\<rparr>) w)) = Inr (?w\<lparr>msg_ctxs := cs, heap := h\<rparr>)"
    "endpoint_ok tx P mtu b F (?w\<lparr>msg_ctxs := cs, heap := h\<rparr>)"
    "asm_table cs = (asm_table (msg_ctxs ?w))(k :=
       asm_start (ctx_buf_alloc_size (msg_ctxs ?w ! i)) (mctp_pktbuf_size pkt) (fst_seq (flags_seq_tag hdr)) (drop 4 (pktbuf_bytes pkt)))"
    by (rule rx_start_tail [OF ok1(1) pkt c1', of "fst_seq (flags_seq_tag hdr)"])
  have "rx_start 0 hdr pkt w = Inr (w\<lparr>msg_ctxs := cs, heap := h\<rparr>)"
    using lk t(1) i by (simp add: rx_start_def mctp_msg_ctx_reset_def set_ctx_def ctx_upd_def Let_def)
  then show ?thesis
    using that t(2,3) ok1(2) c1 ai i by (simp add: ctx_upd_def asm_of_def)
qed

text \<open>A new context: there is no free one, no memory for its buffer, or it is an empty assembly.\<close>

lemma mctp_msg_ctx_create_cases:
  assumes ok: "endpoint_ok tx P mtu b F w" and lk: "mctp_msg_ctx_lookup w src dest tag = None"
  obtains (none) cs h where "mctp_msg_ctx_create src dest tag w = Inr (None, w\<lparr>msg_ctxs := cs, heap := h\<rparr>)"
      and "endpoint_ok tx P mtu b F (w\<lparr>msg_ctxs := cs, heap := h\<rparr>)" and "asm_table cs = asm_table (msg_ctxs w)"
      and "\<not> slot_available w (src, dest, tag)"
  | (created) i c h where "mctp_msg_ctx_create src dest tag w = Inr (Some i, ctx_upd i c h w)"
      and "i < length (msg_ctxs w)" and "endpoint_ok tx P mtu b F (ctx_upd i c h w)"
      and "ctx_used c" and "ctx_wf c" and "ctx_key c = (src, dest, tag)" and "ctx_msg c = []"
      and "ctx_buf_alloc_size c = max_message_size w"
      and "asm_table ((msg_ctxs w)[i := c]) = (asm_table (msg_ctxs w))((src, dest, tag) \<mapsto> asm_of c)"
      and "slot_available w (src, dest, tag)"
proof (cases "find_idx (\<lambda>c. ctx_buf c = None) (msg_ctxs w)")
  case None
  have a: "asm_table (msg_ctxs w) (src, dest, tag) = None" using lk unfolding asm_table_lookup by simp
  show ?thesis using none [where cs = "msg_ctxs w" and h = "heap w"] None ok a
    by (simp add: mctp_msg_ctx_create_def slot_available_def)
next
  case (Some i)
  let ?c = "(msg_ctxs w ! i)\<lparr>ctx_src := src, ctx_dest := dest, ctx_tag := tag, ctx_buf_size := 0, ctx_buf_alloc_size := max_message_size w\<rparr>"
  have a: "asm_table (msg_ctxs w) (src, dest, tag) = None" using lk unfolding asm_table_lookup by simp
  from find_idx_SomeD [OF Some] have i: "i < length (msg_ctxs w)" and free: "ctx_buf (msg_ctxs w ! i) = None" by auto
  from ok have g: "good_ops (ops w)" and ow: "heap_owns (owned w + F) (heap w)" and cs: "ctxs_ok (msg_ctxs w)"
    by (auto simp: endpoint_defs)
  have u: "ctxs_unique (msg_ctxs w)" using cs by (simp add: ctxs_ok_def)
  obtain p h where
    al: "w_msg_alloc (max_message_size w) True w = Inr (p, w\<lparr>heap := h\<rparr>)" and h: "heap_owns (own p + (owned w + F)) h"
    and mb: "\<And>mb. p = Some mb \<Longrightarrow> mb_size mb = max_message_size w \<and> mb_data mb = []"
    using w_msg_alloc_owns [OF g ow] by blast
  let ?n = "?c\<lparr>ctx_buf := p\<rparr>"
  have cr: "mctp_msg_ctx_create src dest tag w = Inr (if p = None then None else Some i, ctx_upd i ?n h w)"
    using Some al by (simp add: mctp_msg_ctx_create_def Let_def set_ctx_def ctx_upd_def)
  have nu: "\<not> ctx_used (msg_ctxs w ! i)" and wf: "ctx_wf ?n" and key: "ctx_key ?n = (src, dest, tag)" and msg: "ctx_msg ?n = []"
    using free mb by (cases p; simp add: ctx_used_def ctx_wf_def ctx_key_def ctx_msg_def)+
  have fr: "slot_find ctx_used ctx_key (msg_ctxs w) (ctx_key ?n) = None"
    using lk unfolding mctp_msg_ctx_lookup_slot key .
  have un: "ctxs_unique ((msg_ctxs w)[i := ?n])"
    using ctxs.unique_fill [OF u fr i] by simp
  have ok': "endpoint_ok tx P mtu b F (ctx_upd i ?n h w)"
    using ok h free ctx_own_fill [OF i free, of ?n] ctxs_ok_update [OF cs wf un]
    by (simp add: endpoint_ok_def ep_shape_ctx_upd) (simp add: owned_def ac_simps)
  show ?thesis
  proof (cases p)
    case None
    have "asm_table ((msg_ctxs w)[i := ?n]) = asm_table (msg_ctxs w)"
      using ctxs.map_idle [OF u i nu, of ?n] None by (simp add: asm_table_def fun_eq_iff ctx_used_def)
    then show ?thesis using cr None ok' a al Some
      by (intro none [where cs = "(msg_ctxs w)[i := ?n]" and h = h]) (simp_all add: ctx_upd_def slot_available_def)
  next
    case (Some m)
    then have cu: "ctx_used ?n" by (simp add: ctx_used_def)
    have "asm_table ((msg_ctxs w)[i := ?n]) = (asm_table (msg_ctxs w))((src, dest, tag) \<mapsto> asm_of ?n)"
      using ctxs.map_fill [OF u fr i nu cu] key by (simp add: asm_table_def fun_eq_iff)
    then show ?thesis using cr Some ok' cu wf key msg al i \<open>find_idx _ _ = Some i\<close>
      by (intro created [of i ?n h]) (simp_all add: slot_available_def)
  qed
qed

lemma rx_start_new:
  assumes ok: "endpoint_ok tx P mtu b F w" and pkt: "rx_pkt pkt"
    and k: "k = (hdr_src hdr, hdr_dest hdr, fst_tag (flags_seq_tag hdr))"
    and a: "asm_table (msg_ctxs w) k = None"
  obtains cs h where "rx_start 0 hdr pkt w = Inr (w\<lparr>msg_ctxs := cs, heap := h\<rparr>)"
    and "endpoint_ok tx P mtu b F (w\<lparr>msg_ctxs := cs, heap := h\<rparr>)"
    and "asm_table cs = (asm_table (msg_ctxs w))(k := if slot_available w k then
       asm_start (max_message_size w) (mctp_pktbuf_size pkt) (fst_seq (flags_seq_tag hdr)) (drop 4 (pktbuf_bytes pkt))
       else None)"
proof -
  let ?sq = "fst_seq (flags_seq_tag hdr)"
  have lk: "mctp_msg_ctx_lookup w (hdr_src hdr) (hdr_dest hdr) (fst_tag (flags_seq_tag hdr)) = None"
    using a unfolding k asm_table_lookup by auto
  from ok lk show ?thesis
  proof (cases rule: mctp_msg_ctx_create_cases)
    case (none cs h)
    then show ?thesis using lk a k by (intro that [where cs = cs and h = h]) (simp_all add: rx_start_def Let_def fun_upd_idem)
  next
    case (created i c h)
    let ?n = "c\<lparr>ctx_fragment_size := mctp_pktbuf_size pkt\<rparr>" and ?w1 = "ctx_upd i c h w"
    let ?w = "ctx_upd i ?n h w"
    have at: "i < length (msg_ctxs ?w1)" "msg_ctxs ?w1 ! i = c" using created(2) by simp_all
    have w: "ctx_upd i ?n (heap ?w1) ?w1 = ?w" by (simp add: ctx_upd_def)
    have n: "ctx_wf ?n" "ctx_key ?n = ctx_key (msg_ctxs ?w1 ! i)" "own (ctx_buf ?n) = own (ctx_buf (msg_ctxs ?w1 ! i))"
      using created(5) at(2) by (auto simp: ctx_wf_def ctx_key_def split: option.splits)
    note ok1 = ctx_rewrite_ok [OF created(3) at(1) _ n, unfolded at(2) w, OF created(4)]
    have c1: "i < length (msg_ctxs ?w)" "ctx_used (msg_ctxs ?w ! i)" "ctx_key (msg_ctxs ?w ! i) = k"
      "ctx_msg (msg_ctxs ?w ! i) = []" "ctx_fragment_size (msg_ctxs ?w ! i) = mctp_pktbuf_size pkt"
      using created(2,4,6,7) k by (auto simp: ctx_used_def ctx_key_def ctx_msg_def)
    obtain cs' h' where t: "rbind (mctp_msg_ctx_add_pkt i pkt ?w) (\<lambda>(rc, w).
          if rc \<noteq> 0 then mctp_msg_ctx_drop 0 i w
          else Inr (set_ctx i ((msg_ctxs w ! i)\<lparr>ctx_last_seq := ?sq\<rparr>) w)) = Inr (?w\<lparr>msg_ctxs := cs', heap := h'\<rparr>)"
      "endpoint_ok tx P mtu b F (?w\<lparr>msg_ctxs := cs', heap := h'\<rparr>)"
      "asm_table cs' = (asm_table (msg_ctxs ?w))(k :=
         asm_start (ctx_buf_alloc_size (msg_ctxs ?w ! i)) (mctp_pktbuf_size pkt) ?sq (drop 4 (pktbuf_bytes pkt)))"
      by (rule rx_start_tail [OF ok1(1) pkt c1, of ?sq])
    have tab: "(asm_table (msg_ctxs ?w))(k := z) = (asm_table (msg_ctxs w))(k := z)" for z
      using ok1(2) created(9) c1(3) k created(2) by (simp add: ctx_key_def)
    have "rx_start 0 hdr pkt w = Inr (w\<lparr>msg_ctxs := cs', heap := h'\<rparr>)"
      using lk created(1,2) t(1) by (simp add: rx_start_def Let_def)
    then show ?thesis
      using that t(2,3) tab created(2,8,10) k by simp
  qed
qed

end
