(* ===== verification/Mctp_Receive.thy ===== *)
theory Mctp_Receive
  imports Mctp_Assembly
begin

text \<open>
  The whole receive operation of an endpoint against its specification. \<open>reassemble\<close> says what one
  packet does to the assemblies and which message it completes; \<open>bus_rx_accepts\<close> shows that
  \<open>mctp_bus_rx\<close> does exactly this on every packet an endpoint accepts, delivering a completed
  user message with one call of the message handler, \<open>bus_rx_rejects\<close> that it changes nothing on
  any other packet, and \<open>bus_rx_safe\<close> that no packet at all makes it fault or leak.
\<close>

section \<open>The last fragment and single packets\<close>

context safe_tx
begin

text \<open>The last fragment either drops its message or completes it.\<close>

lemma rx_end_drops:
  assumes ok: "endpoint_ok tx P mtu b F w" and lk: "mctp_msg_ctx_lookup w src dest tag = Some i"
    and run: "rx_end 0 hdr pkt w = mctp_msg_ctx_drop 0 i w"
  obtains cs h where "rx_end 0 hdr pkt w = Inr (w\<lparr>msg_ctxs := cs, heap := h\<rparr>)"
    and "endpoint_ok tx P mtu b F (w\<lparr>msg_ctxs := cs, heap := h\<rparr>)"
    and "asm_table cs = (asm_table (msg_ctxs w))((src, dest, tag) := None)"
proof -
  from mctp_msg_ctx_lookup_SomeD [OF lk] have i: "i < length (msg_ctxs w)" "ctx_used (msg_ctxs w ! i)"
    and key: "ctx_key (msg_ctxs w ! i) = (src, dest, tag)" by auto
  show ?thesis
    by (rule mctp_msg_ctx_drop_ok [OF ok i]) (use run key that in \<open>auto simp: ctx_upd_def\<close>)
qed

lemma rx_end_completes:
  assumes ok: "endpoint_ok tx P mtu b F w"
    and lk: "mctp_msg_ctx_lookup w (hdr_src hdr) (hdr_dest hdr) (fst_tag (flags_seq_tag hdr)) = Some i"
    and good: "(ctx_last_seq (msg_ctxs w ! i) + 1) mod 4 = fst_seq (flags_seq_tag hdr)"
      "\<not> mctp_pktbuf_size pkt > ctx_fragment_size (msg_ctxs w ! i)"
    and add: "mctp_msg_ctx_add_pkt i pkt w = Inr (0, ctx_upd i c (heap w) w)"
    and c: "ctx_wf c" "ctx_key c = ctx_key (msg_ctxs w ! i)" "own (ctx_buf c) = own (ctx_buf (msg_ctxs w ! i))"
  obtains cs1 buf len w2 cs h where
    "mctp_rx 0 (hdr_src hdr) (hdr_dest hdr) (fst_to (flags_seq_tag hdr)) (fst_tag (flags_seq_tag hdr))
       (Some buf) len (w\<lparr>msg_ctxs := cs1\<rparr>) = Inr w2"
    and "take (unat len) buf = ctx_msg c" and "unat len = length (ctx_msg c)" and "endpoint_ok tx P mtu b F (w\<lparr>msg_ctxs := cs1\<rparr>)"
    and "rx_end 0 hdr pkt w = Inr (w2\<lparr>msg_ctxs := cs, heap := h\<rparr>)" and "endpoint_ok tx P mtu b F (w2\<lparr>msg_ctxs := cs, heap := h\<rparr>)"
    and "asm_table cs = (asm_table (msg_ctxs w))((hdr_src hdr, hdr_dest hdr, fst_tag (flags_seq_tag hdr)) := None)"
proof -
  let ?tag = "fst_tag (flags_seq_tag hdr)" and ?to = "fst_to (flags_seq_tag hdr)" and ?w1 = "ctx_upd i c (heap w) w"
  from mctp_msg_ctx_lookup_SomeD [OF lk] have i: "i < length (msg_ctxs w)" and used: "ctx_used (msg_ctxs w ! i)"
    and key: "ctx_key c = (hdr_src hdr, hdr_dest hdr, ?tag)" using c(2) by auto
  note ok1 = ctx_rewrite_ok [OF ok i used c]
  obtain mb where mb: "ctx_buf c = Some mb" using c(3) used by (cases "ctx_buf c") (auto simp: ctx_used_def own_def split: option.splits)
  have len: "unat (ctx_buf_size c) \<le> length (mb_data mb)" using c(1) mb by (simp add: ctx_wf_def)
  have cm: "take (unat (ctx_buf_size c)) (mb_data mb) = ctx_msg c" "unat (ctx_buf_size c) = length (ctx_msg c)"
    using mb len by (simp_all add: ctx_msg_def)
  obtain w2 where rx: "mctp_rx 0 (hdr_src hdr) (hdr_dest hdr) ?to ?tag (Some (mb_data mb)) (ctx_buf_size c) ?w1 = Inr w2"
    and ok2: "endpoint_ok tx P mtu b F w2" and fr: "rx_frame ?w1 w2"
    using mctp_rx_ok [OF ok1(1) len] by metis
  have c2: "msg_ctxs w2 ! i = c" "i < length (msg_ctxs w2)" and cs2: "msg_ctxs w2 = (msg_ctxs w)[i := c]"
    using fr i by (simp_all add: rx_frame_def)
  have used2: "ctx_used (msg_ctxs w2 ! i)" using c2 mb by (simp add: ctx_used_def)
  obtain h where dr: "mctp_msg_ctx_drop 0 i w2 = Inr (ctx_upd i (c\<lparr>ctx_buf := None\<rparr>) h w2)"
    "endpoint_ok tx P mtu b F (ctx_upd i (c\<lparr>ctx_buf := None\<rparr>) h w2)"
    "asm_table ((msg_ctxs w2)[i := c\<lparr>ctx_buf := None\<rparr>]) = (asm_table (msg_ctxs w2))(ctx_key c := None)"
    using mctp_msg_ctx_drop_ok [OF ok2 c2(2) used2] unfolding c2(1) by blast
  have key': "ctx_src c = hdr_src hdr" "ctx_dest c = hdr_dest hdr" using key by (simp_all add: ctx_key_def)
  have run: "rx_end 0 hdr pkt w = Inr (ctx_upd i (c\<lparr>ctx_buf := None\<rparr>) h w2)"
    using lk good add i rx dr(1) mb key' by (simp add: rx_end_def Let_def)
  have w1: "?w1 = w\<lparr>msg_ctxs := (msg_ctxs w)[i := c]\<rparr>" by (simp add: ctx_upd_def)
  show ?thesis
    by (rule that [OF rx [unfolded w1] cm ok1(1) [unfolded w1] run [unfolded ctx_upd_def] dr(2) [unfolded ctx_upd_def]])
      (use dr(3) ok1(2) key cs2 in simp)
qed

lemma rx_end_ok:
  assumes ok: "endpoint_ok tx P mtu b F w" and pkt: "rx_pkt pkt"
    and k: "k = (hdr_src hdr, hdr_dest hdr, fst_tag (flags_seq_tag hdr))"
  obtains w' where "rx_end 0 hdr pkt w = Inr w'" and "endpoint_ok tx P mtu b F w'"
    and "asm_table (msg_ctxs w') = (asm_table (msg_ctxs w))(k := None)"
    and "case Option.bind (asm_table (msg_ctxs w) k)
           (\<lambda>a. asm_last a (mctp_pktbuf_size pkt) (fst_seq (flags_seq_tag hdr)) (drop 4 (pktbuf_bytes pkt))) of
         None \<Rightarrow> \<exists>cs h. w' = w\<lparr>msg_ctxs := cs, heap := h\<rparr>
       | Some m \<Rightarrow> \<exists>cs1 buf len w2 cs h.
           mctp_rx 0 (hdr_src hdr) (hdr_dest hdr) (fst_to (flags_seq_tag hdr)) (fst_tag (flags_seq_tag hdr))
             (Some buf) len (w\<lparr>msg_ctxs := cs1\<rparr>) = Inr w2 \<and>
           take (unat len) buf = m \<and> unat len = length m \<and> w' = w2\<lparr>msg_ctxs := cs, heap := h\<rparr> \<and>
           endpoint_ok tx P mtu b F (w\<lparr>msg_ctxs := cs1\<rparr>)"
proof -
  let ?seq = "fst_seq (flags_seq_tag hdr)" and ?tag = "fst_tag (flags_seq_tag hdr)"
  let ?body = "drop 4 (pktbuf_bytes pkt)" and ?sz = "mctp_pktbuf_size pkt"
  note that' = that
  note lk = asm_table_lookup [of w "hdr_src hdr" "hdr_dest hdr" ?tag, folded k]
  show ?thesis
  proof (cases "mctp_msg_ctx_lookup w (hdr_src hdr) (hdr_dest hdr) ?tag")
    case None
    then show ?thesis using ok lk
      by (intro that [of w]) (auto simp: rx_end_def Let_def fun_upd_idem intro!: exI [of _ "msg_ctxs w"] exI [of _ "heap w"])
  next
    case (Some i)
    let ?c = "msg_ctxs w ! i"
    from mctp_msg_ctx_lookup_SomeD [OF Some] have i: "i < length (msg_ctxs w)" and used: "ctx_used ?c" by auto
    have tk: "asm_table (msg_ctxs w) k = Some (asm_of ?c)" using lk Some by simp
    have dropped: thesis if run: "rx_end 0 hdr pkt w = mctp_msg_ctx_drop 0 i w" and no: "asm_last (asm_of ?c) ?sz ?seq ?body = None"
      by (rule rx_end_drops [OF ok Some run], rule that') (use no tk k in auto)
    show ?thesis
    proof (cases "(ctx_last_seq ?c + 1) mod 4 \<noteq> ?seq \<or> ?sz > ctx_fragment_size ?c")
      case True
      then show ?thesis using Some
        by (intro dropped) (auto simp: rx_end_def Let_def asm_last_def asm_of_def)
    next
      case False
      then have lst: "asm_last (asm_of ?c) ?sz ?seq ?body = map_option asm_msg (asm_add (asm_of ?c) ?body)"
        and good: "(ctx_last_seq ?c + 1) mod 4 = ?seq" "\<not> ?sz > ctx_fragment_size ?c"
        by (simp_all add: asm_last_def asm_of_def)
      from ok i used pkt show ?thesis
      proof (cases rule: add_pkt_asm)
        case full
        then show ?thesis using Some False lst by (intro dropped) (simp_all add: rx_end_def Let_def)
      next
        case (fits c)
        then have m: "Option.bind (asm_table (msg_ctxs w) k) (\<lambda>a. asm_last a ?sz ?seq ?body) = Some (ctx_msg c)"
          using lst tk by (simp add: asm_of_def)
        obtain cs1 buf len w2 cs h where e: "mctp_rx 0 (hdr_src hdr) (hdr_dest hdr) (fst_to (flags_seq_tag hdr)) ?tag
             (Some buf) len (w\<lparr>msg_ctxs := cs1\<rparr>) = Inr w2"
          "take (unat len) buf = ctx_msg c" "unat len = length (ctx_msg c)" "endpoint_ok tx P mtu b F (w\<lparr>msg_ctxs := cs1\<rparr>)"
          "rx_end 0 hdr pkt w = Inr (w2\<lparr>msg_ctxs := cs, heap := h\<rparr>)" "endpoint_ok tx P mtu b F (w2\<lparr>msg_ctxs := cs, heap := h\<rparr>)"
          "asm_table cs = (asm_table (msg_ctxs w))(k := None)"
          by (rule rx_end_completes [OF ok Some good fits(1,3-5), folded k]) (rule that)
        show ?thesis by (rule that' [OF e(5,6)]) (use e(1-4,7) m in \<open>simp, simp only: option.case, blast\<close>)
      qed
    qed
  qed
qed

lemma rx_single_ok:
  assumes ok: "endpoint_ok tx P mtu b F w" and pkt: "rx_pkt pkt"
  obtains w' where "rx_single 0 hdr pkt w = Inr w'" and "endpoint_ok tx P mtu b F w'"
    and "msg_ctxs w' = msg_ctxs w"
    and "(\<exists>h. w' = w\<lparr>heap := h\<rparr> \<and> (\<exists>w''. w_msg_alloc (mctp_pktbuf_size pkt - SIZEOF_MCTP_HDR) True w = Inr (None, w''))) \<or>
       (\<exists>h w2 h2 len F'. mctp_rx 0 (hdr_src hdr) (hdr_dest hdr) (fst_to (flags_seq_tag hdr)) (fst_tag (flags_seq_tag hdr))
             (Some (drop 4 (pktbuf_bytes pkt))) len (w\<lparr>heap := h\<rparr>) = Inr w2 \<and> w' = w2\<lparr>heap := h2\<rparr> \<and>
           unat len = length (drop 4 (pktbuf_bytes pkt)) \<and> endpoint_ok tx P mtu b F' (w\<lparr>heap := h\<rparr>) \<and>
           (\<exists>mb w''. w_msg_alloc (mctp_pktbuf_size pkt - SIZEOF_MCTP_HDR) True w = Inr (Some mb, w'')))"
proof -
  let ?len = "mctp_pktbuf_size pkt - SIZEOF_MCTP_HDR"
  let ?body = "drop 4 (pktbuf_bytes pkt)"
  from pkt have wf: "pktbuf_wf pkt" and off: "mctp_hdr_off pkt = pk_start pkt" by (auto simp: rx_pkt_def)
  have len: "pk_end pkt - mctp_hdr_off pkt - SIZEOF_MCTP_HDR = ?len" by (simp add: off mctp_pktbuf_size_def)
  have ul: "unat ?len = length ?body" using pkt add_pkt_len [OF wf] by (simp add: rx_pkt_def)
  have rd: "mem_read (pk_data pkt) (unat (mctp_hdr_off pkt + SIZEOF_MCTP_HDR)) (unat ?len) = Inr ?body"
    using rx_pkt_body [OF pkt] by (simp add: mctp_pktbuf_data_def)
  then have rng: "unat (mctp_hdr_off pkt + SIZEOF_MCTP_HDR) + unat ?len \<le> length (pk_data pkt)"
    and bd: "take (unat ?len) (drop (unat (mctp_hdr_off pkt + SIZEOF_MCTP_HDR)) (pk_data pkt)) = ?body"
    by (simp_all add: mem_read_Inr_iff)
  obtain p h where d: "mctp_msg_dup (pk_data pkt) (unat (mctp_hdr_off pkt + SIZEOF_MCTP_HDR)) ?len True w = Inr (p, w\<lparr>heap := h\<rparr>)"
    and ok1: "endpoint_ok tx P mtu b (own p + F) (w\<lparr>heap := h\<rparr>)"
    and mb: "\<And>mb. p = Some mb \<Longrightarrow> mb_data mb = ?body"
    using mctp_msg_dup_ok [OF ok rng] unfolding bd by blast
  have al: "\<exists>q w''. w_msg_alloc ?len True w = Inr (q, w'') \<and> (q = None \<longleftrightarrow> p = None)"
    using d unfolding mctp_msg_dup_def by (auto split: option.splits prod.splits simp: rbind_eq_Inr_iff)
  show ?thesis
  proof (cases p)
    case None
    have "\<exists>w''. w_msg_alloc ?len True w = Inr (None, w'')" using al None by auto
    then show ?thesis using d None ok1 len
      by (intro that [of "w\<lparr>heap := h\<rparr>"]) (auto simp: rx_single_def Let_def)
  next
    case (Some m)
    obtain w2 where rx: "mctp_rx 0 (hdr_src hdr) (hdr_dest hdr) (fst_to (flags_seq_tag hdr)) (fst_tag (flags_seq_tag hdr))
             (Some ?body) ?len (w\<lparr>heap := h\<rparr>) = Inr w2"
      and ok2: "endpoint_ok tx P mtu b (own p + F) w2" and fr: "rx_frame (w\<lparr>heap := h\<rparr>) w2"
      using mctp_rx_ok [OF ok1, of ?len ?body] ul by (metis order_refl)
    have g: "good_ops (ops w2)" and ow: "heap_owns (add_mset (mb_blk m) (owned w2 + F)) (heap w2)"
      and sh: "ep_shape tx P mtu b w2"
      using ok2 Some by (auto simp: endpoint_defs)
    from w_msg_free_owns [OF g ow] obtain h2 where f: "w_msg_free (Some m) True w2 = Inr (w2\<lparr>heap := h2\<rparr>)"
      and h2: "heap_owns (owned w2 + F) h2" by blast
    have run: "rx_single 0 hdr pkt w = Inr (w2\<lparr>heap := h2\<rparr>)"
      using d Some mb [OF Some] rx f len by (simp add: rx_single_def Let_def)
    have "endpoint_ok tx P mtu b F (w2\<lparr>heap := h2\<rparr>)" "msg_ctxs (w2\<lparr>heap := h2\<rparr>) = msg_ctxs w"
      using sh h2 fr by (simp_all add: endpoint_ok_def rx_frame_def)
    moreover have "\<exists>mb w''. w_msg_alloc ?len True w = Inr (Some mb, w'')" using al Some by auto
    ultimately show ?thesis using that [OF run] rx ul ok1 by blast
  qed
qed

end


section \<open>The whole receive operation\<close>

text \<open>The specification of one packet: the assemblies after it and the message it completes.\<close>

definition reassemble ::
    "(u8 \<times> u8 \<times> u8 \<Rightarrow> assembly option) \<Rightarrow> u64 \<Rightarrow> bool \<Rightarrow> mctp_hdr \<Rightarrow> u64 \<Rightarrow> bytes \<Rightarrow>
     (u8 \<times> u8 \<times> u8 \<Rightarrow> assembly option) \<times> bytes option" where
  "reassemble T lim avail hdr sz body =
     (let k = (hdr_src hdr, hdr_dest hdr, fst_tag (flags_seq_tag hdr));
          sq = fst_seq (flags_seq_tag hdr); fl = fst_flags (flags_seq_tag hdr)
      in if fl = MCTP_HDR_FLAG_SOM OR MCTP_HDR_FLAG_EOM then (T, if avail then Some body else None)
         else if fl = MCTP_HDR_FLAG_SOM
         then (T(k := if avail then asm_start (case T k of None \<Rightarrow> lim | Some a \<Rightarrow> asm_limit a) sz sq body
                      else None), None)
         else if fl = MCTP_HDR_FLAG_EOM
         then (T(k := None), Option.bind (T k) (\<lambda>a. asm_last a sz sq body))
         else (T(k := Option.bind (T k) (\<lambda>a. asm_next a sz sq body)), None))"

text \<open>Memory for the packet: a copy of a single-packet message, or a context for a new message.\<close>

definition rx_memory :: "mctp_hdr \<Rightarrow> mctp_pktbuf \<Rightarrow> 'e world \<Rightarrow> bool" where
  "rx_memory hdr pkt w \<longleftrightarrow>
     (if fst_flags (flags_seq_tag hdr) = MCTP_HDR_FLAG_SOM OR MCTP_HDR_FLAG_EOM
      then (case w_msg_alloc (mctp_pktbuf_size pkt - SIZEOF_MCTP_HDR) True w of Inr (Some mb, w') \<Rightarrow> True | _ \<Rightarrow> False)
      else slot_available w (hdr_src hdr, hdr_dest hdr, fst_tag (flags_seq_tag hdr)))"

text \<open>A message that is not a control request, so that it is the user's.\<close>

definition user_message :: "bytes \<Rightarrow> bool" where
  "user_message m \<longleftrightarrow> length m < 3 \<or> m ! 0 \<noteq> MCTP_CTRL_HDR_MSG_TYPE \<or> m ! 1 AND MCTP_CTRL_HDR_FLAG_REQUEST = 0"

definition delivery :: "'e world \<Rightarrow> mctp_hdr \<Rightarrow> bytes \<Rightarrow> event list" where
  "delivery w hdr m =
     (case message_rx w of None \<Rightarrow> []
      | Some f \<Rightarrow> [Ev_message_rx f (message_rx_data w) (hdr_src hdr) (fst_to (flags_seq_tag hdr))
                    (fst_tag (flags_seq_tag hdr)) m (of_nat (length m))])"

text \<open>All that handling a user's message changes: the contexts, the heap, the tags and the trace. A response, a
  message without the tag owner bit, releases the tag of its request.\<close>

definition hands_over :: "'e world \<Rightarrow> 'e world \<Rightarrow> mctp_req_tag list \<Rightarrow> event list \<Rightarrow> bool" where
  "hands_over w w' ts evs \<longleftrightarrow>
     (\<exists>cs h. w' = w\<lparr>msg_ctxs := cs, heap := h, req_tags := ts, trace := trace w @ evs\<rparr>)"

definition settled :: "bool \<Rightarrow> u8 \<Rightarrow> u8 \<Rightarrow> u8 \<Rightarrow> mctp_req_tag list \<Rightarrow> mctp_req_tag list" where
  "settled to dest src tag rs = (if to then rs else release_tag dest src tag rs)"

definition hdr_settled :: "mctp_hdr \<Rightarrow> 'e world \<Rightarrow> mctp_req_tag list" where
  "hdr_settled hdr w =
     settled (fst_to (flags_seq_tag hdr)) (hdr_dest hdr) (hdr_src hdr) (fst_tag (flags_seq_tag hdr)) (req_tags w)"

lemma hands_overI:
  "w' = w\<lparr>msg_ctxs := cs, heap := h, req_tags := ts, trace := trace w @ evs\<rparr> \<Longrightarrow> hands_over w w' ts evs"
  unfolding hands_over_def by blast

lemma hands_over_frame:
  assumes "hands_over w w' ts evs"
  shows "trace w' = trace w @ evs" "req_tags w' = ts" "bus_at w' i = bus_at w i" "bindings w' = bindings w" "message_rx w' = message_rx w"
    "message_rx_data w' = message_rx_data w" "capture w' = capture w" "capture_data w' = capture_data w"
    "max_message_size w' = max_message_size w" "control w' = control w"
  using assms by (auto simp: hands_over_def bus_at_def)

lemma hands_over_update:
  "hands_over (w\<lparr>heap := h\<rparr>) w' ts evs \<Longrightarrow> hands_over w (w'\<lparr>heap := h2\<rparr>) ts evs"
  "hands_over (w\<lparr>msg_ctxs := cs\<rparr>) w' ts evs \<Longrightarrow> hands_over w (w'\<lparr>msg_ctxs := cs2, heap := h2\<rparr>) ts evs"
  "hands_over (w\<lparr>trace := trace w @ ev\<rparr>) w' ts evs \<Longrightarrow> hands_over w w' ts (ev @ evs)"
  unfolding hands_over_def by (cases w; force)+

lemma hdr_settled_update [simp]:
  "hdr_settled hdr (w\<lparr>heap := h\<rparr>) = hdr_settled hdr w" "hdr_settled hdr (w\<lparr>msg_ctxs := cs\<rparr>) = hdr_settled hdr w"
  "hdr_settled hdr (w\<lparr>trace := t\<rparr>) = hdr_settled hdr w"
  by (simp_all add: hdr_settled_def)

lemma fst_flags_cases:
  "fst_flags f = 0xc0 \<or> fst_flags f = 0x80 \<or> fst_flags f = 0x40 \<or> fst_flags f = 0"
proof -
  have "fst_flags f = (if bit f 7 then 0x80 else 0) OR (if bit f 6 then 0x40 else 0)"
  proof (rule bit_word_eqI)
    fix n assume "n < LENGTH(8)"
    then consider "n = 0" | "n = 1" | "n = 2" | "n = 3" | "n = 4" | "n = 5" | "n = 6" | "n = 7"
      by fastforce
    then show "bit (fst_flags f) n = bit ((if bit f 7 then 0x80 else 0) OR (if bit f 6 then 0x40 else 0) :: u8) n"
      by cases (simp_all add: fst_flags_def bit_simps)
  qed
  then show ?thesis by simp
qed

lemma mctp_rx_user:
  assumes ok: "endpoint_ok tx P mtu b F w" and dest: "mctp_rx_dest_is_local (bus_at w 0) dest"
    and len: "unat len \<le> length buf" and user: "user_message (take (unat len) buf)"
    and rx: "mctp_rx 0 src dest to tag (Some buf) len w = Inr w'"
  shows "hands_over w w' (settled to dest src tag (req_tags w)) (case message_rx w of None \<Rightarrow> []
      | Some f \<Rightarrow> [Ev_message_rx f (message_rx_data w) src to tag (take (unat len) buf) len])"
proof -
  have rp: "route_policy w = ROUTE_ENDPOINT" using ok by (simp add: endpoint_defs)
  let ?ts = "settled to dest src tag (req_tags w)"
  define w1 where w1: "w1 = w\<lparr>req_tags := ?ts\<rparr>"
  have "bus_binding (bus_at w 0) = Some b" "b_mctp (bindings w b)" using ok by (simp_all add: endpoint_defs binding_ok_def)
  from mctp_dealloc_tag_release [OF this, of dest src tag] have
    d: "(if \<not> to then mctp_dealloc_tag 0 dest src tag w else Inr w) = Inr w1"
    by (cases w) (simp add: w1 settled_def)
  have "(if len \<ge> SIZEOF_ctrl_msg_hdr
         then rbind (read_ctrl_hdr buf) (\<lambda>msg_hdr.
           if mctp_ctrl_cmd_is_request msg_hdr
           then mctp_ctrl_handle_msg 0 src tag to buf len w1
           else Inr (False, w1))
         else Inr (False, w1)) = Inr (False, w1)"
  proof (cases "3 \<le> len")
    case True
    then have l: "3 \<le> unat len" by (simp add: word_le_nat_alt)
    then have "read_ctrl_hdr buf = Inr \<lparr>ic_msg_type = buf ! 0, rq_dgram_inst = buf ! 1, command_code = buf ! 2\<rparr>"
      using len by (intro read_ctrl_hdr_ok) simp
    moreover have "\<not> (buf ! 0 = 0 \<and> buf ! 1 AND 0x80 \<noteq> 0)"
      using user l len by (auto simp: user_message_def)
    ultimately show ?thesis using True by (auto simp: mctp_ctrl_cmd_is_request_def)
  qed simp
  then have "w' = deliver src to tag buf len w1"
    using rx rp dest d by (simp add: mctp_rx_def)
  then show ?thesis
    by (cases w) (auto simp: deliver_def emit_def w1 intro!: hands_overI split: option.split)
qed


lemma w_msg_alloc_trace:
  "w_msg_alloc n m (w\<lparr>trace := t\<rparr>) =
     (case w_msg_alloc n m w of Inl e \<Rightarrow> Inl e | Inr (p, w') \<Rightarrow> Inr (p, w'\<lparr>trace := t\<rparr>))"
  by (simp add: w_msg_alloc_def rbind_def check_def split: sum.split)

lemma slot_available_trace [simp]: "slot_available (w\<lparr>trace := t\<rparr>) k = slot_available w k"
  by (auto simp: slot_available_def w_msg_alloc_trace split: sum.splits option.splits prod.splits)

lemma rx_memory_trace [simp]: "rx_memory hdr pkt (w\<lparr>trace := t\<rparr>) = rx_memory hdr pkt w"
  by (auto simp: rx_memory_def w_msg_alloc_trace split: sum.splits option.splits prod.splits)

text \<open>The cases of \<open>reassemble\<close>.\<close>

lemma reassemble_single:
  "fst_flags (flags_seq_tag hdr) = 0xc0 \<Longrightarrow>
     reassemble T lim av hdr sz body = (T, if av then Some body else None)"
  by (simp add: reassemble_def Let_def)

lemma reassemble_start:
  "fst_flags (flags_seq_tag hdr) = 0x80 \<Longrightarrow> k = (hdr_src hdr, hdr_dest hdr, fst_tag (flags_seq_tag hdr)) \<Longrightarrow>
     reassemble T lim av hdr sz body =
       (T(k := if av then asm_start (case T k of None \<Rightarrow> lim | Some a \<Rightarrow> asm_limit a) sz
                 (fst_seq (flags_seq_tag hdr)) body else None), None)"
  by (simp add: reassemble_def Let_def)

lemma reassemble_end:
  "fst_flags (flags_seq_tag hdr) = 0x40 \<Longrightarrow> k = (hdr_src hdr, hdr_dest hdr, fst_tag (flags_seq_tag hdr)) \<Longrightarrow>
     reassemble T lim av hdr sz body =
       (T(k := None), Option.bind (T k) (\<lambda>a. asm_last a sz (fst_seq (flags_seq_tag hdr)) body))"
  by (simp add: reassemble_def Let_def)

lemma reassemble_middle:
  "fst_flags (flags_seq_tag hdr) = 0 \<Longrightarrow> k = (hdr_src hdr, hdr_dest hdr, fst_tag (flags_seq_tag hdr)) \<Longrightarrow>
     reassemble T lim av hdr sz body =
       (T(k := Option.bind (T k) (\<lambda>a. asm_next a sz (fst_seq (flags_seq_tag hdr)) body)), None)"
  by (simp add: reassemble_def Let_def)

text \<open>A user's message, handed to \<open>mctp_rx\<close>, is one call of the message handler.\<close>

lemma mctp_rx_delivery:
  assumes rx: "mctp_rx 0 (hdr_src hdr) (hdr_dest hdr) (fst_to (flags_seq_tag hdr)) (fst_tag (flags_seq_tag hdr))
         (Some buf) len w1 = Inr w2"
    and buf: "take (unat len) buf = m" "unat len = length m" and user: "user_message m"
    and ok: "endpoint_ok tx P mtu b F w1" and dest: "mctp_rx_dest_is_local (bus_at w1 0) (hdr_dest hdr)"
    and same: "message_rx w1 = message_rx w" "message_rx_data w1 = message_rx_data w"
  shows "hands_over w1 w2 (hdr_settled hdr w1) (delivery w hdr m)"
proof -
  have l: "unat len \<le> length buf" using buf by (metis length_take min.cobounded1)
  have "len = of_nat (length m)" using buf(2) by (metis of_nat_unat ucast_id)
  then show ?thesis
    using mctp_rx_user [OF ok dest l _ rx] user buf same by (cases "message_rx w") (simp_all add: delivery_def hdr_settled_def)
qed

context safe_tx
begin

lemma rx_single_spec:
  assumes ok: "endpoint_ok tx P mtu b F w" and pkt: "rx_pkt pkt"
    and dest: "mctp_rx_dest_is_local (bus_at w 0) (hdr_dest hdr)"
    and fl: "fst_flags (flags_seq_tag hdr) = 0xc0"
  obtains w' where "rx_single 0 hdr pkt w = Inr w'" and "endpoint_ok tx P mtu b F w'"
    and "msg_ctxs w' = msg_ctxs w"
    and "\<not> rx_memory hdr pkt w \<Longrightarrow> \<exists>h. w' = w\<lparr>heap := h\<rparr>"
    and "rx_memory hdr pkt w \<Longrightarrow> user_message (drop 4 (pktbuf_bytes pkt)) \<Longrightarrow>
           hands_over w w' (hdr_settled hdr w) (delivery w hdr (drop 4 (pktbuf_bytes pkt)))"
proof -
  let ?n = "mctp_pktbuf_size pkt - SIZEOF_MCTP_HDR" and ?body = "drop 4 (pktbuf_bytes pkt)"
  have mem: "\<not> rx_memory hdr pkt w" if "w_msg_alloc ?n True w = Inr (None, w'')" for w''
    using that fl by (simp add: rx_memory_def)
  have mem': "rx_memory hdr pkt w" if "w_msg_alloc ?n True w = Inr (Some mb, w'')" for mb w''
    using that fl by (simp add: rx_memory_def)
  obtain w' where run: "rx_single 0 hdr pkt w = Inr w'" and ok': "endpoint_ok tx P mtu b F w'"
    and cs: "msg_ctxs w' = msg_ctxs w"
    and alt: "(\<exists>h. w' = w\<lparr>heap := h\<rparr> \<and> (\<exists>w''. w_msg_alloc ?n True w = Inr (None, w''))) \<or>
     (\<exists>h w2 h2 len F'. mctp_rx 0 (hdr_src hdr) (hdr_dest hdr) (fst_to (flags_seq_tag hdr)) (fst_tag (flags_seq_tag hdr))
           (Some ?body) len (w\<lparr>heap := h\<rparr>) = Inr w2 \<and> w' = w2\<lparr>heap := h2\<rparr> \<and>
         unat len = length ?body \<and> endpoint_ok tx P mtu b F' (w\<lparr>heap := h\<rparr>) \<and>
         (\<exists>mb w''. w_msg_alloc ?n True w = Inr (Some mb, w'')))"
    by (rule rx_single_ok [OF ok pkt, of hdr])
  have "(\<exists>h. w' = w\<lparr>heap := h\<rparr>) \<and> \<not> rx_memory hdr pkt w \<or>
      rx_memory hdr pkt w \<and> (user_message ?body \<longrightarrow> hands_over w w' (hdr_settled hdr w) (delivery w hdr ?body))"
    using alt
  proof (elim disjE exE conjE)
    fix h w2 h2 len F' m w''
    assume "mctp_rx 0 (hdr_src hdr) (hdr_dest hdr) (fst_to (flags_seq_tag hdr)) (fst_tag (flags_seq_tag hdr))
           (Some ?body) len (w\<lparr>heap := h\<rparr>) = Inr w2" "w' = w2\<lparr>heap := h2\<rparr>" "unat len = length ?body"
      "endpoint_ok tx P mtu b F' (w\<lparr>heap := h\<rparr>)" "w_msg_alloc ?n True w = Inr (Some m, w'')"
    then show ?thesis
      using mem' mctp_rx_delivery [of hdr ?body len "w\<lparr>heap := h\<rparr>" w2 ?body tx P mtu b F' w] dest
      by (auto intro: hands_over_update(1))
  qed (use mem in auto)
  then show ?thesis using that [OF run ok' cs] by auto
qed

lemma rx_end_spec:
  assumes ok: "endpoint_ok tx P mtu b F w" and pkt: "rx_pkt pkt"
    and dest: "mctp_rx_dest_is_local (bus_at w 0) (hdr_dest hdr)"
    and k: "k = (hdr_src hdr, hdr_dest hdr, fst_tag (flags_seq_tag hdr))"
    and r: "r = Option.bind (asm_table (msg_ctxs w) k)
           (\<lambda>a. asm_last a (mctp_pktbuf_size pkt) (fst_seq (flags_seq_tag hdr)) (drop 4 (pktbuf_bytes pkt)))"
  obtains w' where "rx_end 0 hdr pkt w = Inr w'" and "endpoint_ok tx P mtu b F w'"
    and "asm_table (msg_ctxs w') = (asm_table (msg_ctxs w))(k := None)"
    and "r = None \<Longrightarrow> \<exists>cs h. w' = w\<lparr>msg_ctxs := cs, heap := h\<rparr>"
    and "\<And>m. r = Some m \<Longrightarrow> user_message m \<Longrightarrow> hands_over w w' (hdr_settled hdr w) (delivery w hdr m)"
proof -
  obtain w' where run: "rx_end 0 hdr pkt w = Inr w'" and ok': "endpoint_ok tx P mtu b F w'"
    and tab: "asm_table (msg_ctxs w') = (asm_table (msg_ctxs w))(k := None)"
    and res: "case r of None \<Rightarrow> \<exists>cs h. w' = w\<lparr>msg_ctxs := cs, heap := h\<rparr>
     | Some m \<Rightarrow> \<exists>cs1 buf len w2 cs h.
         mctp_rx 0 (hdr_src hdr) (hdr_dest hdr) (fst_to (flags_seq_tag hdr)) (fst_tag (flags_seq_tag hdr))
           (Some buf) len (w\<lparr>msg_ctxs := cs1\<rparr>) = Inr w2 \<and>
         take (unat len) buf = m \<and> unat len = length m \<and> w' = w2\<lparr>msg_ctxs := cs, heap := h\<rparr> \<and>
         endpoint_ok tx P mtu b F (w\<lparr>msg_ctxs := cs1\<rparr>)"
    by (rule rx_end_ok [OF ok pkt k], rule that) (simp_all only: r)
  have "hands_over w w' (hdr_settled hdr w) (delivery w hdr m)" if "r = Some m" "user_message m" for m
  proof -
    from res that(1) obtain cs1 buf len w2 cs h where
      "mctp_rx 0 (hdr_src hdr) (hdr_dest hdr) (fst_to (flags_seq_tag hdr)) (fst_tag (flags_seq_tag hdr))
           (Some buf) len (w\<lparr>msg_ctxs := cs1\<rparr>) = Inr w2"
      "take (unat len) buf = m" "unat len = length m" "w' = w2\<lparr>msg_ctxs := cs, heap := h\<rparr>"
      "endpoint_ok tx P mtu b F (w\<lparr>msg_ctxs := cs1\<rparr>)" by auto
    then show ?thesis using mctp_rx_delivery [of hdr buf len "w\<lparr>msg_ctxs := cs1\<rparr>" w2 m tx P mtu b F w] that(2) dest
      by (auto intro: hands_over_update(2))
  qed
  moreover have "\<exists>cs h. w' = w\<lparr>msg_ctxs := cs, heap := h\<rparr>" if "r = None" using res that by auto
  ultimately show ?thesis using that [OF run ok' tab] by blast
qed

lemma rx_switch_ok:
  assumes ok: "endpoint_ok tx P mtu b F w" and pkt: "rx_pkt pkt"
    and dest: "mctp_rx_dest_is_local (bus_at w 0) (hdr_dest hdr)"
    and R: "reassemble (asm_table (msg_ctxs w)) (max_message_size w) (rx_memory hdr pkt w) hdr
              (mctp_pktbuf_size pkt) (drop 4 (pktbuf_bytes pkt)) = (T, r)"
  obtains w' where "rx_switch 0 hdr pkt w = Inr w'" and "endpoint_ok tx P mtu b F w'"
    and "asm_table (msg_ctxs w') = T"
    and "r = None \<Longrightarrow> \<exists>cs h. w' = w\<lparr>msg_ctxs := cs, heap := h\<rparr>"
    and "\<And>m. r = Some m \<Longrightarrow> user_message m \<Longrightarrow> hands_over w w' (hdr_settled hdr w) (delivery w hdr m)"
proof -
  let ?k = "(hdr_src hdr, hdr_dest hdr, fst_tag (flags_seq_tag hdr))"
  let ?sz = "mctp_pktbuf_size pkt" and ?body = "drop 4 (pktbuf_bytes pkt)" and ?sq = "fst_seq (flags_seq_tag hdr)"
  note that' = that
  have table: thesis if "rx_switch 0 hdr pkt w = Inr (w\<lparr>msg_ctxs := cs, heap := h\<rparr>)"
    "endpoint_ok tx P mtu b F (w\<lparr>msg_ctxs := cs, heap := h\<rparr>)" "asm_table cs = T" "r = None" for cs h
    by (rule that' [of "w\<lparr>msg_ctxs := cs, heap := h\<rparr>"]) (use that in auto)
  consider (single) "fst_flags (flags_seq_tag hdr) = 0xc0" | (start) "fst_flags (flags_seq_tag hdr) = 0x80"
    | (last) "fst_flags (flags_seq_tag hdr) = 0x40" | (middle) "fst_flags (flags_seq_tag hdr) = 0"
    using fst_flags_cases by blast
  then show ?thesis
  proof cases
    case middle
    show ?thesis
      by (rule rx_middle_ok [OF ok pkt refl, of hdr], rule table)
        (use R middle reassemble_middle [OF middle refl] in \<open>simp_all add: rx_switch_def\<close>)
  next
    case start
    show ?thesis
    proof (cases "asm_table (msg_ctxs w) ?k")
      case None
      have "r = None" and Tr: "T = (asm_table (msg_ctxs w))(?k := if slot_available w ?k then
          asm_start (max_message_size w) ?sz ?sq ?body else None)"
        using R start None reassemble_start [OF start refl] by (auto simp: rx_memory_def)
      then show ?thesis
        by (rule_tac rx_start_new [OF ok pkt refl None], rule_tac table)
          (use start in \<open>simp_all only: Tr, simp_all add: rx_switch_def\<close>)
    next
      case (Some a)
      then have "rx_memory hdr pkt w" using start by (simp add: rx_memory_def slot_available_def)
      then show ?thesis
        using R start Some reassemble_start [OF start refl]
        by (rule_tac rx_start_reuse [OF ok pkt refl Some], rule_tac table) (auto simp: rx_switch_def)
    qed
  next
    case last
    have Tr: "T = (asm_table (msg_ctxs w))(?k := None)"
      "r = Option.bind (asm_table (msg_ctxs w) ?k) (\<lambda>a. asm_last a ?sz ?sq ?body)"
      using R reassemble_end [OF last refl] by simp_all
    show ?thesis
      by (rule rx_end_spec [OF ok pkt dest refl Tr(2)], rule that)
        (use last in \<open>simp_all add: rx_switch_def Tr(1)\<close>)
  next
    case single
    note T = reassemble_single [OF single]
    have same: "\<exists>cs h'. w\<lparr>heap := h\<rparr> = w\<lparr>msg_ctxs := cs, heap := h'\<rparr>" for h
      by (rule exI [of _ "msg_ctxs w"], rule exI [of _ h]) simp
    show ?thesis
      by (rule rx_single_spec [OF ok pkt dest single], rule that)
        (use single R T same in \<open>auto simp: rx_switch_def split: if_splits\<close>)
  qed
qed

text \<open>The whole of \<open>mctp_bus_rx\<close>, for a packet the endpoint accepts and for one it does not.\<close>

lemma bus_rx_accepts:
  assumes ok: "endpoint_ok tx P mtu b F w" and pkt: "rx_pkt pkt" and hdr: "read_hdr pkt = Inr hdr"
    and src: "hdr_src hdr \<noteq> MCTP_EID_BROADCAST" and dest: "mctp_rx_dest_is_local (bus_at w 0) (hdr_dest hdr)"
    and R: "reassemble (asm_table (msg_ctxs w)) (max_message_size w) (rx_memory hdr pkt w) hdr
              (mctp_pktbuf_size pkt) (drop 4 (pktbuf_bytes pkt)) = (T, r)"
  obtains w' where "mctp_bus_rx b pkt w = Inr w'" and "endpoint_ok tx P mtu b F w'"
    and "asm_table (msg_ctxs w') = T"
    and "r = None \<Longrightarrow> \<exists>cs h. w' = w\<lparr>msg_ctxs := cs, heap := h, trace := trace w @ capture_events pkt False w\<rparr>"
    and "\<And>m. r = Some m \<Longrightarrow> user_message m \<Longrightarrow>
           hands_over w w' (hdr_settled hdr w) (capture_events pkt False w @ delivery w hdr m)"
proof -
  let ?w = "w\<lparr>trace := trace w @ capture_events pkt False w\<rparr>"
  from ok have b: "b_bus (bindings w b) = Some 0" and m: "b_mctp (bindings w b)"
    by (auto simp: endpoint_defs binding_ok_def)
  have sz: "\<not> mctp_pktbuf_size pkt < 4"
    using pkt unat_pktbuf_size [of pkt] by (simp add: rx_pkt_def word_less_nat_alt)
  have at: "bus_at ?w 0 = bus_at w 0" by (simp add: bus_at_def)
  have run: "mctp_bus_rx b pkt w = rx_switch 0 hdr pkt ?w"
    using b m sz hdr src dest at by (simp add: mctp_bus_rx_def Let_def)
  have dl: "delivery ?w hdr m = delivery w hdr m" for m by (simp add: delivery_def split: option.split)
  have ord: "?w\<lparr>msg_ctxs := cs, heap := h\<rparr> = w\<lparr>msg_ctxs := cs, heap := h, trace := trace w @ capture_events pkt False w\<rparr>"
    for cs h by (cases w) simp
  show ?thesis
    by (rule rx_switch_ok [of b F ?w pkt hdr T r])
      (use ok pkt dest R at run that dl in \<open>auto simp: ord intro: hands_over_update(3)\<close>)
qed

lemma bus_rx_rejects:
  assumes ok: "endpoint_ok tx P mtu b F w" and wf: "pktbuf_wf pkt" "mctp_hdr_off pkt = pk_start pkt"
    and bad: "length (pktbuf_bytes pkt) < 4 \<or>
      (\<exists>hdr. read_hdr pkt = Inr hdr \<and> (hdr_src hdr = MCTP_EID_BROADCAST \<or>
         \<not> mctp_rx_dest_is_local (bus_at w 0) (hdr_dest hdr)))"
  obtains t where "mctp_bus_rx b pkt w = Inr (w\<lparr>trace := t\<rparr>)"
    and "t = trace w \<or> t = trace w @ capture_events pkt False w"
proof -
  from ok have b: "b_bus (bindings w b) = Some 0" and m: "b_mctp (bindings w b)"
    and rp: "route_policy w = ROUTE_ENDPOINT"
    by (auto simp: endpoint_defs binding_ok_def)
  have at: "bus_at (w\<lparr>trace := t\<rparr>) 0 = bus_at w 0" for t by (simp add: bus_at_def)
  show ?thesis
  proof (cases "length (pktbuf_bytes pkt) < 4")
    case True
    then have "mctp_pktbuf_size pkt < 4" using unat_pktbuf_size [OF wf(1)] by (simp add: word_less_nat_alt)
    then have "mctp_bus_rx b pkt w = Inr (w\<lparr>trace := trace w\<rparr>)" using b by (simp add: mctp_bus_rx_def)
    then show ?thesis using that by blast
  next
    case False
    then have "\<not> mctp_pktbuf_size pkt < 4" using unat_pktbuf_size [OF wf(1)] by (simp add: word_less_nat_alt)
    then have "mctp_bus_rx b pkt w = Inr (w\<lparr>trace := trace w @ capture_events pkt False w\<rparr>)"
      using b m rp bad False at by (auto simp: mctp_bus_rx_def Let_def)
    then show ?thesis using that by blast
  qed
qed

lemma bus_rx_safe:
  assumes ok: "endpoint_ok tx P mtu b F w" and wf: "pktbuf_wf pkt" "mctp_hdr_off pkt = pk_start pkt"
  obtains w' where "mctp_bus_rx b pkt w = Inr w'" and "endpoint_ok tx P mtu b F w'"
proof (cases "length (pktbuf_bytes pkt) < 4")
  case True
  then show ?thesis using bus_rx_rejects [OF ok wf] ok that by (metis endpoint_ok_trace(1))
next
  case False
  then have pkt: "rx_pkt pkt" using wf by (simp add: rx_pkt_def)
  obtain hdr where hdr: "read_hdr pkt = Inr hdr" using rx_pkt_hdr [OF pkt] by blast
  show ?thesis
  proof (cases "hdr_src hdr = MCTP_EID_BROADCAST \<or> \<not> mctp_rx_dest_is_local (bus_at w 0) (hdr_dest hdr)")
    case True
    then show ?thesis using bus_rx_rejects [OF ok wf] hdr ok that by (metis endpoint_ok_trace(1))
  next
    case False
    obtain T r where "reassemble (asm_table (msg_ctxs w)) (max_message_size w) (rx_memory hdr pkt w) hdr
              (mctp_pktbuf_size pkt) (drop 4 (pktbuf_bytes pkt)) = (T, r)" by fastforce
    with False show ?thesis using bus_rx_accepts [OF ok pkt hdr] that by blast
  qed
qed

end

end
