(* ===== verification/Mctp_Instance.thy ===== *)
theory Mctp_Instance
  imports Mctp_Control
begin

text \<open>
  Life cycle of an MCTP instance: \<^verbatim>\<open>src/core.c\<close> lines 237 to 334 (setup, handlers, cleanup), 347
  to 441 (registering one bus, bridging two, unregistering) and 1070 to 1078, and the start
  operation of \<^verbatim>\<open>src/mmbi.c\<close>, which these operations call through the binding. The instance is the
  \<open>mctp\<close> part of the world record; \<open>mctp_init\<close> also returns the number of its heap block.
\<close>

section \<open>Operations\<close>

text \<open>\<open>sizeof (struct mctp)\<close> on the 64-bit target.\<close>

definition SIZEOF_MCTP :: u64 where [simp]: "SIZEOF_MCTP = 1144"

text \<open>The code pointer of \<open>mctp_default_now\<close>; its value at a time is \<open>clock w\<close>.\<close>

definition mctp_default_now :: fnptr where "mctp_default_now = Some 0"

definition zero_mctp :: "'e world \<Rightarrow> 'e world" where
  "zero_mctp w = w\<lparr>n_busses := 0, busses := replicate MCTP_MAX_BUSSES zero_bus, message_rx := None,
     message_rx_data := 0, capture := None, capture_data := 0,
     msg_ctxs := replicate MCTP_REASSEMBLY_CTXS zero_ctx, req_tags := replicate MCTP_REQ_TAGS zero_req_tag,
     tag_round_robin := 0, route_policy := ROUTE_ENDPOINT, max_message_size := 0,
     control := zero_control, alloc_ctx := 0, platform_now := None, platform_now_ctx := 0\<rparr>"

definition mctp_setup :: "u64 \<Rightarrow> 'e world \<Rightarrow> (int \<times> 'e world) res" where
  "mctp_setup struct_mctp_size w =
     (if struct_mctp_size < SIZEOF_MCTP then Inr (- EINVAL, w)
      else let w = (zero_mctp w)\<lparr>max_message_size := MCTP_MAX_MESSAGE_SIZE,
                                 platform_now := mctp_default_now\<rparr>
      in rbind (mctp_control_add_type MCTP_CTRL_HDR_MSG_TYPE (control w)) (\<lambda>(rc, c).
           Inr (0, w\<lparr>control := c\<rparr>)))"

definition mctp_init :: "'e world \<Rightarrow> (nat option \<times> 'e world) res" where
  "mctp_init w =
     rbind (mctp_alloc (ops w) SIZEOF_MCTP (heap w)) (\<lambda>(p, h).
       case p of None \<Rightarrow> Inr (None, w\<lparr>heap := h\<rparr>)
       | Some blk \<Rightarrow>
           rbind (mctp_setup SIZEOF_MCTP (w\<lparr>heap := h\<rparr>)) (\<lambda>(rc, w). Inr (Some blk, w)))"

definition mctp_set_max_message_size :: "u64 \<Rightarrow> 'e world \<Rightarrow> 'e world" where
  "mctp_set_max_message_size message_size w = w\<lparr>max_message_size := message_size\<rparr>"

definition mctp_set_capture_handler :: "fnptr \<Rightarrow> ptr \<Rightarrow> 'e world \<Rightarrow> 'e world" where
  "mctp_set_capture_handler fn user w = w\<lparr>capture := fn, capture_data := user\<rparr>"

definition mctp_set_rx_all :: "fnptr \<Rightarrow> ptr \<Rightarrow> 'e world \<Rightarrow> int \<times> 'e world" where
  "mctp_set_rx_all fn data w = (0, w\<lparr>message_rx := fn, message_rx_data := data\<rparr>)"

definition mctp_get_alloc_ctx :: "'e world \<Rightarrow> ptr" where
  "mctp_get_alloc_ctx w = alloc_ctx w"

definition mctp_set_alloc_ctx :: "ptr \<Rightarrow> 'e world \<Rightarrow> 'e world" where
  "mctp_set_alloc_ctx ctx w = w\<lparr>alloc_ctx := ctx\<rparr>"

subsection \<open>Cleanup\<close>

definition mctp_bus_destroy :: "nat \<Rightarrow> 'e world \<Rightarrow> 'e world res" where
  "mctp_bus_destroy bi w =
     (case tx_msg (bus_at w bi) of None \<Rightarrow> Inr w
      | Some msg \<Rightarrow>
          rbind (w_msg_free (Some msg) True w) (\<lambda>w.
            Inr (set_bus bi ((bus_at w bi)\<lparr>tx_msg := None\<rparr>) w)))"

text \<open>The two loops of \<open>mctp_cleanup\<close>: over the contexts, and \<open>while (n_busses--)\<close> downwards,
  which leaves the counter at -1.\<close>

fun cleanup_ctxs :: "mctp_msg_ctx list \<Rightarrow> 'e world \<Rightarrow> 'e world res" where
  "cleanup_ctxs [] w = Inr w"
| "cleanup_ctxs (c # cs) w =
     (case ctx_buf c of None \<Rightarrow> cleanup_ctxs cs w
      | Some mb \<Rightarrow> rbind (w_msg_free (Some mb) True w) (\<lambda>w. cleanup_ctxs cs w))"

fun cleanup_busses :: "nat \<Rightarrow> 'e world \<Rightarrow> 'e world res" where
  "cleanup_busses 0 w = Inr (w\<lparr>n_busses := -1\<rparr>)"
| "cleanup_busses (Suc n) w =
     rbind (check Out_of_bounds (n < length (busses w))) (\<lambda>_.
     rbind (mctp_bus_destroy n (w\<lparr>n_busses := int n\<rparr>)) (\<lambda>w. cleanup_busses n w))"

definition mctp_cleanup :: "'e world \<Rightarrow> 'e world res" where
  "mctp_cleanup w =
     rbind (cleanup_ctxs (msg_ctxs w) w) (\<lambda>w.
     rbind (check Out_of_bounds (0 \<le> n_busses w)) (\<lambda>_.
       cleanup_busses (nat (n_busses w)) w))"

definition mctp_destroy :: "nat option \<Rightarrow> 'e world \<Rightarrow> 'e world res" where
  "mctp_destroy blk w =
     rbind (mctp_cleanup w) (\<lambda>w.
     rbind (mctp_free (ops w) blk (heap w)) (\<lambda>h. Inr (w\<lparr>heap := h\<rparr>)))"

subsection \<open>Busses\<close>

definition mctp_mmbi_start :: "nat \<Rightarrow> 'e world \<Rightarrow> (int \<times> 'e world) res" where
  "mctp_mmbi_start b w = rbind (mctp_binding_set_tx_enabled b True w) (\<lambda>w. Inr (0, w))"

text \<open>A call of \<open>binding->start\<close>.\<close>

definition binding_start :: "nat \<Rightarrow> 'e start_fn \<Rightarrow> 'e world \<Rightarrow> (int \<times> 'e world) res" where
  "binding_start b f w =
     (case f of Mctp_mmbi_start \<Rightarrow> mctp_mmbi_start b w
      | Ext_start g \<Rightarrow>
          let (rc, e) = g (b_priv (bindings w b))
          in Inr (rc, set_binding b ((bindings w b)\<lparr>b_priv := e\<rparr>) w))"

definition mctp_register_bus :: "nat \<Rightarrow> mctp_eid_t \<Rightarrow> 'e world \<Rightarrow> (int \<times> 'e world) res" where
  "mctp_register_bus b eid w =
     rbind (c_assert (n_busses w = 0)) (\<lambda>_.
     let w = w\<lparr>n_busses := 1\<rparr> in
     rbind (c_assert (b_tx_storage (bindings w b) \<noteq> None)) (\<lambda>_.
     let w = set_bus 0 (zero_bus\<lparr>bus_mctp := True, bus_binding := Some b, bus_eid := eid\<rparr>) w;
         w = set_binding b ((bindings w b)\<lparr>b_bus := Some 0, b_mctp := True\<rparr>) w;
         w = w\<lparr>route_policy := ROUTE_ENDPOINT\<rparr>
     in case b_start (bindings w b) of None \<Rightarrow> Inr (0, w)
        | Some f \<Rightarrow>
            rbind (binding_start b f w) (\<lambda>(rc, w).
              if rc < 0
              then Inr (rc, (set_binding b ((bindings w b)\<lparr>b_bus := None\<rparr>) w)\<lparr>n_busses := 0\<rparr>)
              else Inr (rc, w))))"

definition mctp_unregister_bus :: "nat \<Rightarrow> 'e world \<Rightarrow> 'e world" where
  "mctp_unregister_bus b w =
     set_binding b ((bindings w b)\<lparr>b_mctp := False, b_bus := None\<rparr>) (w\<lparr>n_busses := 0\<rparr>)"

definition mctp_bridge_busses :: "nat \<Rightarrow> nat \<Rightarrow> 'e world \<Rightarrow> (int \<times> 'e world) res" where
  "mctp_bridge_busses b1 b2 w =
     rbind (c_assert (b_tx_storage (bindings w b1) \<noteq> None)) (\<lambda>_.
     rbind (c_assert (b_tx_storage (bindings w b2) \<noteq> None)) (\<lambda>_.
     rbind (c_assert (n_busses w = 0)) (\<lambda>_.
     rbind (c_assert (MCTP_MAX_BUSSES \<ge> 2)) (\<lambda>_.
     let w = set_bus 0 (zero_bus\<lparr>bus_binding := Some b1\<rparr>) (w\<lparr>n_busses := 2\<rparr>);
         w = set_binding b1 ((bindings w b1)\<lparr>b_bus := Some 0, b_mctp := True\<rparr>) w;
         w = set_bus 1 (zero_bus\<lparr>bus_binding := Some b2\<rparr>) w;
         w = set_binding b2 ((bindings w b2)\<lparr>b_bus := Some 1, b_mctp := True\<rparr>) w;
         w = w\<lparr>route_policy := ROUTE_BRIDGE\<rparr>
     in rbind (case b_start (bindings w b1) of None \<Rightarrow> Inr (0, w)
               | Some f \<Rightarrow> binding_start b1 f w) (\<lambda>(rc, w).
        if rc < 0 then Inr (rc, w)
        else case b_start (bindings w b2) of None \<Rightarrow> Inr (rc, w)
             | Some f \<Rightarrow> binding_start b2 f w)))))"

end
