(* ===== verification/Mctp_Type_Table.thy ===== *)
theory Mctp_Type_Table
  imports Mctp_Endpoint
begin

text \<open>
  The table of supported message types, \<^verbatim>\<open>src/control.c\<close> lines 281 to 309, as a bounded set. The
  locale \<open>bounded_set\<close> is the contract (membership after adding and removing, the bound, the error
  when full); it is interpreted on \<open>mctp_control_add_type\<close> and \<open>mctp_control_remove_type\<close>. The
  removal loop goes on with the next index after it has closed a gap, so it is right only because
  the table never holds a type twice, which is part of \<open>control_ok\<close>.
\<close>

section \<open>The contract of a bounded set\<close>

locale bounded_set =
  fixes invar :: "'s \<Rightarrow> bool" and elems :: "'s \<Rightarrow> 'a list" and cap :: nat
    and add :: "'a \<Rightarrow> 's \<Rightarrow> (int \<times> 's) res" and rem :: "'a \<Rightarrow> 's \<Rightarrow> 's res"
  assumes elems_distinct: "invar s \<Longrightarrow> distinct (elems s)"
    and elems_bound: "invar s \<Longrightarrow> length (elems s) \<le> cap"
    and add_spec: "invar s \<Longrightarrow> \<exists>s'. add x s = Inr (if x \<in> set (elems s) \<or> length (elems s) < cap then 0 else - ENOSPC, s') \<and>
          invar s' \<and> elems s' = (if x \<in> set (elems s) \<or> cap \<le> length (elems s) then elems s else elems s @ [x])"
    and rem_spec: "invar s \<Longrightarrow> \<exists>s'. rem x s = Inr s' \<and> invar s' \<and> elems s' = remove1 x (elems s)"
begin

lemma add_member:
  assumes "invar s" and "add x s = Inr (rc, s')"
  shows "rc = 0 \<longleftrightarrow> x \<in> set (elems s')" and "set (elems s') \<subseteq> insert x (set (elems s))"
  using add_spec [OF assms(1), of x] assms(2) elems_bound [OF assms(1)] by (auto split: if_splits)

lemma rem_member:
  assumes "invar s" and "rem x s = Inr s'"
  shows "set (elems s') = set (elems s) - {x}"
  using rem_spec [OF assms(1), of x] assms(2) elems_distinct [OF assms(1)] by auto

text \<open>Removing what was just added gives the old contents back, and after a removal there is room.\<close>

lemma add_rem:
  assumes "invar s" and "x \<notin> set (elems s)" and "add x s = Inr (rc, s1)"
  obtains s2 where "rem x s1 = Inr s2" and "elems s2 = elems s" and "invar s2"
proof -
  have i: "invar s1" and e: "elems s1 = elems s \<or> elems s1 = elems s @ [x]"
    using add_spec [OF assms(1), of x] assms(3) by (auto split: if_splits)
  obtain s2 where s2: "rem x s1 = Inr s2" "invar s2" "elems s2 = remove1 x (elems s1)"
    using rem_spec [OF i] by blast
  moreover have "remove1 x (elems s1) = elems s"
    using e assms(2) by (auto simp: remove1_append remove1_idem)
  ultimately show ?thesis using that by simp
qed

lemma rem_add:
  assumes "invar s" and "x \<in> set (elems s)" and "rem x s = Inr s1"
  obtains s2 where "add y s1 = Inr (0, s2)" and "y \<in> set (elems s2)" and "invar s2"
proof -
  have i: "invar s1" and e: "elems s1 = remove1 x (elems s)"
    using rem_spec [OF assms(1), of x] assms(3) by auto
  have "length (elems s) \<noteq> 0" using assms(2) by auto
  moreover have "length (elems s1) = length (elems s) - 1" using assms(2) by (simp add: e length_remove1)
  ultimately have "length (elems s1) < cap" using elems_bound [OF assms(1)] by linarith
  then show ?thesis using add_spec [OF i, of y] that by (auto split: if_splits)
qed

end

section \<open>The loops\<close>

definition type_list :: "mctp_control \<Rightarrow> u8 list" where
  "type_list c = take (unat (num_msg_types c)) (msg_types c)"

lemma has_type_loop_ok:
  "n \<le> length types \<Longrightarrow> has_type_loop t types n i = Inr (t \<in> set (drop i (take n types)))"
proof (induction t types n i rule: has_type_loop.induct)
  case (1 t types n i)
  show ?case
  proof (cases "i < n")
    case True
    then have d: "drop i (take n types) = types ! i # drop (Suc i) (take n types)"
      using "1.prems" by (simp add: Cons_nth_drop_Suc [symmetric])
    show ?thesis using True "1.prems" "1.IH" [OF True]
      by (subst has_type_loop.simps) (auto simp: rd8_ok d)
  next
    case False
    then show ?thesis by (subst has_type_loop.simps) simp
  qed
qed

lemma remove_type_loop_absent:
  "n \<le> length types \<Longrightarrow> t \<notin> set (take n types) \<Longrightarrow> remove_type_loop t types n i = Inr (types, n)"
proof (induction t types n i rule: remove_type_loop.induct)
  case (1 t types n i)
  show ?case
  proof (cases "i < n")
    case True
    then have i: "i < length types" and ne: "types ! i \<noteq> t"
      using "1.prems" nth_mem [of i "take n types"] by auto
    then show ?thesis using True "1.IH"(2) [OF True rd8_ok [OF i] ne] "1.prems"
      by (subst remove_type_loop.simps) (simp add: rd8_ok)
  qed (simp add: remove_type_loop.simps)
qed

text \<open>\<open>memmove\<close> closes the gap of the entry at \<open>i\<close>.\<close>

lemma close_gap:
  assumes "i < n" and "n \<le> length types"
  shows "mem_read types (i + 1) (n - (i + 1)) = Inr (drop (Suc i) (take n types))"
    and "\<exists>types'. mem_write types i (drop (Suc i) (take n types)) = Inr types' \<and> length types' = length types \<and>
           take (n - 1) types' = take i types @ drop (Suc i) (take n types)"
  using assms by (auto simp: mem_read_def mem_write_def drop_take)

lemma remove_type_loop_ok:
  assumes "n \<le> length types" and "distinct (take n types)" and "i \<le> n"
  shows "\<exists>types' n'. remove_type_loop t types n i = Inr (types', n') \<and> length types' = length types \<and>
     n' \<le> n \<and> take n' types' = take i types @ remove1 t (drop i (take n types))"
  using assms
proof (induction t types n i rule: remove_type_loop.induct)
  case (1 t types n i)
  show ?case
  proof (cases "i < n")
    case False
    then show ?thesis using "1.prems" by (subst remove_type_loop.simps) auto
  next
    case True
    then have i: "i < length types" using "1.prems" by simp
    have d: "drop i (take n types) = types ! i # drop (Suc i) (take n types)"
      using True "1.prems" by (simp add: Cons_nth_drop_Suc [symmetric])
    have dist: "distinct (take i types @ drop i (take n types))"
      using "1.prems"(2) True append_take_drop_id [of i "take n types"] by (simp add: min_absorb1 less_imp_le)
    show ?thesis
    proof (cases "types ! i = t")
      case False
      then have s: "remove_type_loop t types n i = remove_type_loop t types n (Suc i)"
        using True i by (subst remove_type_loop.simps) (simp add: rd8_ok)
      have "take (Suc i) types @ remove1 t (drop (Suc i) (take n types)) = take i types @ remove1 t (drop i (take n types))"
        using False i by (simp add: d take_Suc_conv_app_nth)
      then show ?thesis using "1.IH"(2) [OF True _ False] s "1.prems" True i rd8_ok by simp
    next
      case eq: True
      obtain types1 where w: "mem_write types i (drop (Suc i) (take n types)) = Inr types1"
        and l: "length types1 = length types" and tk: "take (n - 1) types1 = take i types @ drop (Suc i) (take n types)"
        using close_gap(2) [OF True "1.prems"(1)] by blast
      have s: "remove_type_loop t types n i = remove_type_loop t types1 (n - 1) (Suc i)"
        using True i eq w close_gap(1) [OF True "1.prems"(1)] by (subst remove_type_loop.simps) (simp add: rd8_ok)
      have no: "t \<notin> set (take (n - 1) types1)" unfolding tk using dist eq by (auto simp: d)
      have stop: "remove_type_loop t types1 (n - 1) (Suc i) = Inr (types1, n - 1)"
        using no l "1.prems"(1) by (intro remove_type_loop_absent) auto
      show ?thesis using s stop l tk eq by (simp add: d)
    qed
  qed
qed

section \<open>The operations\<close>

lemma control_okD:
  assumes "control_ok c"
  shows "unat (num_msg_types c) \<le> 10" and "length (msg_types c) = 10" and "distinct (type_list c)"
    and "length (type_list c) = unat (num_msg_types c)"
  using assms by (auto simp: control_ok_def type_list_def word_le_nat_alt)

lemma mctp_control_add_type_ok:
  assumes ok: "control_ok c"
  shows "\<exists>c'. mctp_control_add_type t c = Inr (if t \<in> set (type_list c) \<or> length (type_list c) < 10 then 0 else - ENOSPC, c') \<and>
     control_ok c' \<and> type_list c' = (if t \<in> set (type_list c) \<or> 10 \<le> length (type_list c) then type_list c else type_list c @ [t])"
proof -
  note k = control_okD [OF ok]
  have full: "num_msg_types c = 10 \<longleftrightarrow> \<not> length (type_list c) < 10"
    using k(1,4) by (auto simp: word_unat_eq_iff)
  have look: "has_type_loop t (msg_types c) (unat (num_msg_types c)) 0 = Inr (t \<in> set (type_list c))"
    using k(1,2) by (subst has_type_loop_ok) (simp_all add: type_list_def)
  show ?thesis
  proof (cases "t \<in> set (type_list c) \<or> num_msg_types c = 10")
    case True
    then show ?thesis using ok full look by (auto simp: mctp_control_add_type_def)
  next
    case False
    let ?n = "unat (num_msg_types c)"
    let ?c = "c\<lparr>msg_types := take ?n (msg_types c) @ t # drop (Suc ?n) (msg_types c), num_msg_types := num_msg_types c + 1\<rparr>"
    have n: "?n < 10" using False full k(4) by simp
    have u: "unat (num_msg_types c + 1) = Suc ?n" using n by (subst unat_add_no_wrap) simp_all
    have run: "mctp_control_add_type t c = Inr (0, ?c)"
      using False look n k(2) by (simp add: mctp_control_add_type_def mem_write_def)
    have tl: "type_list ?c = type_list c @ [t]"
      using n k(2) u by (simp add: type_list_def)
    moreover have "control_ok ?c"
      unfolding control_ok_def using tl u n k(2,3) False by (simp add: type_list_def word_le_nat_alt)
    ultimately show ?thesis using run False full n k(4) by auto
  qed
qed

lemma mctp_control_remove_type_ok:
  assumes ok: "control_ok c"
  shows "\<exists>c'. mctp_control_remove_type t c = Inr c' \<and> control_ok c' \<and> type_list c' = remove1 t (type_list c)"
proof -
  note k = control_okD [OF ok]
  from remove_type_loop_ok [of "unat (num_msg_types c)" "msg_types c" 0 t] obtain types n where
    r: "remove_type_loop t (msg_types c) (unat (num_msg_types c)) 0 = Inr (types, n)" "length types = 10"
      "n \<le> unat (num_msg_types c)" "take n types = remove1 t (type_list c)"
    using k by (auto simp: type_list_def)
  let ?c = "c\<lparr>msg_types := types, num_msg_types := of_nat n\<rparr>"
  have n: "n \<le> 10" using r(3) k(1) by linarith
  then have u: "unat (of_nat n :: u64) = n" by (simp add: unat_of_nat)
  have "type_list ?c = remove1 t (type_list c)" using r(4) u by (simp add: type_list_def)
  moreover from this have "control_ok ?c"
    unfolding control_ok_def using r(2) n u k(3) by (simp add: type_list_def word_le_nat_alt)
  ultimately show ?thesis using r(1) by (simp add: mctp_control_remove_type_def)
qed

interpretation types: bounded_set control_ok type_list 10 mctp_control_add_type mctp_control_remove_type
proof unfold_locales
  fix c t assume ok: "control_ok c"
  show "distinct (type_list c)" "length (type_list c) \<le> 10" using control_okD [OF ok] by simp_all
  show "\<exists>c'. mctp_control_add_type t c = Inr (if t \<in> set (type_list c) \<or> length (type_list c) < 10 then 0 else - ENOSPC, c') \<and>
     control_ok c' \<and> type_list c' = (if t \<in> set (type_list c) \<or> 10 \<le> length (type_list c) then type_list c else type_list c @ [t])"
    by (rule mctp_control_add_type_ok [OF ok])
  show "\<exists>c'. mctp_control_remove_type t c = Inr c' \<and> control_ok c' \<and> type_list c' = remove1 t (type_list c)"
    by (rule mctp_control_remove_type_ok [OF ok])
qed

section \<open>Properties\<close>

lemma control_ok_ex: "control_ok (zero_control\<lparr>num_msg_types := 1\<rparr>)" "type_list (zero_control\<lparr>num_msg_types := 1\<rparr>) = [0]"
  by (simp_all add: control_ok_def zero_control_def type_list_def)

text \<open>
  C23: the table of message types is a set of at most ten types. \<open>mctp_control_add_type\<close> reports success
  when the type is there afterwards and \<open>-ENOSPC\<close> (with the table unchanged) when the table is full,
  never stores a type twice and keeps the order of registration; \<open>mctp_control_remove_type\<close> removes
  exactly the given type, and undoes an addition: adding a new type and removing it gives the old
  table back, in the old order.
\<close>

theorem control_types_bounded_set:
  assumes "control_ok c"
  shows "(\<exists>c'. mctp_control_add_type t c = Inr (if t \<in> set (type_list c) \<or> length (type_list c) < 10 then 0 else - ENOSPC, c') \<and>
       control_ok c' \<and> type_list c' = (if t \<in> set (type_list c) \<or> 10 \<le> length (type_list c) then type_list c else type_list c @ [t])) \<and>
     (\<exists>c'. mctp_control_remove_type t c = Inr c' \<and> control_ok c' \<and> set (type_list c') = set (type_list c) - {t}) \<and>
     (t \<notin> set (type_list c) \<longrightarrow> (\<forall>rc c1. mctp_control_add_type t c = Inr (rc, c1) \<longrightarrow>
        (\<exists>c2. mctp_control_remove_type t c1 = Inr c2 \<and> type_list c2 = type_list c)))"
proof -
  obtain c' where r: "mctp_control_remove_type t c = Inr c'" "control_ok c'" using types.rem_spec [OF assms] by blast
  have "\<exists>c2. mctp_control_remove_type t c1 = Inr c2 \<and> type_list c2 = type_list c"
    if "t \<notin> set (type_list c)" "mctp_control_add_type t c = Inr (rc, c1)" for rc c1
    by (rule types.add_rem [OF assms that]) blast
  then show ?thesis using types.add_spec [OF assms] r types.rem_member [OF assms r(1)] by blast
qed

theorem control_types_bounded_set_witness:
  "\<exists>c c'. mctp_control_add_type 5 (zero_control\<lparr>num_msg_types := 1\<rparr>) = Inr (0, c) \<and> type_list c = [0, 5] \<and>
     mctp_control_remove_type 5 c = Inr c' \<and> type_list c' = [0]"
proof -
  note t = control_types_bounded_set [OF control_ok_ex(1), of 5, unfolded control_ok_ex(2)]
  from t obtain c where c: "mctp_control_add_type 5 (zero_control\<lparr>num_msg_types := 1\<rparr>) = Inr (0, c)" "type_list c = [0, 5]" by auto
  with t show ?thesis by auto
qed

end
