(* ===== verification/Mctp_Api.thy ===== *)
theory Mctp_Api
  imports Mctp_Receive Mctp_Instance Mctp_Type_Table
begin

text \<open>
  The whole interface of a running endpoint. \<open>api\<close> are the calls an application or a binding can
  make, \<open>api_call\<close> runs one, \<open>api_ok\<close> says which arguments are allowed, and \<open>reach\<close> are the
  states that any sequence of such calls leads to. In the context of \<open>safe_tx\<close> every call keeps the
  invariant \<open>endpoint_ok\<close> and none faults, so that both hold for every reachable state.
\<close>

lemma and_7_id: "t < 8 \<Longrightarrow> t AND 7 = (t :: u8)"
proof -
  assume "t < 8"
  then have "take_bit 3 t = t" by (simp add: word_unat_eq_iff unsigned_take_bit_eq take_bit_nat_eq_self word_less_nat_alt)
  then show ?thesis by (simp add: take_bit_eq_mask mask_eq_exp_minus_1)
qed

section \<open>The remaining operations\<close>

lemma mctp_now_ok:
  assumes "endpoint_ok tx P mtu b F w"
  obtains now where "mctp_now w = Inr now"
  using assms by (auto simp: mctp_now_def endpoint_defs)

lemma endpoint_tags: "endpoint_ok tx P mtu b F w \<Longrightarrow> \<forall>x\<in>set (req_tags w). rt_tag x < 8"
  by (simp add: endpoint_defs)

text \<open>Allocating a tag either fails and changes nothing, or records a tag below 8 that no active
  request between the two endpoints uses.\<close>

lemma mctp_alloc_tag_endpoint:
  assumes ok: "endpoint_ok tx P mtu b F w" and l: "l \<noteq> 0"
  obtains (busy) "mctp_alloc_tag l r w = Inr ((- EBUSY, None), w)"
  | (got) tag w' now i where "mctp_alloc_tag l r w = Inr ((0, Some tag), w')" and "tag AND 7 = tag"
      and "endpoint_ok tx P mtu b F w'" and "rx_frame w w'" and "bus_at w' 0 = bus_at w 0" and "trace w' = trace w"
      and "mctp_now w = Inr now" and "tag \<notin> active_tags now l r (req_tags w)" and "i < length (req_tags w)"
      and "\<not> tag_active now (req_tags w ! i)"
      and "req_tags w' = (req_tags w)[i := \<lparr>rt_local = l, rt_remote = r, rt_tag = tag, rt_expiry = now + MCTP_TAG_TIMEOUT\<rparr>]"
proof -
  obtain now where now: "mctp_now w = Inr now" by (rule mctp_now_ok [OF ok])
  have "mctp_alloc_tag l r w = Inr ((- EBUSY, None), w) \<or> (\<exists>tag w'. mctp_alloc_tag l r w = Inr ((0, Some tag), w'))"
    using now l by (auto simp: mctp_alloc_tag_def split: prod.split option.split)
  then consider "mctp_alloc_tag l r w = Inr ((- EBUSY, None), w)"
    | tag w' where "mctp_alloc_tag l r w = Inr ((0, Some tag), w')" by blast
  then show ?thesis
  proof cases
    case 1
    then show ?thesis by (rule busy)
  next
    case (2 tag w')
    from mctp_alloc_tag_okE [OF 2 now endpoint_tags [OF ok]] obtain i where
      i: "i < length (req_tags w)" "\<not> tag_active now (req_tags w ! i)" and t: "tag < 8"
      and fresh: "tag \<notin> active_tags now l r (req_tags w)" and w': "w' = w\<lparr>req_tags := (req_tags w)[i := \<lparr>rt_local = l, rt_remote = r, rt_tag = tag,
            rt_expiry = now + MCTP_TAG_TIMEOUT\<rparr>], tag_round_robin := of_nat ((unat tag + 1) mod 8)\<rparr>" by blast
    show ?thesis
    proof (rule got [OF 2])
      show "tag AND 7 = tag" using t by (rule and_7_id)
      show "endpoint_ok tx P mtu b F w'" using ok t unfolding w'
        by (auto simp: endpoint_defs bus_at_def dest!: set_update_subset_insert [THEN subsetD])
    qed (simp_all add: w' rx_frame_def bus_at_def now fresh i)
  qed
qed

lemma endpoint_ok_config:
  assumes "endpoint_ok tx P mtu b F w"
  shows "endpoint_ok tx P mtu b F (mctp_set_max_message_size n w)"
    and "endpoint_ok tx P mtu b F (mctp_set_capture_handler f u w)"
    and "endpoint_ok tx P mtu b F (snd (mctp_set_rx_all f u w))"
    and "endpoint_ok tx P mtu b F (mctp_set_alloc_ctx u w)"
    and "endpoint_ok tx P mtu b F (w\<lparr>clock := c\<rparr>)"
    and "mctp_set_now_op (Some n') u w = Inr (w\<lparr>platform_now := Some n', platform_now_ctx := u\<rparr>)"
    and "endpoint_ok tx P mtu b F (w\<lparr>platform_now := Some n', platform_now_ctx := u\<rparr>)"
  using assms by (simp_all add: endpoint_defs bus_at_def owned_def
      mctp_set_max_message_size_def mctp_set_capture_handler_def mctp_set_rx_all_def mctp_set_alloc_ctx_def mctp_set_now_op_def)

text \<open>What a request leaves in the tag table.\<close>

definition tag_recorded :: "'e world \<Rightarrow> u8 \<Rightarrow> u8 \<Rightarrow> u8 \<Rightarrow> 'e world \<Rightarrow> bool" where
  "tag_recorded w l r tag w' \<longleftrightarrow> (\<exists>now i. mctp_now w = Inr now \<and> tag AND 7 = tag \<and> tag \<notin> active_tags now l r (req_tags w) \<and>
     i < length (req_tags w) \<and> \<not> tag_active now (req_tags w ! i) \<and>
     req_tags w' = (req_tags w)[i := \<lparr>rt_local = l, rt_remote = r, rt_tag = tag, rt_expiry = now + MCTP_TAG_TIMEOUT\<rparr>])"

text \<open>A tag just recorded in a table without expired entries, and its release.\<close>

lemma recorded_then_released:
  assumes "tag_recorded w l r tag w'" and "mctp_now w = Inr now" and "now \<le> now + MCTP_TAG_TIMEOUT" and "l \<noteq> 0"
    and "slots_unique tag_used tag_key (req_tags w)" and "\<forall>x\<in>set (req_tags w). tag_used x \<longrightarrow> tag_active now x"
  shows "active_tags now a c (req_tags w') =
       (if a = l \<and> c = r then insert tag (active_tags now a c (req_tags w)) else active_tags now a c (req_tags w))"
    and "active_tags now a c (release_tag l r tag (req_tags w')) = active_tags now a c (req_tags w)"
proof -
  obtain i where i: "i < length (req_tags w)" "\<not> tag_active now (req_tags w ! i)" "tag \<notin> active_tags now l r (req_tags w)"
    and w': "req_tags w' = (req_tags w)[i := \<lparr>rt_local = l, rt_remote = r, rt_tag = tag, rt_expiry = now + MCTP_TAG_TIMEOUT\<rparr>]"
    using assms(1,2) by (auto simp: tag_recorded_def)
  have "\<not> now + MCTP_TAG_TIMEOUT < now" using assms(3) by simp
  from active_tags_fill [OF i(1,2) assms(4) this] show
    f: "active_tags now a c (req_tags w') =
       (if a = l \<and> c = r then insert tag (active_tags now a c (req_tags w)) else active_tags now a c (req_tags w))" for a c
    by (simp add: w')
  have "slots_unique tag_used tag_key (req_tags w')"
    unfolding w' by (rule slots_unique_fill [OF assms(5,6) i(1,3)])
  from release_tag_active(2) [OF assms(4) this] show
    "active_tags now a c (release_tag l r tag (req_tags w')) = active_tags now a c (req_tags w)"
    using f i(3) by auto
qed

context safe_tx
begin

lemma set_tx_enabled_ok:
  assumes ok: "endpoint_ok tx P mtu b F w"
  obtains w' where "mctp_binding_set_tx_enabled b en w = Inr w'" and "endpoint_ok tx P mtu b F w'"
    and "bus_state (bus_at w' 0) = (if en then mctp_bus_state_tx_enabled
           else if bus_state (bus_at w 0) = mctp_bus_state_constructed then mctp_bus_state_constructed
           else mctp_bus_state_tx_disabled)"
proof -
  let ?s = "\<lambda>st. set_bus 0 ((bus_at w 0)\<lparr>bus_state := st\<rparr>) w"
  have b: "b_bus (bindings w b) = Some 0" and pk: "\<not> b_pkt_size (bindings w b) < 68" and l: "length (busses w) = 2"
    using ok by (auto simp: endpoint_defs binding_ok_def word_less_nat_alt)
  have set_ok: "endpoint_ok tx P mtu b F (?s st)" for st
    using ok by (simp add: endpoint_defs tx_pending_ok_def owned_def)
  obtain w1 where q: "mctp_send_tx_queue 0 (?s mctp_bus_state_tx_enabled) = Inr w1"
    "endpoint_ok tx P mtu b F w1" "tx_frame b (?s mctp_bus_state_tx_enabled) w1"
    by (rule queue_ok [OF set_ok])
  have st1: "bus_state (bus_at w1 0) = mctp_bus_state_tx_enabled" using q(3) l by (simp add: tx_frame_def)
  show ?thesis
  proof (cases "bus_state (bus_at w 0)")
    case mctp_bus_state_constructed
    then show ?thesis using that [of w] that [of "?s mctp_bus_state_tx_enabled"] b pk l ok set_ok
      by (cases en) (simp_all add: mctp_binding_set_tx_enabled_def)
  next
    case mctp_bus_state_tx_enabled
    then show ?thesis using that [of w] that [of "?s mctp_bus_state_tx_disabled"] b l ok set_ok
      by (cases en) (simp_all add: mctp_binding_set_tx_enabled_def)
  next
    case mctp_bus_state_tx_disabled
    then show ?thesis using that [of w] that [of w1] b q(1,2) st1 ok
      by (cases en) (simp_all add: mctp_binding_set_tx_enabled_def)
  qed
qed

lemma message_tx_ok:
  assumes ok: "endpoint_ok tx P mtu b F w" and len: "unat n \<le> length msg"
  obtains rc w' where "mctp_message_tx eid to tag msg n w = Inr (rc, w')"
    and "endpoint_ok tx P mtu b F w'" and "tx_frame b w w'"
    and "rc = - ENOMEM \<or> rc = (if tag AND 7 \<noteq> tag then - EINVAL
               else if bus_state (bus_at w 0) = mctp_bus_state_constructed then - ENXIO
               else if tx_msg (bus_at w 0) \<noteq> None then - EBUSY else 0)"
proof -
  obtain p h where d: "mctp_msg_dup msg 0 n True w = Inr (p, w\<lparr>heap := h\<rparr>)"
    "endpoint_ok tx P mtu b (own p + F) (w\<lparr>heap := h\<rparr>)"
    "\<And>mb. p = Some mb \<Longrightarrow> mb_data mb = take (unat n) (drop 0 msg)"
    using len by (rule_tac mctp_msg_dup_ok [OF ok, of 0 n msg]) (simp, rule that)
  note that' = that
  show ?thesis
  proof (cases p)
    case None
    then show ?thesis using d by (intro that [of "- ENOMEM" "w\<lparr>heap := h\<rparr>"]) (simp_all add: mctp_message_tx_def)
  next
    case (Some mb)
    show ?thesis
    proof (rule tx_alloced_ok [of b mb F "w\<lparr>heap := h\<rparr>" n eid to tag])
      fix rc w'
      assume "mctp_message_tx_alloced eid to tag mb n (w\<lparr>heap := h\<rparr>) = Inr (rc, w')"
        "endpoint_ok tx P mtu b F w'" "tx_frame b (w\<lparr>heap := h\<rparr>) w'"
        "rc = (if tag AND 7 \<noteq> tag then - EINVAL
               else if bus_state (bus_at (w\<lparr>heap := h\<rparr>) 0) = mctp_bus_state_constructed then - ENXIO
               else if tx_msg (bus_at (w\<lparr>heap := h\<rparr>) 0) \<noteq> None then - EBUSY else 0)"
      moreover from this have "tx_frame b w w'" using tx_frame_trans tx_frame_heap by blast
      ultimately show thesis using d(1) Some
        by (intro that' [of rc w']) (simp_all add: mctp_message_tx_def)
    qed (use d Some len in simp_all)
  qed
qed

text \<open>A request: the tag that is sent is fresh and recorded, whatever becomes of the message.\<close>

lemma tx_request_ok:
  assumes ok: "endpoint_ok tx P mtu b (add_mset (mb_blk mb) F) w" and len: "unat n \<le> length (mb_data mb)"
    and eid: "bus_eid (bus_at w 0) \<noteq> 0"
  obtains rc t w' where "mctp_message_tx_request eid mb n w = Inr ((rc, t), w')"
    and "endpoint_ok tx P mtu b F w'"
    and "bus_eid (bus_at w' 0) = bus_eid (bus_at w 0)"
    and "case t of None \<Rightarrow> rc = - EBUSY \<and> req_tags w' = req_tags w
         | Some tag \<Rightarrow> tag_recorded w (bus_eid (bus_at w 0)) eid tag w' \<and>
             rc = (if bus_state (bus_at w 0) = mctp_bus_state_constructed then - ENXIO
                   else if tx_msg (bus_at w 0) \<noteq> None then - EBUSY else 0)"
proof -
  have f: "find_bus_for_eid w eid = Some 0" using ok by (simp add: endpoint_defs find_bus_for_eid_def)
  note that' = that
  from ok eid show ?thesis
  proof (cases rule: mctp_alloc_tag_endpoint [where r = eid])
    case busy
    from ok have g: "good_ops (ops w)" and sh: "ep_shape tx P mtu b w"
      and ow: "heap_owns (add_mset (mb_blk mb) (owned w + F)) (heap w)"
      by (auto simp: endpoint_defs)
    from w_msg_free_owns [OF g ow] obtain h where
      "w_msg_free (Some mb) True w = Inr (w\<lparr>heap := h\<rparr>)" "heap_owns (owned w + F) h" by blast
    then show ?thesis using busy f sh
      by (intro that [of "- EBUSY" None "w\<lparr>heap := h\<rparr>"]) (simp_all add: mctp_message_tx_request_def endpoint_ok_def)
  next
    case (got tag w1)
    show ?thesis
    proof (rule tx_alloced_ok [OF got(3) len, of eid True tag])
      fix rc w' assume run: "mctp_message_tx_alloced eid True tag mb n w1 = Inr (rc, w')" "endpoint_ok tx P mtu b F w'"
        and fr: "tx_frame b w1 w'"
        and rc: "rc = (if tag AND 7 \<noteq> tag then - EINVAL
               else if bus_state (bus_at w1 0) = mctp_bus_state_constructed then - ENXIO
               else if tx_msg (bus_at w1 0) \<noteq> None then - EBUSY else 0)"
      have fr: "req_tags w' = req_tags w1" "bus_eid (bus_at w' 0) = bus_eid (bus_at w1 0)" using fr by (simp_all add: tx_frame_def)
      then have "tag_recorded w (bus_eid (bus_at w 0)) eid tag w'" using got(2,7-11) by (auto simp: tag_recorded_def)
      then show thesis using got(1,2,5) f run rc fr(2)
        by (intro that' [of rc "Some tag" w']) (simp_all add: mctp_message_tx_request_def)
    qed
  qed
qed

end

section \<open>Sequences of calls\<close>

text \<open>The multiset beside the state are the blocks the application holds: \<open>Msg_alloc\<close> gives it one,
  the calls that take a buffer consume it. \<open>Tick\<close> is the passing of time.\<close>

datatype api =
    Bus_rx mctp_pktbuf
  | Message_tx u8 bool u8 bytes u64
  | Message_tx_alloced u8 bool u8 msgbuf u64
  | Message_tx_request u8 msgbuf u64
  | Msg_alloc u64
  | Set_tx_enabled bool
  | Bus_set_eid u8
  | Add_type u8
  | Remove_type u8
  | Set_rx_all fnptr ptr
  | Set_capture_handler fnptr ptr
  | Set_max_message_size u64
  | Set_alloc_ctx ptr
  | Set_now_op nat ptr
  | Tick "nat \<Rightarrow> ptr \<Rightarrow> u64"

fun api_ok :: "api \<Rightarrow> nat multiset \<times> 'e world \<Rightarrow> bool" where
  "api_ok (Bus_rx pkt) (F, w) \<longleftrightarrow> pktbuf_wf pkt \<and> mctp_hdr_off pkt = pk_start pkt"
| "api_ok (Message_tx eid to tag msg n) (F, w) \<longleftrightarrow> unat n \<le> length msg"
| "api_ok (Message_tx_alloced eid to tag mb n) (F, w) \<longleftrightarrow> mb_blk mb \<in># F \<and> unat n \<le> length (mb_data mb)"
| "api_ok (Message_tx_request eid mb n) (F, w) \<longleftrightarrow>
     mb_blk mb \<in># F \<and> unat n \<le> length (mb_data mb) \<and> bus_eid (bus_at w 0) \<noteq> 0"
| "api_ok c s \<longleftrightarrow> True"

fun api_call :: "nat \<Rightarrow> api \<Rightarrow> nat multiset \<times> 'e world \<Rightarrow> (nat multiset \<times> 'e world) res" where
  "api_call b (Bus_rx pkt) (F, w) = rbind (mctp_bus_rx b pkt w) (\<lambda>w. Inr (F, w))"
| "api_call b (Message_tx eid to tag msg n) (F, w) =
     rbind (mctp_message_tx eid to tag msg n w) (\<lambda>(rc, w). Inr (F, w))"
| "api_call b (Message_tx_alloced eid to tag mb n) (F, w) =
     rbind (mctp_message_tx_alloced eid to tag mb n w) (\<lambda>(rc, w). Inr (F - {#mb_blk mb#}, w))"
| "api_call b (Message_tx_request eid mb n) (F, w) =
     rbind (mctp_message_tx_request eid mb n w) (\<lambda>(rc, w). Inr (F - {#mb_blk mb#}, w))"
| "api_call b (Msg_alloc n) (F, w) = rbind (w_msg_alloc n True w) (\<lambda>(p, w). Inr (own p + F, w))"
| "api_call b (Set_tx_enabled en) (F, w) = rbind (mctp_binding_set_tx_enabled b en w) (\<lambda>w. Inr (F, w))"
| "api_call b (Bus_set_eid eid) (F, w) = rbind (mctp_bus_set_eid b eid w) (\<lambda>(rc, w). Inr (F, w))"
| "api_call b (Add_type t) (F, w) =
     rbind (mctp_control_add_type t (control w)) (\<lambda>(rc, c). Inr (F, w\<lparr>control := c\<rparr>))"
| "api_call b (Remove_type t) (F, w) =
     rbind (mctp_control_remove_type t (control w)) (\<lambda>c. Inr (F, w\<lparr>control := c\<rparr>))"
| "api_call b (Set_rx_all f d) (F, w) = Inr (F, snd (mctp_set_rx_all f d w))"
| "api_call b (Set_capture_handler f d) (F, w) = Inr (F, mctp_set_capture_handler f d w)"
| "api_call b (Set_max_message_size n) (F, w) = Inr (F, mctp_set_max_message_size n w)"
| "api_call b (Set_alloc_ctx d) (F, w) = Inr (F, mctp_set_alloc_ctx d w)"
| "api_call b (Set_now_op f d) (F, w) = rbind (mctp_set_now_op (Some f) d w) (\<lambda>w. Inr (F, w))"
| "api_call b (Tick c) (F, w) = Inr (F, w\<lparr>clock := c\<rparr>)"

inductive reach :: "nat \<Rightarrow> nat multiset \<times> 'e world \<Rightarrow> nat multiset \<times> 'e world \<Rightarrow> bool" for b s where
  start: "reach b s s"
| step: "reach b s t \<Longrightarrow> api_ok c t \<Longrightarrow> api_call b c t = Inr u \<Longrightarrow> reach b s u"

lemma endpoint_ok_control:
  "endpoint_ok tx P mtu b F w \<Longrightarrow> control_ok c \<Longrightarrow> endpoint_ok tx P mtu b F (w\<lparr>control := c\<rparr>)"
  by (simp add: endpoint_defs bus_at_def owned_def)

lemma endpoint_ok_controlD: "endpoint_ok tx P mtu b F w \<Longrightarrow> control_ok (control w)"
  by (simp add: endpoint_defs)

context safe_tx
begin

lemma api_call_ok:
  assumes ok: "endpoint_ok tx P mtu b F w" and c: "api_ok c (F, w)"
  obtains F' w' where "api_call b c (F, w) = Inr (F', w')" and "endpoint_ok tx P mtu b F' w'"
proof (cases c)
  case (Bus_rx pkt)
  then show ?thesis using that c by (rule_tac bus_rx_safe [OF ok, of pkt]) auto
next
  case (Message_tx eid to tag msg n)
  then show ?thesis using that c by (rule_tac message_tx_ok [OF ok, of n msg eid to tag]) auto
next
  case (Message_tx_alloced eid to tag mb n)
  then have "endpoint_ok tx P mtu b (add_mset (mb_blk mb) (F - {#mb_blk mb#})) w" using ok c by simp
  then show ?thesis using that c Message_tx_alloced
    by (rule_tac tx_alloced_ok [of b mb "F - {#mb_blk mb#}" w n eid to tag]) auto
next
  case (Message_tx_request eid mb n)
  then have "endpoint_ok tx P mtu b (add_mset (mb_blk mb) (F - {#mb_blk mb#})) w" using ok c by simp
  then show ?thesis using that c Message_tx_request
    by (rule_tac tx_request_ok [of b mb "F - {#mb_blk mb#}" w n eid]) auto
next
  case (Msg_alloc n)
  have "good_ops (ops w)" "heap_owns (owned w + F) (heap w)" using ok by (auto simp: endpoint_defs)
  then show ?thesis using that ok Msg_alloc
    by (rule_tac w_msg_alloc_owns [of w "owned w + F" n]) (auto simp: endpoint_ok_def ac_simps)
next
  case (Set_tx_enabled en)
  then show ?thesis using that by (rule_tac set_tx_enabled_ok [OF ok, of en]) auto
next
  case (Bus_set_eid eid)
  then show ?thesis using that by (rule_tac mctp_bus_set_eid_ok [OF ok, of eid]) auto
next
  case (Add_type t)
  then show ?thesis
    using that mctp_control_add_type_ok [OF endpoint_ok_controlD [OF ok], of t] endpoint_ok_control [OF ok] by auto
next
  case (Remove_type t)
  then show ?thesis
    using that mctp_control_remove_type_ok [OF endpoint_ok_controlD [OF ok], of t] endpoint_ok_control [OF ok] by auto
qed (use that endpoint_ok_config [OF ok] in \<open>auto simp: mctp_set_now_op_def\<close>)

lemma reach_ok:
  assumes "reach b (F, w) s" and "endpoint_ok tx P mtu b F w"
  shows "case s of (F', w') \<Rightarrow> endpoint_ok tx P mtu b F' w'"
  using assms(1)
proof (induction rule: reach.induct)
  case start
  then show ?case using assms(2) by simp
next
  case (step t c u)
  obtain F1 w1 where t: "t = (F1, w1)" by (cases t)
  with step show ?case by (rule_tac api_call_ok [of b F1 w1 c]) auto
qed

lemma reach_no_fault:
  assumes "reach b (F, w) s" and "endpoint_ok tx P mtu b F w" and "api_ok c s"
  shows "\<exists>s'. api_call b c s = Inr s'"
proof -
  obtain F1 w1 where s: "s = (F1, w1)" by (cases s)
  then have "endpoint_ok tx P mtu b F1 w1" "api_ok c (F1, w1)" using reach_ok [OF assms(1,2)] assms(3) by simp_all
  then show ?thesis by (rule_tac api_call_ok [of b F1 w1 c]) (simp_all add: s)
qed

end

end
