(* ===== verification/Mctp_Frames.thy ===== *)
theory Mctp_Frames
  imports Mctp_Tx
begin

text \<open>
  What a message looks like on the wire, independent of the transmit loop: \<open>chunks\<close> cuts it
  into payloads of the transmission unit, \<open>frames\<close> puts a header with start, end and sequence
  number in front of each. The locale \<open>reliable_tx\<close> is a binding that accepts every packet; in
  it the loop of \<^verbatim>\<open>src/core.c\<close> lines 794 to 825 sends exactly these frames.
\<close>

section \<open>Reference: the frames of a message\<close>

function chunks :: "nat \<Rightarrow> bytes \<Rightarrow> bytes list" where
  "chunks n xs = (if n = 0 \<or> length xs \<le> n then [xs] else take n xs # chunks n (drop n xs))"
  by pat_completeness auto
termination
  by (relation "measure (\<lambda>(n, xs). length xs)") auto

declare chunks.simps [simp del]

fun frames :: "(bool \<Rightarrow> bool \<Rightarrow> u8 \<Rightarrow> mctp_hdr) \<Rightarrow> bool \<Rightarrow> u8 \<Rightarrow> bytes list \<Rightarrow> bytes list" where
  "frames H som sq [] = []"
| "frames H som sq (c # cs) = (hdr_bytes (H som (cs = []) sq) @ c) # frames H False ((sq + 1) AND 3) cs"

definition sent_frames :: "nat \<Rightarrow> event list \<Rightarrow> bytes list" where
  "sent_frames b evs = concat (map (\<lambda>ev. case ev of
      Ev_tx b' pkt rc \<Rightarrow> if b' = b \<and> rc = 0 then [pktbuf_bytes pkt] else [] | _ \<Rightarrow> []) evs)"

definition msg_frames :: "'e mctp_binding \<Rightarrow> mctp_bus \<Rightarrow> bool \<Rightarrow> u8 \<Rightarrow> bytes \<Rightarrow> bytes list" where
  "msg_frames bnd bus som sq msg =
     frames (\<lambda>som eom sq. frag_hdr bnd (bus\<lparr>tx_seq := sq\<rparr>) som eom) som sq
       (chunks (unat (b_pkt_size bnd) - 4) msg)"

lemma chunks_not_Nil [simp]: "chunks n xs \<noteq> []"
  by (subst chunks.simps) simp

lemma concat_chunks [simp]: "concat (chunks n xs) = xs"
proof (induction n xs rule: chunks.induct)
  case (1 n xs)
  then show ?case by (subst chunks.simps) simp
qed

lemma sent_frames_simps [simp]:
  "sent_frames b [] = []"
  "sent_frames b (Ev_tx b' pkt rc # evs) =
     (if b' = b \<and> rc = 0 then [pktbuf_bytes pkt] else []) @ sent_frames b evs"
  by (simp_all add: sent_frames_def)

lemma sent_frames_append [simp]: "sent_frames b (xs @ ys) = sent_frames b xs @ sent_frames b ys"
  by (simp add: sent_frames_def)

lemma sent_frames_capture [simp]: "sent_frames b (capture_events pkt out w) = []"
  by (cases "capture w") (simp_all add: sent_frames_def capture_events_def)

lemma frag_hdr_upd [simp]:
  "frag_hdr (bnd\<lparr>b_tx_storage := st, b_priv := e\<rparr>) (bus\<lparr>tx_msg := m, tx_msgpos := p, tx_pktlen := pl, tx_seq := sq\<rparr>) som eom =
   frag_hdr bnd (bus\<lparr>tx_seq := sq\<rparr>) som eom"
  by (simp add: frag_hdr_def)

lemma msg_frames_upd [simp]:
  "msg_frames (bnd\<lparr>b_tx_storage := st, b_priv := e\<rparr>) (bus\<lparr>tx_msg := m, tx_msgpos := p, tx_pktlen := pl, tx_seq := sq\<rparr>) som sq' msg =
   msg_frames bnd bus som sq' msg"
  by (simp add: msg_frames_def frag_hdr_def)

text \<open>A message that is cut and framed again from its parts.\<close>

lemma msg_frames_last:
  assumes "length msg \<le> unat (b_pkt_size bnd) - 4"
  shows "msg_frames bnd bus som sq msg = [hdr_bytes (frag_hdr bnd (bus\<lparr>tx_seq := sq\<rparr>) som True) @ msg]"
  using assms by (simp add: msg_frames_def chunks.simps [of _ msg])

lemma msg_frames_more:
  assumes "n = unat (b_pkt_size bnd) - 4" and "0 < n" and "n < length msg"
  shows "msg_frames bnd bus som sq msg =
    (hdr_bytes (frag_hdr bnd (bus\<lparr>tx_seq := sq\<rparr>) som False) @ take n msg) #
      msg_frames bnd bus False ((sq + 1) AND 3) (drop n msg)"
  using assms by (simp add: msg_frames_def chunks.simps [of _ msg])

text \<open>The frames carry the message, each fits the transmission unit, and there are as many as needed.\<close>

lemma chunks_bound: "0 < n \<Longrightarrow> c \<in> set (chunks n xs) \<Longrightarrow> length c \<le> n"
proof (induction n xs rule: chunks.induct)
  case (1 n xs)
  then show ?case by (subst (asm) (2) chunks.simps) (auto split: if_splits)
qed

lemma length_chunks: "0 < n \<Longrightarrow> length (chunks n xs) = max 1 ((length xs + n - 1) div n)"
proof (induction n xs rule: chunks.induct)
  case (1 n xs)
  show ?case
  proof (cases "length xs \<le> n")
    case True
    then have "length xs + n - 1 < 2 * n" using 1(2) by linarith
    then have "(length xs + n - 1) div n < 2" by (rule less_mult_imp_div_less)
    then have "(length xs + n - 1) div n \<le> 1" by linarith
    then show ?thesis using True by (subst chunks.simps) simp
  next
    case False
    define q where "q = length xs - n + n - 1"
    have e: "length xs + n - 1 = q + n" using False 1(2) by (simp add: q_def)
    have "(q + n) div n = q div n + 1" using 1(2) by (intro div_add_self2) simp
    moreover have "1 \<le> q div n" using False 1(2) by (simp add: q_def Suc_le_eq div_greater_zero_iff)
    moreover have "length (chunks n (drop n xs)) = max 1 (q div n)" using 1 False by (simp add: q_def)
    moreover have "chunks n xs = take n xs # chunks n (drop n xs)" using False 1(2) by (subst chunks.simps) simp
    ultimately show ?thesis unfolding e by simp
  qed
qed

lemma frames_shape:
  "map (drop 4) (frames H som sq cs) = cs" "length (frames H som sq cs) = length cs"
  by (induction cs arbitrary: som sq) (auto simp: hdr_bytes_def)

lemma frames_length: "f \<in> set (frames H som sq cs) \<Longrightarrow> \<exists>c\<in>set cs. length f = 4 + length c"
  by (induction cs arbitrary: som sq) (auto simp: hdr_bytes_def)

lemma msg_frames_shape:
  assumes "4 < unat (b_pkt_size bnd)"
  shows "concat (map (drop 4) (msg_frames bnd bus som sq msg)) = msg"
    and "\<forall>f\<in>set (msg_frames bnd bus som sq msg). 4 \<le> length f \<and> length f \<le> unat (b_pkt_size bnd)"
    and "length (msg_frames bnd bus som sq msg) = max 1 ((length msg + (unat (b_pkt_size bnd) - 4) - 1) div (unat (b_pkt_size bnd) - 4))"
  using assms chunks_bound [of "unat (b_pkt_size bnd) - 4"] length_chunks [of "unat (b_pkt_size bnd) - 4" msg]
  by (fastforce simp: msg_frames_def frames_shape dest!: frames_length)+

section \<open>A binding that accepts every packet\<close>

locale reliable_tx = safe_tx +
  assumes tx_accepts: "P e \<Longrightarrow> rx_pkt pkt \<Longrightarrow> length (pktbuf_bytes pkt) \<le> mtu \<Longrightarrow>
      tx e pkt = Inr (rc, e') \<Longrightarrow> rc = 0"
begin

lemma sends_one:
  assumes r: "tx_ready tx P mtu bi b w" and bus: "bus_at w bi = bus" and msg: "tx_msg bus = Some mb"
    and en: "bus_state bus = mctp_bus_state_tx_enabled"
  obtains pkt m h e' where
    "\<And>fuel. send_tx_queue (Suc fuel) bi w = send_tx_queue fuel bi
       (tx_upd bi b m (tx_msgpos bus + of_nat (frag_len (bindings w b) bus))
          (of_nat (frag_len (bindings w b) bus)) ((tx_seq bus + 1) AND 3) pkt e' h
          (capture_events pkt True w @ [Ev_tx b pkt 0]) w)"
    and "tx_ready tx P mtu bi b
       (tx_upd bi b m (tx_msgpos bus + of_nat (frag_len (bindings w b) bus))
          (of_nat (frag_len (bindings w b) bus)) ((tx_seq bus + 1) AND 3) pkt e' h
          (capture_events pkt True w @ [Ev_tx b pkt 0]) w)"
    and "unat (tx_msgpos bus) + frag_len (bindings w b) bus \<noteq> unat (tx_msglen bus) \<and>
           m = Some mb \<and> h = heap w \<or>
         unat (tx_msgpos bus) + frag_len (bindings w b) bus = unat (tx_msglen bus) \<and>
           m = None \<and> h_live h = h_live (heap w) - {mb_blk mb}"
    and "pktbuf_bytes pkt = hdr_bytes (frag_hdr (bindings w b) bus (tx_msgpos bus = 0)
            (unat (tx_msgpos bus) + frag_len (bindings w b) bus = unat (tx_msglen bus))) @
          take (frag_len (bindings w b) bus) (drop (unat (tx_msgpos bus)) (mb_data mb))"
proof -
  let ?n = "frag_len (bindings w b) bus"
  obtain pkt w1 rc e' where nxt: "mctp_next_tx_pkt bi w = Inr (Some pkt, w1)"
    and snd: "mctp_packet_tx bi pkt w1 = Inr (rc, tx_upd bi b (Some mb) (tx_msgpos bus)
         (of_nat ?n) (tx_seq bus) pkt e' (heap w) (capture_events pkt True w @ [Ev_tx b pkt rc]) w)"
    and t: "tx (b_priv (bindings w b)) pkt = Inr (rc, e')" and e: "P e'" and pkt: "rx_pkt pkt"
    and bytes: "pktbuf_bytes pkt = hdr_bytes (frag_hdr (bindings w b) bus (tx_msgpos bus = 0)
            (unat (tx_msgpos bus) + ?n = unat (tx_msglen bus))) @ take ?n (drop (unat (tx_msgpos bus)) (mb_data mb))"
    and len: "length (pk_data pkt) = unat (pktbuf_storage_size (bindings w b))"
    using one_packet [OF r bus msg en] by metis
  have "?n \<le> mtu - 4" "4 \<le> mtu" using r by (auto simp: frag_len_def binding_ok_def tx_ready_def)
  then have "length (pktbuf_bytes pkt) \<le> mtu" using bytes by simp
  then have rc: "rc = 0" using r tx_accepts [OF _ pkt _ t] by (simp add: tx_ready_def)
  obtain m h where cmp: "mctp_tx_complete bi (tx_upd bi b (Some mb) (tx_msgpos bus)
         (of_nat ?n) (tx_seq bus) pkt e' (heap w) (capture_events pkt True w @ [Ev_tx b pkt 0]) w) =
       Inr (tx_upd bi b m (tx_msgpos bus + of_nat ?n) (of_nat ?n) ((tx_seq bus + 1) AND 3) pkt e' h
         (capture_events pkt True w @ [Ev_tx b pkt 0]) w)"
    and r2: "tx_ready tx P mtu bi b (tx_upd bi b m (tx_msgpos bus + of_nat ?n) (of_nat ?n)
         ((tx_seq bus + 1) AND 3) pkt e' h (capture_events pkt True w @ [Ev_tx b pkt 0]) w)"
    and mh: "unat (tx_msgpos bus) + ?n \<noteq> unat (tx_msglen bus) \<and> m = Some mb \<and> h = heap w \<or>
       unat (tx_msgpos bus) + ?n = unat (tx_msglen bus) \<and> m = None \<and> h_live h = h_live (heap w) - {mb_blk mb}"
    using complete_packet [OF r bus msg len e] by metis
  show ?thesis
    by (rule that [OF _ r2 mh bytes])
      (use msg en nxt snd cmp rc bus in \<open>simp add: send_tx_queue.simps [of "Suc _"]\<close>)
qed

text \<open>The bytes of the pending message that have not been sent yet.\<close>

lemma loop_sends:
  assumes "tx_ready tx P mtu bi b w" and "bus_at w bi = bus" and "tx_msg bus = Some mb"
    and "bus_state bus = mctp_bus_state_tx_enabled"
    and "unat (tx_msglen bus) - unat (tx_msgpos bus) < fuel"
  shows "\<exists>pos pl sq st e h evs.
     send_tx_queue fuel bi w = Inr (tx_upd bi b None pos pl sq st e h evs w) \<and>
     tx_ready tx P mtu bi b (tx_upd bi b None pos pl sq st e h evs w) \<and> tx_events b evs \<and>
     h_live h = h_live (heap w) - {mb_blk mb} \<and>
     sent_frames b evs = msg_frames (bindings w b) bus (tx_msgpos bus = 0) (tx_seq bus)
       (take (unat (tx_msglen bus) - unat (tx_msgpos bus)) (drop (unat (tx_msgpos bus)) (mb_data mb)))"
  using assms
proof (induction fuel arbitrary: w bus)
  case 0
  then show ?case by simp
next
  case (Suc fuel)
  note bus = Suc.prems(2)
  let ?n = "frag_len (bindings w b) bus"
  let ?rest = "take (unat (tx_msglen bus) - unat (tx_msgpos bus)) (drop (unat (tx_msgpos bus)) (mb_data mb))"
  let ?fr = "msg_frames (bindings w b) bus (tx_msgpos bus = 0) (tx_seq bus) ?rest"
  from Suc.prems(1,3) have bi: "bi < length (busses w)" and ok: "binding_ok (bindings w b)"
    and pos: "tx_msgpos bus \<le> tx_msglen bus" and dl: "unat (tx_msglen bus) \<le> length (mb_data mb)"
    using bus by (auto simp: tx_ready_def tx_pending_ok_def)
  note np = frag_eom_word [OF ok pos]
  from sends_one [OF Suc.prems(1-4)] obtain pkt m h e' where
    run: "\<And>fuel. send_tx_queue (Suc fuel) bi w = send_tx_queue fuel bi
       (tx_upd bi b m (tx_msgpos bus + of_nat ?n) (of_nat ?n) ((tx_seq bus + 1) AND 3) pkt e' h
          (capture_events pkt True w @ [Ev_tx b pkt 0]) w)"
    and r2: "tx_ready tx P mtu bi b
       (tx_upd bi b m (tx_msgpos bus + of_nat ?n) (of_nat ?n) ((tx_seq bus + 1) AND 3) pkt e' h
          (capture_events pkt True w @ [Ev_tx b pkt 0]) w)"
    and mh: "unat (tx_msgpos bus) + ?n \<noteq> unat (tx_msglen bus) \<and> m = Some mb \<and> h = heap w \<or>
         unat (tx_msgpos bus) + ?n = unat (tx_msglen bus) \<and> m = None \<and> h_live h = h_live (heap w) - {mb_blk mb}"
    and bytes: "pktbuf_bytes pkt = hdr_bytes (frag_hdr (bindings w b) bus (tx_msgpos bus = 0)
            (unat (tx_msgpos bus) + ?n = unat (tx_msglen bus))) @ take ?n (drop (unat (tx_msgpos bus)) (mb_data mb))"
    by metis
  let ?evs = "capture_events pkt True w @ [Ev_tx b pkt 0]"
  let ?w2 = "tx_upd bi b m (tx_msgpos bus + of_nat ?n) (of_nat ?n) ((tx_seq bus + 1) AND 3) pkt e' h ?evs w"
  have ev: "tx_events b ?evs" by (rule tx_events_packet)
  show ?case
  proof (cases "unat (tx_msgpos bus) + ?n = unat (tx_msglen bus)")
    case True
    then have m: "m = None" and hl: "h_live h = h_live (heap w) - {mb_blk mb}" using mh by auto
    have l: "unat (tx_msglen bus) - unat (tx_msgpos bus) = ?n" using True by simp
    then have "?fr = [pktbuf_bytes pkt]"
      using True bytes by (subst msg_frames_last) (simp_all add: frag_len_def)
    then have "sent_frames b ?evs = ?fr" by simp
    moreover have "send_tx_queue (Suc fuel) bi w = Inr ?w2"
      using run m bi by (simp add: send_tx_queue.simps [of fuel])
    ultimately show ?thesis using r2 ev hl unfolding m by blast
  next
    case False
    then have m: "m = Some mb" and hh: "h = heap w" using mh by auto
    have n: "?n = unat (b_pkt_size (bindings w b)) - 4" "0 < ?n" "?n < unat (tx_msglen bus) - unat (tx_msgpos bus)"
      using False pos ok by (auto simp: frag_len_def binding_ok_def word_le_nat_alt)
    let ?bus2 = "bus_at ?w2 bi"
    have b2: "tx_msg ?bus2 = Some mb" "bus_state ?bus2 = mctp_bus_state_tx_enabled"
      "unat (tx_msglen ?bus2) = unat (tx_msglen bus)"
      using bi bus m Suc.prems(4) by simp_all
    have p2: "unat (tx_msgpos ?bus2) = unat (tx_msgpos bus) + ?n" using bi np(1) by simp
    have "unat (tx_msglen ?bus2) - unat (tx_msgpos ?bus2) < fuel"
      using p2 b2(3) n(2,3) Suc.prems(5) by linarith
    from Suc.IH [OF r2 refl b2(1,2) this] obtain pos pl sq st e2 h2 evs where
      ih: "send_tx_queue fuel bi ?w2 = Inr (tx_upd bi b None pos pl sq st e2 h2 evs ?w2)"
      "tx_ready tx P mtu bi b (tx_upd bi b None pos pl sq st e2 h2 evs ?w2)" "tx_events b evs"
      "h_live h2 = h_live (heap ?w2) - {mb_blk mb}"
      "sent_frames b evs = msg_frames (bindings ?w2 b) ?bus2 (tx_msgpos ?bus2 = 0) (tx_seq ?bus2)
         (take (unat (tx_msglen ?bus2) - unat (tx_msgpos ?bus2)) (drop (unat (tx_msgpos ?bus2)) (mb_data mb)))"
      by (elim exE conjE) (rule that)
    have "unat (tx_msgpos ?bus2) \<noteq> 0" using p2 n(2) by linarith
    then have ne: "tx_msgpos ?bus2 \<noteq> 0" by (metis unsigned_0)
    have lr: "?n < length ?rest" using n(3) dl by simp
    have "?fr = pktbuf_bytes pkt # msg_frames (bindings w b) bus False ((tx_seq bus + 1) AND 3) (drop ?n ?rest)"
      using False bytes by (subst msg_frames_more [OF n(1,2) lr]) (simp add: min_absorb1 [OF less_imp_le [OF n(3)]])
    also have "drop ?n ?rest = take (unat (tx_msglen ?bus2) - unat (tx_msgpos ?bus2)) (drop (unat (tx_msgpos ?bus2)) (mb_data mb))"
      using b2(3) p2 by (simp add: drop_take add.commute)
    finally have fr: "?fr = sent_frames b (?evs @ evs)" using ih(5) ne bus bi by simp
    have "send_tx_queue (Suc fuel) bi w = Inr (tx_upd bi b None pos pl sq st e2 h2 (?evs @ evs) w)"
      "tx_ready tx P mtu bi b (tx_upd bi b None pos pl sq st e2 h2 (?evs @ evs) w)"
      "h_live h2 = h_live (heap w) - {mb_blk mb}"
      using run ih(1,2,4) hh bi by simp_all
    then show ?thesis using tx_events_append [OF ev ih(3)] fr by metis
  qed
qed

end

end
