(* ===== verification/Mctp_Roundtrip.thy ===== *)
theory Mctp_Roundtrip
  imports Mctp_Frames Mctp_Receive
begin

text \<open>
  Fragmentation and reassembly together. \<open>rx_all\<close> hands a list of packets to \<open>mctp_bus_rx\<close> one
  after the other; \<open>rx_message\<close> shows that the frames of a message, as \<open>msg_frames\<close> describes them
  and the transmit loop sends them, make the receiver call its message handler exactly once, with
  exactly the bytes of the message.
\<close>

section \<open>Receiving a list of packets\<close>

fun rx_all :: "nat \<Rightarrow> mctp_pktbuf list \<Rightarrow> 'e world \<Rightarrow> 'e world res" where
  "rx_all b [] w = Inr w"
| "rx_all b (p # ps) w = rbind (mctp_bus_rx b p w) (rx_all b ps)"

definition rx_captures :: "mctp_pktbuf list \<Rightarrow> 'e world \<Rightarrow> event list" where
  "rx_captures ps w = concat (map (\<lambda>p. capture_events p False w) ps)"

lemma rx_captures_simps [simp]:
  "rx_captures [] w = []" "rx_captures (p # ps) w = capture_events p False w @ rx_captures ps w"
  by (simp_all add: rx_captures_def)

lemma and_3_mod: "(x :: u8) AND 3 = x mod 4"
proof -
  have "x AND 3 = take_bit 2 x" by (simp add: take_bit_eq_mask mask_eq_exp_minus_1)
  then show ?thesis by (simp add: take_bit_eq_mod)
qed

lemma read_hdr_frame:
  assumes "rx_pkt pkt" and "pktbuf_bytes pkt = hdr_bytes h @ body"
  shows "read_hdr pkt = Inr h" and "drop 4 (pktbuf_bytes pkt) = body"
    and "unat (mctp_pktbuf_size pkt) = 4 + length body"
  using assms rx_pkt_hdr [OF assms(1)] unat_pktbuf_size [of pkt]
  by (auto simp: hdr_bytes_def rx_pkt_def)

text \<open>The header of a fragment, as the receiver reads it.\<close>

lemma frag_hdr_fields:
  assumes "tx_tag bus AND 7 = tx_tag bus" and "sq AND 3 = sq"
  shows "hdr_src (frag_hdr bnd (bus\<lparr>tx_seq := sq\<rparr>) som eom) = tx_src bus"
    and "hdr_dest (frag_hdr bnd (bus\<lparr>tx_seq := sq\<rparr>) som eom) = tx_dest bus"
    and "fst_tag (flags_seq_tag (frag_hdr bnd (bus\<lparr>tx_seq := sq\<rparr>) som eom)) = tx_tag bus"
    and "fst_to (flags_seq_tag (frag_hdr bnd (bus\<lparr>tx_seq := sq\<rparr>) som eom)) = tx_to bus"
    and "fst_seq (flags_seq_tag (frag_hdr bnd (bus\<lparr>tx_seq := sq\<rparr>) som eom)) = sq"
    and "fst_flags (flags_seq_tag (frag_hdr bnd (bus\<lparr>tx_seq := sq\<rparr>) som eom)) =
           (if som then MCTP_HDR_FLAG_SOM else 0) OR (if eom then MCTP_HDR_FLAG_EOM else 0)"
  using assms by (simp_all add: frag_hdr_def)

definition msg_event :: "'e world \<Rightarrow> mctp_bus \<Rightarrow> bytes \<Rightarrow> event list" where
  "msg_event w bus m =
     (case message_rx w of None \<Rightarrow> []
      | Some f \<Rightarrow> [Ev_message_rx f (message_rx_data w) (tx_src bus) (tx_to bus) (tx_tag bus) m (of_nat (length m))])"

text \<open>The request tags after a message of this sender.\<close>

definition msg_settled :: "mctp_bus \<Rightarrow> 'e world \<Rightarrow> mctp_req_tag list" where
  "msg_settled bus w = settled (tx_to bus) (tx_dest bus) (tx_src bus) (tx_tag bus) (req_tags w)"

lemma delivery_frag:
  assumes "tx_tag bus AND 7 = tx_tag bus" and "sq AND 3 = sq"
  shows "delivery w (frag_hdr bnd (bus\<lparr>tx_seq := sq\<rparr>) som eom) m = msg_event w bus m"
    and "hdr_settled (frag_hdr bnd (bus\<lparr>tx_seq := sq\<rparr>) som eom) w = msg_settled bus w"
  by (simp_all add: delivery_def msg_event_def hdr_settled_def msg_settled_def frag_hdr_fields [OF assms] split: option.split)

lemma msg_frames_not_Nil [simp]: "msg_frames bnd bus som sq msg \<noteq> []"
  by (cases "chunks (unat (b_pkt_size bnd) - 4) msg") (simp_all add: msg_frames_def)

section \<open>A message under way\<close>

text \<open>What the receiver must have for the rest of a message: \<open>fs\<close> are the frames still to come, \<open>m\<close> the whole
  message, \<open>bnd\<close> and \<open>bus\<close> the sender's.\<close>

definition msg_key :: "mctp_bus \<Rightarrow> u8 \<times> u8 \<times> u8" where
  "msg_key bus = (tx_src bus, tx_dest bus, tx_tag bus)"

definition awaits :: "'e world \<Rightarrow> 'f mctp_binding \<Rightarrow> mctp_bus \<Rightarrow> bytes list \<Rightarrow> bytes \<Rightarrow> bool" where
  "awaits w bnd bus fs m \<longleftrightarrow> (\<exists>a sq rest. asm_table (msg_ctxs w) (msg_key bus) = Some a \<and>
     68 \<le> unat (b_pkt_size bnd) \<and> asm_frag a = b_pkt_size bnd \<and>
     (asm_seq a + 1) mod 4 = sq \<and> sq AND 3 = sq \<and> tx_tag bus AND 7 = tx_tag bus \<and>
     m = asm_msg a @ rest \<and> length m \<le> unat (asm_limit a) \<and> fs = msg_frames bnd bus False sq rest \<and>
     mctp_rx_dest_is_local (bus_at w 0) (tx_dest bus) \<and> tx_src bus \<noteq> MCTP_EID_BROADCAST \<and> user_message m)"

lemma awaits_cong:
  "asm_table (msg_ctxs w') (msg_key bus) = asm_table (msg_ctxs w) (msg_key bus) \<Longrightarrow> bus_at w' 0 = bus_at w 0 \<Longrightarrow>
     awaits w' bnd bus fs m = awaits w bnd bus fs m"
  by (simp add: awaits_def)

lemma awaits_Nil [simp]: "\<not> awaits w bnd bus [] m"
  unfolding awaits_def by (metis msg_frames_not_Nil)

lemma msg_event_hands_over [simp]: "hands_over w w' ts evs \<Longrightarrow> msg_event w' bus m = msg_event w bus m"
  by (simp add: msg_event_def hands_over_frame split: option.split)

lemma capture_events_hands_over [simp]: "hands_over w w' ts evs \<Longrightarrow> capture_events p out w' = capture_events p out w"
  by (simp add: capture_events_def hands_over_frame split: option.split)

lemma rx_captures_hands_over [simp]: "hands_over w w' ts evs \<Longrightarrow> rx_captures ps w' = rx_captures ps w"
  by (simp add: rx_captures_def)

lemma hands_over_table:
  "w' = w\<lparr>msg_ctxs := cs, heap := h, trace := trace w @ evs\<rparr> \<Longrightarrow> hands_over w w' (req_tags w) evs"
  by (cases w) (auto intro!: hands_overI)

context safe_tx
begin

text \<open>The next frame of a message under way.\<close>

lemma rx_awaited:
  assumes ok: "endpoint_ok tx P mtu b F w" and aw: "awaits w bnd bus (pktbuf_bytes p # fs) m" and pkt: "rx_pkt p"
  obtains w' hdr where "mctp_bus_rx b p w = Inr w'" and "endpoint_ok tx P mtu b F w'"
    and "hands_over w w' (if fs = [] then msg_settled bus w else req_tags w)
      (capture_events p False w @ (if fs = [] then msg_event w bus m else []))"
    and "\<And>k. k \<noteq> msg_key bus \<Longrightarrow> asm_table (msg_ctxs w') k = asm_table (msg_ctxs w) k"
    and "if fs = [] then asm_table (msg_ctxs w') (msg_key bus) = None else awaits w' bnd bus fs m"
    and "read_hdr p = Inr hdr" and "fst_flags (flags_seq_tag hdr) = (if fs = [] then MCTP_HDR_FLAG_EOM else 0)"
proof -
  obtain a sq msg where a: "asm_table (msg_ctxs w) (msg_key bus) = Some a" and pk: "68 \<le> unat (b_pkt_size bnd)"
    and frag: "asm_frag a = b_pkt_size bnd" and asq: "(asm_seq a + 1) mod 4 = sq" and sq: "sq AND 3 = sq"
    and tag: "tx_tag bus AND 7 = tx_tag bus" and m: "m = asm_msg a @ msg" and lim: "length m \<le> unat (asm_limit a)"
    and fs: "pktbuf_bytes p # fs = msg_frames bnd bus False sq msg"
    and dest: "mctp_rx_dest_is_local (bus_at w 0) (tx_dest bus)" and src: "tx_src bus \<noteq> MCTP_EID_BROADCAST"
    and user: "user_message m" using aw unfolding awaits_def by blast
  let ?n = "unat (b_pkt_size bnd) - 4" and ?T = "asm_table (msg_ctxs w)" and ?k = "msg_key bus"
  let ?H = "\<lambda>eom. frag_hdr bnd (bus\<lparr>tx_seq := sq\<rparr>) False eom"
  note H = frag_hdr_fields [OF tag sq, of bnd False]
  have hk: "?k = (hdr_src (?H eom), hdr_dest (?H eom), fst_tag (flags_seq_tag (?H eom)))" for eom
    using H by (simp add: msg_key_def)
  show ?thesis
  proof (cases "length msg \<le> ?n")
    case True
    then have bytes: "pktbuf_bytes p = hdr_bytes (?H True) @ msg" and nil: "fs = []"
      using fs by (simp_all add: msg_frames_last)
    note fr = read_hdr_frame [OF pkt bytes]
    have "mctp_pktbuf_size p \<le> asm_frag a" using fr(3) True pk frag by (simp add: word_le_nat_alt)
    then have "asm_last a (mctp_pktbuf_size p) sq msg = Some m"
      using asq lim m by (simp add: asm_last_def asm_add_def)
    then have R: "reassemble ?T (max_message_size w) (rx_memory (?H True) p w) (?H True)
        (mctp_pktbuf_size p) (drop 4 (pktbuf_bytes p)) = (?T(?k := None), Some m)"
      using a H fr(2) by (subst reassemble_end [OF _ hk]) simp_all
    obtain w' where w': "mctp_bus_rx b p w = Inr w'" "endpoint_ok tx P mtu b F w'" "asm_table (msg_ctxs w') = ?T(?k := None)"
      "hands_over w w' (msg_settled bus w) (capture_events p False w @ msg_event w bus m)"
      by (rule bus_rx_accepts [OF ok pkt fr(1) _ _ R])
        (use H dest src user delivery_frag(1) [OF tag sq, of w bnd False] delivery_frag(2) [OF tag sq, of bnd False True w] in auto)
    show ?thesis by (rule that [OF w'(1,2) _ _ _ fr(1)]) (use nil w' H in auto)
  next
    case False
    then have l: "?n < length msg" and n: "0 < ?n" using pk by simp_all
    have bytes: "pktbuf_bytes p = hdr_bytes (?H False) @ take ?n msg"
      and rest: "fs = msg_frames bnd bus False ((sq + 1) AND 3) (drop ?n msg)"
      using fs msg_frames_more [OF refl n l] by simp_all
    note fr = read_hdr_frame [OF pkt bytes]
    let ?a = "a\<lparr>asm_msg := asm_msg a @ take ?n msg, asm_seq := sq\<rparr>"
    have "mctp_pktbuf_size p = asm_frag a" using fr(3) l frag pk by (simp add: word_unat_eq_iff)
    then have "asm_next a (mctp_pktbuf_size p) sq (take ?n msg) = Some ?a"
      using asq lim m by (simp add: asm_next_def asm_add_def)
    then have R: "reassemble ?T (max_message_size w) (rx_memory (?H False) p w) (?H False)
        (mctp_pktbuf_size p) (drop 4 (pktbuf_bytes p)) = (?T(?k \<mapsto> ?a), None)"
      using a H fr(2) by (subst reassemble_middle [OF _ hk]) simp_all
    obtain w' where w': "mctp_bus_rx b p w = Inr w'" "endpoint_ok tx P mtu b F w'" "asm_table (msg_ctxs w') = ?T(?k \<mapsto> ?a)"
      and "\<exists>cs h. w' = w\<lparr>msg_ctxs := cs, heap := h, trace := trace w @ capture_events p False w\<rparr>"
      by (rule bus_rx_accepts [OF ok pkt fr(1) _ _ R]) (use H dest src in auto)
    then have ho: "hands_over w w' (req_tags w) (capture_events p False w)" by (auto intro: hands_over_table)
    have ne: "fs \<noteq> []" using rest by simp
    have "awaits w' bnd bus fs m"
      unfolding awaits_def
      by (intro exI [of _ ?a] exI [of _ "(sq + 1) AND 3"] exI [of _ "drop ?n msg"])
        (use w'(3) pk frag tag lim m rest dest src user hands_over_frame(3) [OF ho, of 0] in \<open>simp add: and.assoc, simp add: and_3_mod\<close>)
    then show ?thesis by (intro that [OF w'(1,2) _ _ _ fr(1)]) (use ne ho w'(3) H in auto)
  qed
qed

lemma rx_rest:
  assumes "endpoint_ok tx P mtu b F w" and "awaits w bnd bus (map pktbuf_bytes ps) m" and "\<forall>p\<in>set ps. rx_pkt p"
  shows "\<exists>w'. rx_all b ps w = Inr w' \<and> endpoint_ok tx P mtu b F w' \<and>
     asm_table (msg_ctxs w') = (asm_table (msg_ctxs w))(msg_key bus := None) \<and>
     req_tags w' = msg_settled bus w \<and> trace w' = trace w @ rx_captures ps w @ msg_event w bus m"
  using assms
proof (induction ps arbitrary: w)
  case Nil
  then show ?case by simp
next
  case (Cons p ps)
  let ?nil = "map pktbuf_bytes ps = []"
  obtain w1 where run: "mctp_bus_rx b p w = Inr w1" and ok: "endpoint_ok tx P mtu b F w1"
    and ho: "hands_over w w1 (if ?nil then msg_settled bus w else req_tags w)
      (capture_events p False w @ (if ?nil then msg_event w bus m else []))"
    and tab: "\<And>k. k \<noteq> msg_key bus \<Longrightarrow> asm_table (msg_ctxs w1) k = asm_table (msg_ctxs w) k"
    and nxt: "if ?nil then asm_table (msg_ctxs w1) (msg_key bus) = None else awaits w1 bnd bus (map pktbuf_bytes ps) m"
    by (rule rx_awaited [OF Cons.prems(1), of bnd bus p "map pktbuf_bytes ps" m]) (use Cons.prems(2,3) that in simp_all)
  show ?case
  proof (cases "ps = []")
    case True
    have "asm_table (msg_ctxs w1) = (asm_table (msg_ctxs w))(msg_key bus := None)" using tab nxt True by (auto simp: fun_eq_iff)
    then show ?thesis using run ok True hands_over_frame(1,2) [OF ho] by (simp add: fun_upd_def)
  next
    case False
    then have aw: "awaits w1 bnd bus (map pktbuf_bytes ps) m" using nxt by simp
    have "\<forall>p\<in>set ps. rx_pkt p" using Cons.prems(3) by simp
    from Cons.IH [OF ok aw this] obtain w' where w': "rx_all b ps w1 = Inr w'" "endpoint_ok tx P mtu b F w'"
      "asm_table (msg_ctxs w') = (asm_table (msg_ctxs w1))(msg_key bus := None)"
      "req_tags w' = msg_settled bus w1" "trace w' = trace w1 @ rx_captures ps w1 @ msg_event w1 bus m" by blast
    have "asm_table (msg_ctxs w') = (asm_table (msg_ctxs w))(msg_key bus := None)" using w'(3) tab by (auto simp: fun_eq_iff)
    then show ?thesis using run w' ho hands_over_frame(1,2) [OF ho] False by (intro exI [of _ w']) (simp add: msg_settled_def)
  qed
qed

text \<open>All fragments of a message, from the first on.\<close>

lemma rx_message:
  assumes ok: "endpoint_ok tx P mtu b F w"
    and bnd: "68 \<le> unat (b_pkt_size bnd)" and tag: "tx_tag bus AND 7 = tx_tag bus" and sq: "sq AND 3 = sq"
    and len: "length msg \<le> unat (start_limit w (tx_src bus, tx_dest bus, tx_tag bus))"
    and ps: "map pktbuf_bytes ps = msg_frames bnd bus True sq msg" "\<forall>p\<in>set ps. rx_pkt p"
    and mem: "\<And>hdr. read_hdr (hd ps) = Inr hdr \<Longrightarrow> rx_memory hdr (hd ps) w"
    and dest: "mctp_rx_dest_is_local (bus_at w 0) (tx_dest bus)" and src: "tx_src bus \<noteq> MCTP_EID_BROADCAST"
    and user: "user_message msg"
  shows "\<exists>w'. rx_all b ps w = Inr w' \<and> endpoint_ok tx P mtu b F w' \<and>
     (\<forall>k. k \<noteq> (tx_src bus, tx_dest bus, tx_tag bus) \<longrightarrow> asm_table (msg_ctxs w') k = asm_table (msg_ctxs w) k) \<and>
     req_tags w' = msg_settled bus w \<and> trace w' = trace w @ rx_captures ps w @ msg_event w bus msg"
proof -
  let ?k = "(tx_src bus, tx_dest bus, tx_tag bus)"
  let ?n = "unat (b_pkt_size bnd) - 4"
  let ?H = "\<lambda>eom. frag_hdr bnd (bus\<lparr>tx_seq := sq\<rparr>) True eom"
  note H = frag_hdr_fields [OF tag sq, of bnd True]
  obtain p ps' where p: "ps = p # ps'" using ps(1) by (cases ps) (auto dest: sym)
  have pkt: "rx_pkt p" using ps(2) p by simp
  show ?thesis
  proof (cases "length msg \<le> ?n")
    case True
    then have "pktbuf_bytes p = hdr_bytes (?H True) @ msg" and ps': "ps' = []"
      using ps(1) p by (simp_all add: msg_frames_last)
    note fr = read_hdr_frame [OF pkt this(1)]
    have "reassemble (asm_table (msg_ctxs w)) (max_message_size w) (rx_memory (?H True) p w) (?H True)
        (mctp_pktbuf_size p) (drop 4 (pktbuf_bytes p)) = (asm_table (msg_ctxs w), Some msg)"
      using mem [of "?H True"] p fr H by (subst reassemble_single) simp_all
    then obtain w' where "mctp_bus_rx b p w = Inr w'" "endpoint_ok tx P mtu b F w'"
      "asm_table (msg_ctxs w') = asm_table (msg_ctxs w)"
      "hands_over w w' (msg_settled bus w) (capture_events p False w @ msg_event w bus msg)"
      by (rule_tac bus_rx_accepts [OF ok pkt fr(1)])
        (use H dest src user delivery_frag(1) [OF tag sq, of w bnd True] delivery_frag(2) [OF tag sq, of bnd True True w] in auto)
    then show ?thesis using p ps' by (simp add: hands_over_frame)
  next
    case False
    then have l: "?n < length msg" and n: "0 < ?n" using bnd by simp_all
    have bytes: "pktbuf_bytes p = hdr_bytes (?H False) @ take ?n msg"
      and rest: "map pktbuf_bytes ps' = msg_frames bnd bus False ((sq + 1) AND 3) (drop ?n msg)"
      using ps(1) p msg_frames_more [OF refl n l] by simp_all
    note fr = read_hdr_frame [OF pkt bytes]
    let ?lim = "start_limit w ?k"
    let ?a = "\<lparr>asm_msg = take ?n msg, asm_seq = sq, asm_frag = mctp_pktbuf_size p, asm_limit = ?lim\<rparr>"
    have "asm_start ?lim (mctp_pktbuf_size p) sq (take ?n msg) = Some ?a"
      using len l by (simp add: asm_start_def asm_add_def)
    then have R: "reassemble (asm_table (msg_ctxs w)) (max_message_size w) (rx_memory (?H False) p w) (?H False)
        (mctp_pktbuf_size p) (drop 4 (pktbuf_bytes p)) = ((asm_table (msg_ctxs w))(?k \<mapsto> ?a), None)"
      using mem [of "?H False"] p fr H by (subst reassemble_start [OF _ refl]) (simp_all add: start_limit_def)
    obtain w1 where run: "mctp_bus_rx b p w = Inr w1" and ok1: "endpoint_ok tx P mtu b F w1"
      and tab: "asm_table (msg_ctxs w1) = (asm_table (msg_ctxs w))(?k \<mapsto> ?a)"
      and w1: "\<exists>cs h. w1 = w\<lparr>msg_ctxs := cs, heap := h, trace := trace w @ capture_events p False w\<rparr>"
      by (rule bus_rx_accepts [OF ok pkt fr(1) _ _ R]) (use H dest src in auto)
    then have ho: "hands_over w w1 (req_tags w) (capture_events p False w)" by (auto intro: hands_over_table)
    have "asm_frag ?a = b_pkt_size bnd" using fr(3) l bnd by (simp add: word_unat_eq_iff)
    then have "awaits w1 bnd bus (map pktbuf_bytes ps') msg"
      unfolding awaits_def rest
      by (intro exI [of _ ?a] exI [of _ "(sq + 1) AND 3"] exI [of _ "drop ?n msg"])
        (use tab bnd tag len dest src user hands_over_frame(3) [OF ho, of 0] in \<open>simp add: msg_key_def and.assoc, simp add: and_3_mod\<close>)
    then have "\<exists>w'. rx_all b ps' w1 = Inr w' \<and> endpoint_ok tx P mtu b F w' \<and>
       asm_table (msg_ctxs w') = (asm_table (msg_ctxs w1))(msg_key bus := None) \<and>
       req_tags w' = msg_settled bus w1 \<and> trace w' = trace w1 @ rx_captures ps' w1 @ msg_event w1 bus msg"
      by (rule rx_rest [OF ok1]) (use ps(2) p in simp)
    then show ?thesis using run tab p ho hands_over_frame(1,2) [OF ho] by (auto simp: msg_key_def msg_settled_def)
  qed
qed

end

section \<open>Sending a message\<close>

text \<open>The transmit fields the caller of \<open>mctp_message_tx\<close> chooses.\<close>

definition tx_params :: "mctp_bus \<Rightarrow> u8 \<Rightarrow> bool \<Rightarrow> u8 \<Rightarrow> mctp_bus" where
  "tx_params bus eid to tag = bus\<lparr>tx_src := bus_eid bus, tx_dest := eid, tx_to := to, tx_tag := tag\<rparr>"

lemma msg_frames_params:
  "msg_frames bnd (bus\<lparr>tx_msg := m, tx_msglen := l, tx_msgpos := p, tx_src := bus_eid bus, tx_dest := eid,
     tx_to := to, tx_tag := tag\<rparr>) som sq msg = msg_frames bnd (tx_params bus eid to tag) som sq msg"
  by (simp add: msg_frames_def frag_hdr_def tx_params_def)

context reliable_tx
begin

lemma queue_flushes:
  assumes ok: "endpoint_ok tx P mtu b F w" and bus: "bus_at w 0 = bus" "tx_msg bus = Some mb"
    and en: "bus_state bus = mctp_bus_state_tx_enabled"
  obtains w' evs where "mctp_send_tx_queue 0 w = Inr w'" and "endpoint_ok tx P mtu b F w'"
    and "tx_msg (bus_at w' 0) = None" and "trace w' = trace w @ evs"
    and "sent_frames b evs = msg_frames (bindings w b) bus (tx_msgpos bus = 0) (tx_seq bus)
           (take (unat (tx_msglen bus) - unat (tx_msgpos bus)) (drop (unat (tx_msgpos bus)) (mb_data mb)))"
proof -
  have l: "length (busses w) = 2" using ok by (simp add: endpoint_defs)
  obtain w' where q: "mctp_send_tx_queue 0 w = Inr w'" and okw: "endpoint_ok tx P mtu b F w'"
    by (rule queue_ok [OF ok])
  have "\<exists>pos pl sq st e h evs.
     send_tx_queue (Suc (unat (tx_msglen bus))) 0 w = Inr (tx_upd 0 b None pos pl sq st e h evs w) \<and>
     tx_ready tx P mtu 0 b (tx_upd 0 b None pos pl sq st e h evs w) \<and> tx_events b evs \<and>
     h_live h = h_live (heap w) - {mb_blk mb} \<and>
     sent_frames b evs = msg_frames (bindings w b) bus (tx_msgpos bus = 0) (tx_seq bus)
       (take (unat (tx_msglen bus) - unat (tx_msgpos bus)) (drop (unat (tx_msgpos bus)) (mb_data mb)))"
    by (rule loop_sends [OF endpoint_ok_tx_ready [OF ok] bus en]) simp
  then obtain pos pl sq st e h evs where
    s: "send_tx_queue (Suc (unat (tx_msglen bus))) 0 w = Inr (tx_upd 0 b None pos pl sq st e h evs w)"
    and fr: "sent_frames b evs = msg_frames (bindings w b) bus (tx_msgpos bus = 0) (tx_seq bus)
       (take (unat (tx_msglen bus) - unat (tx_msgpos bus)) (drop (unat (tx_msgpos bus)) (mb_data mb)))"
    by (elim exE conjE) (rule that)
  have w': "w' = tx_upd 0 b None pos pl sq st e h evs w" using q s bus(1) by (simp add: mctp_send_tx_queue_def)
  show ?thesis by (rule that [OF q okw _ _ fr]) (use l in \<open>simp_all add: w'\<close>)
qed

lemma tx_alloced_sends:
  assumes ok: "endpoint_ok tx P mtu b (add_mset (mb_blk mb) F) w" and len: "unat n \<le> length (mb_data mb)"
    and idle: "tx_msg (bus_at w 0) = None" and en: "bus_state (bus_at w 0) = mctp_bus_state_tx_enabled"
    and tag: "tag AND 7 = tag"
  obtains w' evs where "mctp_message_tx_alloced eid to tag mb n w = Inr (0, w')"
    and "endpoint_ok tx P mtu b F w'" and "tx_msg (bus_at w' 0) = None" and "trace w' = trace w @ evs"
    and "sent_frames b evs = msg_frames (bindings w b) (tx_params (bus_at w 0) eid to tag) True
           (tx_seq (bus_at w 0)) (take (unat n) (mb_data mb))"
proof -
  let ?bus = "bus_at w 0"
  let ?bus' = "?bus\<lparr>tx_msg := Some mb, tx_msglen := n, tx_msgpos := 0, tx_src := bus_eid ?bus,
                    tx_dest := eid, tx_to := to, tx_tag := tag\<rparr>"
  let ?w = "set_bus 0 ?bus' w"
  from ok have sh: "ep_shape tx P mtu b w" and ow: "heap_owns (add_mset (mb_blk mb) (owned w + F)) (heap w)"
    by (simp_all add: endpoint_ok_def)
  then have l: "length (busses w) = 2" by (simp add: ep_shape_def)
  have ok': "endpoint_ok tx P mtu b F ?w"
    using sh ow idle len tag l by (simp add: endpoint_defs tx_pending_ok_def owned_def)
  have at: "bus_at ?w 0 = ?bus'" using l by simp
  obtain w' evs where q: "mctp_send_tx_queue 0 ?w = Inr w'" and okw: "endpoint_ok tx P mtu b F w'"
    and nil: "tx_msg (bus_at w' 0) = None" and tr: "trace w' = trace ?w @ evs"
    and fr: "sent_frames b evs = msg_frames (bindings ?w b) ?bus' (tx_msgpos ?bus' = 0) (tx_seq ?bus')
           (take (unat (tx_msglen ?bus') - unat (tx_msgpos ?bus')) (drop (unat (tx_msgpos ?bus')) (mb_data mb)))"
    by (rule queue_flushes [OF ok' at, of mb]) (use en that in auto)
  have "68 \<le> unat (b_pkt_size (bindings w b))" using sh by (simp add: ep_shape_def binding_ok_def)
  then have "MCTP_BODY_SIZE (b_pkt_size (bindings w b)) \<ge> MCTP_BTU" by (simp add: word_le_nat_alt unat_diff_le)
  then have "mctp_message_tx_alloced eid to tag mb n w = Inr (0, w')"
    using q tag sh idle en
    by (simp add: mctp_message_tx_alloced_def find_bus_for_eid_def ep_shape_def mctp_message_tx_on_bus_def Let_def
        del: MCTP_BODY_SIZE_def MCTP_BTU_def)
  then show ?thesis
    by (rule that [OF _ okw nil]) (use tr fr in \<open>simp_all add: msg_frames_params\<close>)
qed

text \<open>Enabling a bus again sends what is left of the pending message.\<close>

lemma enable_flushes:
  assumes ok: "endpoint_ok tx P mtu b F w" and msg: "tx_msg (bus_at w 0) = Some mb"
    and dis: "bus_state (bus_at w 0) = mctp_bus_state_tx_disabled"
  obtains w' evs where "mctp_binding_set_tx_enabled b True w = Inr w'" and "endpoint_ok tx P mtu b F w'"
    and "tx_msg (bus_at w' 0) = None" and "trace w' = trace w @ evs"
    and "sent_frames b evs = msg_frames (bindings w b) (bus_at w 0) (tx_msgpos (bus_at w 0) = 0) (tx_seq (bus_at w 0))
           (take (unat (tx_msglen (bus_at w 0)) - unat (tx_msgpos (bus_at w 0))) (drop (unat (tx_msgpos (bus_at w 0))) (mb_data mb)))"
proof -
  let ?bus = "(bus_at w 0)\<lparr>bus_state := mctp_bus_state_tx_enabled\<rparr>"
  let ?w = "set_bus 0 ?bus w"
  have l: "length (busses w) = 2" and b: "b_bus (bindings w b) = Some 0" using ok by (simp_all add: endpoint_defs)
  have ok': "endpoint_ok tx P mtu b F ?w"
    using ok by (simp add: endpoint_defs tx_pending_ok_def owned_def)
  have at: "bus_at ?w 0 = ?bus" using l by simp
  have fr: "msg_frames bnd ?bus som sq m = msg_frames bnd (bus_at w 0) som sq m" for bnd som sq m
    by (simp add: msg_frames_def frag_hdr_def)
  obtain w' evs where q: "mctp_send_tx_queue 0 ?w = Inr w'" "endpoint_ok tx P mtu b F w'"
    "tx_msg (bus_at w' 0) = None" "trace w' = trace ?w @ evs"
    "sent_frames b evs = msg_frames (bindings ?w b) ?bus (tx_msgpos ?bus = 0) (tx_seq ?bus)
           (take (unat (tx_msglen ?bus) - unat (tx_msgpos ?bus)) (drop (unat (tx_msgpos ?bus)) (mb_data mb)))"
    by (rule queue_flushes [OF ok' at, of mb]) (use msg that in auto)
  then show ?thesis using dis b
    by (intro that [of w' evs]) (simp_all add: mctp_binding_set_tx_enabled_def fr)
qed

lemma message_tx_sends:
  assumes ok: "endpoint_ok tx P mtu b F w" and len: "unat n \<le> length msg"
    and idle: "tx_msg (bus_at w 0) = None" and en: "bus_state (bus_at w 0) = mctp_bus_state_tx_enabled"
    and tag: "tag AND 7 = tag" and mem: "w_msg_alloc n True w = Inr (Some mb0, w0)"
  obtains w' evs where "mctp_message_tx eid to tag msg n w = Inr (0, w')"
    and "endpoint_ok tx P mtu b F w'" and "tx_msg (bus_at w' 0) = None" and "trace w' = trace w @ evs"
    and "sent_frames b evs = msg_frames (bindings w b) (tx_params (bus_at w 0) eid to tag) True
           (tx_seq (bus_at w 0)) (take (unat n) msg)"
proof -
  obtain p h where d: "mctp_msg_dup msg 0 n True w = Inr (p, w\<lparr>heap := h\<rparr>)"
    "endpoint_ok tx P mtu b (own p + F) (w\<lparr>heap := h\<rparr>)"
    "\<And>mb. p = Some mb \<Longrightarrow> mb_data mb = take (unat n) (drop 0 msg)"
    using len by (rule_tac mctp_msg_dup_ok [OF ok, of 0 n msg]) (simp, rule that)
  from d(1) mem obtain mb where p: "p = Some mb" by (auto simp: mctp_msg_dup_def)
  have data: "mb_data mb = take (unat n) msg" using d(3) [OF p] by simp
  let ?w = "w\<lparr>heap := h\<rparr>"
  note that' = that
  show ?thesis
  proof (rule tx_alloced_sends [of b mb F ?w n tag eid to])
    fix w' evs
    assume "mctp_message_tx_alloced eid to tag mb n ?w = Inr (0, w')" "endpoint_ok tx P mtu b F w'"
      "tx_msg (bus_at w' 0) = None" "trace w' = trace ?w @ evs"
      "sent_frames b evs = msg_frames (bindings ?w b) (tx_params (bus_at ?w 0) eid to tag) True
           (tx_seq (bus_at ?w 0)) (take (unat n) (mb_data mb))"
    then show thesis using d(1) p data by (intro that' [of w' evs]) (simp_all add: mctp_message_tx_def)
  qed (use d(2) p data len idle en tag in simp_all)
qed

end

end
