(* ===== verification/Mctp_Control_Spec.thy ===== *)
theory Mctp_Control_Spec
  imports Mctp_Api Mctp_Roundtrip
begin

text \<open>
  What the control handler answers. \<open>control_reply\<close> is the table of replies, written from the
  message layouts and independent of the handlers; on an endpoint that can send at once and whose
  binding takes every packet, the handler sends exactly this reply to every control request
  (\<open>control_handler_answers\<close>), and so does \<open>mctp_bus_rx\<close> for a request that arrives in one packet
  (\<open>bus_rx_answers\<close>).
\<close>

section \<open>What the handler must answer\<close>

definition ctrl_hdr :: "bytes \<Rightarrow> bytes" where
  "ctrl_hdr m = [0, m ! 1 AND 0x1f, m ! 2]"

definition valid_eid :: "u8 \<Rightarrow> bool" where
  "valid_eid e \<longleftrightarrow> 8 \<le> e \<and> e \<noteq> 0xff"

text \<open>The reply to a request and the EID afterwards, from the supported types, the EID and the
  request.\<close>

definition control_reply :: "u8 list \<Rightarrow> u8 \<Rightarrow> bytes \<Rightarrow> bytes \<times> u8" where
  "control_reply types eid m =
     (if m ! 2 = 1
      then if length m \<noteq> 5 then (ctrl_hdr m @ [3], eid)
           else if m ! 3 AND 3 < 2 \<and> valid_eid (m ! 4) then (ctrl_hdr m @ [0, 0, m ! 4, 0], m ! 4)
           else (ctrl_hdr m @ [2], eid)
      else if m ! 2 = 2
      then (if length m \<noteq> 3 then ctrl_hdr m @ [3] else ctrl_hdr m @ [0, eid, 1, 0], eid)
      else if m ! 2 = 4
      then (if length m \<noteq> 4 then ctrl_hdr m @ [3]
            else if m ! 3 \<noteq> 0 \<and> m ! 3 \<noteq> 0xff then ctrl_hdr m @ [0x80]
            else ctrl_hdr m @ [0, 4] @ MCTP_PROTOCOL_VERSIONS, eid)
      else if m ! 2 = 5
      then (if length m \<noteq> 3 then ctrl_hdr m @ [3]
            else ctrl_hdr m @ [0, of_nat (length types)] @ types, eid)
      else (ctrl_hdr m @ [5], eid))"

text \<open>A request as DSP0236 marks it: control type, request bit, no datagram bit.\<close>

definition control_request :: "bytes \<Rightarrow> bool" where
  "control_request m \<longleftrightarrow> 3 \<le> length m \<and> m ! 0 = 0 \<and> m ! 1 AND 0xc0 = 0x80"

text \<open>Memory never runs out.\<close>

definition plenty :: "'e world \<Rightarrow> bool" where
  "plenty w \<longleftrightarrow> ops w = default_alloc_ops \<and> h_ok (heap w) = (\<lambda>b n. True)"

lemma plenty_alloc: "plenty w \<Longrightarrow> \<exists>mb w'. w_msg_alloc n True w = Inr (Some mb, w')"
  by (simp add: plenty_def w_msg_alloc_def mctp_msg_alloc_def default_msg_malloc_def mctp_alloc_def
      default_alloc_ops_def libc_malloc_def Let_def)

lemma plenty_dup: "plenty w \<Longrightarrow> mctp_msg_dup src off len True w = Inr (p, w') \<Longrightarrow> plenty w' \<and> p \<noteq> None"
  by (auto simp: plenty_def mctp_msg_dup_def w_msg_alloc_def mctp_msg_alloc_def default_msg_malloc_def mctp_alloc_def
      default_alloc_ops_def libc_malloc_def Let_def split: option.splits)

text \<open>The endpoint can answer at once: nothing pending, transmission enabled.\<close>

definition can_send :: "'e world \<Rightarrow> bool" where
  "can_send w \<longleftrightarrow> tx_msg (bus_at w 0) = None \<and> bus_state (bus_at w 0) = mctp_bus_state_tx_enabled \<and> plenty w"

definition answered ::
    "nat \<Rightarrow> 'e world \<Rightarrow> u8 \<Rightarrow> u8 \<Rightarrow> u8 \<Rightarrow> bytes \<Rightarrow> 'e world \<Rightarrow> bool" where
  "answered b w src tag eid resp w' \<longleftrightarrow> (\<exists>evs. trace w' = trace w @ evs \<and> bus_eid (bus_at w' 0) = eid \<and>
     sent_frames b evs = msg_frames (bindings w b) (tx_params ((bus_at w 0)\<lparr>bus_eid := eid\<rparr>) src False tag) True
       (tx_seq (bus_at w 0)) resp)"

text \<open>One command: it either sent the specified reply, or it did nothing and its completion code
  makes the specified reply.\<close>

definition ctrl_result ::
    "('e \<Rightarrow> mctp_pktbuf \<Rightarrow> (int \<times> 'e) res) \<Rightarrow> ('e \<Rightarrow> bool) \<Rightarrow> nat \<Rightarrow> nat \<Rightarrow> nat multiset \<Rightarrow>
     'e world \<Rightarrow> u8 \<Rightarrow> u8 \<Rightarrow> bytes \<Rightarrow> (u8 \<times> 'e world) res \<Rightarrow> bool" where
  "ctrl_result tx P mtu b F w src tag m r \<longleftrightarrow> (\<exists>cc w'. r = Inr (cc, w') \<and> endpoint_ok tx P mtu b F w' \<and>
     (let (resp, eid) = control_reply (type_list (control w)) (bus_eid (bus_at w 0)) m in
      if cc = 0 then answered b w src tag eid resp w'
      else w' = w \<and> resp = ctrl_hdr m @ [cc] \<and> eid = bus_eid (bus_at w 0)))"

context reliable_tx
begin

lemma send_resp_sends:
  assumes ok: "endpoint_ok tx P mtu b F w" and len: "length resp < 2 ^ 64" and c: "can_send w" and tag: "tag AND 7 = tag"
  obtains w' where "send_resp True src tag resp w = Inr (True, w')" and "endpoint_ok tx P mtu b F w'"
    and "answered b w src tag (bus_eid (bus_at w 0)) resp w'"
proof -
  have u: "unat (of_nat (length resp) :: u64) = length resp" using len by (simp add: unat_of_nat)
  have g: "good_ops (ops w)" "heap_owns (owned w + F) (heap w)" using ok by (auto simp: endpoint_defs)
  obtain p h where a: "w_msg_alloc (of_nat (length resp)) True w = Inr (p, w\<lparr>heap := h\<rparr>)"
    and h: "heap_owns (own p + (owned w + F)) h"
    and mb: "\<And>mb. p = Some mb \<Longrightarrow> mb_size mb = of_nat (length resp) \<and> mb_data mb = []"
    by (rule w_msg_alloc_owns [OF g, of "of_nat (length resp)"]) (rule that)
  obtain m where p: "p = Some m"
    using a c plenty_alloc [of w "of_nat (length resp)"] by (auto simp: can_send_def)
  let ?m = "m\<lparr>mb_data := resp\<rparr>" and ?w = "w\<lparr>heap := h\<rparr>"
  have bw: "buf_write m 0 resp = Inr ?m" using mb [OF p] u by (simp add: buf_write_def)
  have okm: "endpoint_ok tx P mtu b (add_mset (mb_blk ?m) F) ?w" using ok h p by (simp add: endpoint_ok_def)
  have st: "tx_msg (bus_at ?w 0) = None" "bus_state (bus_at ?w 0) = mctp_bus_state_tx_enabled"
    "unat (of_nat (length resp) :: u64) \<le> length (mb_data ?m)" using c u by (simp_all add: can_send_def)
  obtain w' evs where s: "mctp_message_tx_alloced src False tag ?m (of_nat (length resp)) ?w = Inr (0, w')"
    "endpoint_ok tx P mtu b F w'" "trace w' = trace ?w @ evs"
    "sent_frames b evs = msg_frames (bindings ?w b) (tx_params (bus_at ?w 0) src False tag) True
           (tx_seq (bus_at ?w 0)) (take (unat (of_nat (length resp) :: u64)) (mb_data ?m))"
    by (rule tx_alloced_sends [OF okm st(3,1,2) tag, of src False]) (rule that)
  have "\<exists>rc w2. mctp_message_tx_alloced src False tag ?m (of_nat (length resp)) ?w = Inr (rc, w2) \<and> tx_frame b ?w w2"
    by (rule tx_alloced_ok [OF okm st(3), of src False tag]) blast
  then have "tx_frame b ?w w'" using s(1) by simp
  then have "bus_eid (bus_at w' 0) = bus_eid (bus_at w 0)" by (simp add: tx_frame_def)
  then have "answered b w src tag (bus_eid (bus_at w 0)) resp w'"
    unfolding answered_def using s(3,4) u by auto
  then show ?thesis using that a p bw s(1,2) by (simp add: send_resp_def)
qed

text \<open>The response of a handler, whichever way it is sent.\<close>

lemma reply_error_sends:
  assumes "endpoint_ok tx P mtu b F w" and "can_send w" and "tag AND 7 = tag"
  shows "\<exists>w'. reply_error True src tag h cc w = Inr w' \<and> endpoint_ok tx P mtu b F w' \<and>
     answered b w src tag (bus_eid (bus_at w 0)) (ctrl_hdr_bytes (fill_resp h) @ [cc]) w'"
  by (rule send_resp_sends [OF assms(1) _ assms(2,3), of "ctrl_hdr_bytes (fill_resp h) @ [cc]" src]) (auto simp: reply_error_def)

lemma set_eid_answers:
  assumes ok: "endpoint_ok tx P mtu b F w" and c: "can_send w" and tag: "tag AND 7 = tag" and v: "valid_eid eid"
    and len: "length resp < 2 ^ 64"
  shows "\<exists>w1 w'. mctp_bus_set_eid b eid w = Inr (0, w1) \<and> bus_mctp (bus_at w1 0) \<and>
     send_resp True src tag resp w1 = Inr (True, w') \<and>
     endpoint_ok tx P mtu b F w' \<and> answered b w src tag eid resp w'"
proof -
  let ?w = "set_bus 0 ((bus_at w 0)\<lparr>bus_eid := eid\<rparr>) w"
  have l: "length (busses w) = 2" and b: "b_bus (bindings w b) = Some 0" and m: "bus_mctp (bus_at w 0)"
    using ok by (simp_all add: endpoint_defs)
  have run: "mctp_bus_set_eid b eid w = Inr (0, ?w)" using v b by (auto simp: mctp_bus_set_eid_def valid_eid_def not_less)
  have ok1: "endpoint_ok tx P mtu b F ?w" using ok by (simp add: endpoint_defs tx_pending_ok_def owned_def)
  have c1: "can_send ?w" using c l by (simp add: can_send_def plenty_def)
  obtain w' where s: "send_resp True src tag resp ?w = Inr (True, w')" "endpoint_ok tx P mtu b F w'"
    "answered b ?w src tag (bus_eid (bus_at ?w 0)) resp w'"
    by (rule send_resp_sends [OF ok1 len c1 tag, of src]) (rule that)
  then have "answered b w src tag eid resp w'" using l by (simp add: answered_def)
  then show ?thesis using run s(1,2) l m by auto
qed

lemma ctrl_hdr_fill:
  assumes "m = take (unat len) data" and "3 \<le> unat len" and "unat len \<le> length data"
  shows "read_ctrl_hdr data = Inr \<lparr>ic_msg_type = m ! 0, rq_dgram_inst = m ! 1, command_code = m ! 2\<rparr>"
    and "ctrl_hdr_bytes (fill_resp \<lparr>ic_msg_type = m ! 0, rq_dgram_inst = m ! 1, command_code = m ! 2\<rparr>) = ctrl_hdr m"
  using assms by (simp_all add: read_ctrl_hdr_ok fill_resp_def ctrl_hdr_bytes_def ctrl_hdr_def)

lemma get_endpoint_id_result:
  assumes ok: "endpoint_ok tx P mtu b F w" and c: "can_send w" and tag: "tag AND 7 = tag"
    and m: "m = take (unat len) data" "3 \<le> unat len" "unat len \<le> length data" "m ! 2 = 2"
  shows "ctrl_result tx P mtu b F w src tag m (mctp_ctrl_get_endpoint_id 0 src tag data len w)"
proof (cases "len = 3")
  case True
  let ?resp = "ctrl_hdr m @ [0, bus_eid (bus_at w 0), 1, 0]"
  obtain w' where s: "send_resp True src tag ?resp w = Inr (True, w')" "endpoint_ok tx P mtu b F w'"
    "answered b w src tag (bus_eid (bus_at w 0)) ?resp w'"
    by (rule send_resp_sends [OF ok _ c tag, of ?resp src]) (simp add: ctrl_hdr_def, rule that)
  have r: "control_reply (type_list (control w)) (bus_eid (bus_at w 0)) m = (?resp, bus_eid (bus_at w 0))"
    using m True by (simp add: control_reply_def)
  have "mctp_ctrl_get_endpoint_id 0 src tag data len w = Inr (0, w')"
    using s(1) True ctrl_hdr_fill [OF m(1-3)] endpoint_ok_bus_mctp [OF ok] by (simp add: mctp_ctrl_get_endpoint_id_def)
  then show ?thesis unfolding ctrl_result_def using s(2,3) r by simp
next
  case False
  then have "length m \<noteq> 3" using m by (auto simp: word_unat_eq_iff)
  then have "control_reply (type_list (control w)) (bus_eid (bus_at w 0)) m = (ctrl_hdr m @ [3], bus_eid (bus_at w 0))"
    using m(4) by (simp add: control_reply_def)
  then show ?thesis using False ok by (simp add: ctrl_result_def mctp_ctrl_get_endpoint_id_def)
qed

lemma get_version_result:
  assumes ok: "endpoint_ok tx P mtu b F w" and c: "can_send w" and tag: "tag AND 7 = tag"
    and m: "m = take (unat len) data" "3 \<le> unat len" "unat len \<le> length data" "m ! 2 = 4"
  shows "ctrl_result tx P mtu b F w src tag m (mctp_ctrl_get_version 0 src tag data len w)"
proof -
  let ?e = "bus_eid (bus_at w 0)" and ?resp = "ctrl_hdr m @ [0, 4] @ MCTP_PROTOCOL_VERSIONS"
  obtain w' where s: "send_resp True src tag ?resp w = Inr (True, w')" "endpoint_ok tx P mtu b F w'"
    "answered b w src tag ?e ?resp w'"
    by (rule send_resp_sends [OF ok _ c tag, of ?resp src]) (simp add: ctrl_hdr_def MCTP_PROTOCOL_VERSIONS_def, rule that)
  consider "len \<noteq> 4" | "len = 4" "m ! 3 \<noteq> 0" "m ! 3 \<noteq> 0xff" | "len = 4" "m ! 3 = 0 \<or> m ! 3 = 0xff" by blast
  then show ?thesis
  proof cases
    case 1
    then have "length m \<noteq> 4" using m by (auto simp: word_unat_eq_iff)
    then have "control_reply (type_list (control w)) ?e m = (ctrl_hdr m @ [3], ?e)" using m(4) by (simp add: control_reply_def)
    then show ?thesis using 1 ok by (simp add: ctrl_result_def mctp_ctrl_get_version_def)
  next
    case 2
    then have r: "control_reply (type_list (control w)) ?e m = (ctrl_hdr m @ [0x80], ?e)"
      using m by (simp add: control_reply_def)
    have "mctp_ctrl_get_version 0 src tag data len w = Inr (0x80, w)"
      using 2 m by (simp add: mctp_ctrl_get_version_def rd8_ok)
    then show ?thesis using r ok by (simp add: ctrl_result_def)
  next
    case 3
    then have r: "control_reply (type_list (control w)) ?e m = (?resp, ?e)"
      using m by (auto simp: control_reply_def)
    have "mctp_ctrl_get_version 0 src tag data len w = Inr (0, w')"
      using 3 m(3) s(1) ctrl_hdr_fill [OF m(1-3)] endpoint_ok_bus_mctp [OF ok] unfolding m(1)
      by (auto simp: mctp_ctrl_get_version_def rd8_ok)
    then show ?thesis using r s(2,3) by (simp add: ctrl_result_def)
  qed
qed

lemma get_types_result:
  assumes ok: "endpoint_ok tx P mtu b F w" and c: "can_send w" and tag: "tag AND 7 = tag"
    and m: "m = take (unat len) data" "3 \<le> unat len" "unat len \<le> length data" "m ! 2 = 5"
  shows "ctrl_result tx P mtu b F w src tag m (mctp_ctrl_get_types 0 src tag data len w)"
proof (cases "len = 3")
  case True
  let ?types = "type_list (control w)"
  let ?resp = "ctrl_hdr m @ [0, of_nat (length ?types)] @ ?types"
  note k = control_okD [OF endpoint_ok_controlD [OF ok]]
  obtain w' where s: "send_resp True src tag ?resp w = Inr (True, w')" "endpoint_ok tx P mtu b F w'"
    "answered b w src tag (bus_eid (bus_at w 0)) ?resp w'"
    using k(1,4) by (rule_tac send_resp_sends [OF ok _ c tag, of ?resp src]) (simp add: ctrl_hdr_def, rule that)
  have r: "control_reply ?types (bus_eid (bus_at w 0)) m = (?resp, bus_eid (bus_at w 0))"
    using m True by (simp add: control_reply_def)
  have t: "mem_read (msg_types (control w)) 0 (unat (num_msg_types (control w))) = Inr ?types"
    "ucast (num_msg_types (control w)) = (of_nat (length ?types) :: u8)"
    using k by (simp_all add: mem_read_def type_list_def)
  have "mctp_ctrl_get_types 0 src tag data len w = Inr (0, w')"
    using s(1) True ctrl_hdr_fill [OF m(1-3)] endpoint_ok_bus_mctp [OF ok] t by (simp add: mctp_ctrl_get_types_def)
  then show ?thesis unfolding ctrl_result_def using s(2,3) r by simp
next
  case False
  then have "length m \<noteq> 3" using m by (auto simp: word_unat_eq_iff)
  then have "control_reply (type_list (control w)) (bus_eid (bus_at w 0)) m = (ctrl_hdr m @ [3], bus_eid (bus_at w 0))"
    using m(4) by (simp add: control_reply_def)
  then show ?thesis using False ok by (simp add: ctrl_result_def mctp_ctrl_get_types_def)
qed

lemma set_endpoint_id_result:
  assumes ok: "endpoint_ok tx P mtu b F w" and c: "can_send w" and tag: "tag AND 7 = tag"
    and m: "m = take (unat len) data" "3 \<le> unat len" "unat len \<le> length data" "m ! 2 = 1"
  shows "ctrl_result tx P mtu b F w src tag m (mctp_ctrl_set_endpoint_id 0 src tag data len w)"
proof -
  let ?e = "bus_eid (bus_at w 0)" and ?T = "type_list (control w)"
  have b: "bus_binding (bus_at w 0) = Some b" using ok by (simp add: endpoint_defs)
  have op: "x = 0 \<or> x = 1 \<longleftrightarrow> x < 2" for x :: u8 by (auto simp: word_less_nat_alt word_unat_eq_iff)
  consider "len \<noteq> 5" | "len = 5" "\<not> m ! 3 AND 3 < 2 \<or> \<not> valid_eid (m ! 4)"
    | "len = 5" "m ! 3 AND 3 < 2" "valid_eid (m ! 4)" by blast
  then show ?thesis
  proof cases
    case 1
    then have "length m \<noteq> 5" using m by (auto simp: word_unat_eq_iff)
    then have "control_reply ?T ?e m = (ctrl_hdr m @ [3], ?e)" using m(4) by (simp add: control_reply_def)
    then show ?thesis using 1 ok by (simp add: ctrl_result_def mctp_ctrl_set_endpoint_id_def)
  next
    case 2
    then have r: "control_reply ?T ?e m = (ctrl_hdr m @ [2], ?e)" using m by (auto simp: control_reply_def)
    have l: "3 < length data" "4 < length data" and nth: "data ! 3 = m ! 3" "data ! 4 = m ! 4" using 2 m by simp_all
    have "mctp_ctrl_set_endpoint_id 0 src tag data len w = Inr (2, w)"
      using 2 b by (auto simp: mctp_ctrl_set_endpoint_id_def rd8_ok l nth op mctp_bus_set_eid_def valid_eid_def not_less Let_def)
    then show ?thesis using r ok by (simp add: ctrl_result_def)
  next
    case 3
    let ?resp = "ctrl_hdr m @ [0, 0, m ! 4, 0]"
    have r: "control_reply ?T ?e m = (?resp, m ! 4)" using 3 m by (simp add: control_reply_def)
    have l: "3 < length data" "4 < length data" and nth: "data ! 3 = m ! 3" "data ! 4 = m ! 4" using 3 m by simp_all
    obtain w1 w' where s: "mctp_bus_set_eid b (m ! 4) w = Inr (0, w1)" "bus_mctp (bus_at w1 0)"
      "send_resp True src tag ?resp w1 = Inr (True, w')" "endpoint_ok tx P mtu b F w'" "answered b w src tag (m ! 4) ?resp w'"
      using set_eid_answers [OF ok c tag 3(3), of ?resp src] by (auto simp: ctrl_hdr_def)
    have "mctp_ctrl_set_endpoint_id 0 src tag data len w = Inr (0, w')"
      using 3 s(1-3) b ctrl_hdr_fill [OF m(1-3)]
      by (simp add: mctp_ctrl_set_endpoint_id_def rd8_ok l nth op Let_def)
    then show ?thesis using r s(4,5) by (simp add: ctrl_result_def)
  qed
qed

text \<open>The whole handler: every request is answered with exactly the specified reply.\<close>

lemma control_handler_answers:
  assumes ok: "endpoint_ok tx P mtu b F w" and c: "can_send w" and tag: "tag AND 7 = tag"
    and len: "unat len \<le> length data" and req: "control_request (take (unat len) data)"
    and reply: "control_reply (type_list (control w)) (bus_eid (bus_at w 0)) (take (unat len) data) = (resp, eid)"
  shows "\<exists>w'. mctp_control_handler 0 src True tag data len w = Inr (True, w') \<and>
     endpoint_ok tx P mtu b F w' \<and> answered b w src tag eid resp w'"
proof -
  let ?m = "take (unat len) data"
  have l: "3 \<le> unat len" and t: "?m ! 0 = 0" "?m ! 1 AND 0xc0 = 0x80" using req by (auto simp: control_request_def)
  let ?h = "\<lparr>ic_msg_type = 0, rq_dgram_inst = ?m ! 1, command_code = ?m ! 2\<rparr>"
  let ?cmd = "if ?m ! 2 = 1 then mctp_ctrl_set_endpoint_id 0 src tag data len w
    else if ?m ! 2 = 2 then mctp_ctrl_get_endpoint_id 0 src tag data len w
    else if ?m ! 2 = 4 then mctp_ctrl_get_version 0 src tag data len w
    else if ?m ! 2 = 5 then mctp_ctrl_get_types 0 src tag data len w else Inr (5, w)"
  have fill: "read_ctrl_hdr data = Inr ?h" "ctrl_hdr_bytes (fill_resp ?h) = ctrl_hdr ?m"
    using ctrl_hdr_fill [OF refl l len] t(1) by simp_all
  have "ctrl_result tx P mtu b F w src tag ?m ?cmd"
    using set_endpoint_id_result [OF ok c tag refl l len] get_endpoint_id_result [OF ok c tag refl l len]
      get_version_result [OF ok c tag refl l len] get_types_result [OF ok c tag refl l len] ok
    by (simp add: ctrl_result_def control_reply_def)
  then obtain cc w1 where cmd: "?cmd = Inr (cc, w1)" and ok1: "endpoint_ok tx P mtu b F w1"
    and res: "if cc = 0 then answered b w src tag eid resp w1
      else w1 = w \<and> resp = ctrl_hdr ?m @ [cc] \<and> eid = bus_eid (bus_at w 0)"
    by (auto simp: ctrl_result_def reply)
  have run: "mctp_control_handler 0 src True tag data len w =
      rbind (if cc \<noteq> 0 then reply_error True src tag ?h cc w1 else Inr w1) (\<lambda>w. Inr (True, w))"
  proof -
    have "\<not> len < 1" "\<not> len < 3" using l by (simp_all add: word_less_nat_alt)
    moreover have "rd8 data 0 = Inr 0" using t(1) l len by (subst rd8_ok) auto
    ultimately have "mctp_control_handler 0 src True tag data len w = rbind ?cmd (\<lambda>(cc, w).
        rbind (if cc \<noteq> 0 then reply_error (bus_mctp (bus_at w 0)) src tag ?h cc w else Inr w) (\<lambda>w. Inr (True, w)))"
      using fill(1) t by (simp add: mctp_control_handler_def del: One_nat_def)
    then show ?thesis unfolding cmd using endpoint_ok_bus_mctp [OF ok1] by simp
  qed
  show ?thesis
  proof (cases "cc = 0")
    case True
    then show ?thesis using run res ok1 by simp
  next
    case False
    then have "w1 = w" "resp = ctrl_hdr_bytes (fill_resp ?h) @ [cc]" "eid = bus_eid (bus_at w 0)" using res fill(2) by simp_all
    then show ?thesis using reply_error_sends [OF ok c tag, of src ?h cc] run False by auto
  qed
qed

text \<open>A request that arrives in one packet, from the packet to the reply.\<close>

lemma rx_answers:
  assumes ok: "endpoint_ok tx P mtu b F w" and c: "can_send w" and tag: "tag AND 7 = tag"
    and len: "unat len = length m" and req: "control_request m" and cmd: "m ! 2 < 0xf0"
    and dest: "mctp_rx_dest_is_local (bus_at w 0) dest"
    and reply: "control_reply (type_list (control w)) (bus_eid (bus_at w 0)) m = (resp, eid)"
  shows "\<exists>w'. mctp_rx 0 src dest True tag (Some m) len w = Inr w' \<and> endpoint_ok tx P mtu b F w' \<and>
     answered b w src tag eid resp w'"
proof -
  have r: "route_policy w = ROUTE_ENDPOINT" using ok by (simp add: endpoint_defs)
  have l: "3 \<le> length m" and t: "m ! 0 = 0" "m ! 1 AND 0xc0 = 0x80" using req by (auto simp: control_request_def)
  have "m ! 1 AND 0x80 \<noteq> 0"
  proof
    assume z: "m ! 1 AND 0x80 = 0"
    have "m ! 1 AND 0x80 = (m ! 1 AND 0xc0) AND 0x80" by (simp add: and.assoc)
    with t(2) z show False by simp
  qed
  moreover have "3 \<le> len" using l len by (simp add: word_le_nat_alt)
  moreover have "\<not> m ! 2 \<ge> 0xf0" using cmd by simp
  ultimately have "mctp_rx 0 src dest True tag (Some m) len w =
      rbind (mctp_control_handler 0 src True tag m len w) (\<lambda>(handled, w).
        if handled then Inr w else Inr (deliver src True tag m len w))"
    using r dest t(1) read_ctrl_hdr_ok [OF l]
    by (simp add: mctp_rx_def mctp_ctrl_cmd_is_request_def mctp_ctrl_handle_msg_def mctp_ctrl_cmd_is_transport_def)
  then show ?thesis
    using control_handler_answers [OF ok c tag, of len m resp eid src] len req reply by auto
qed

lemma answered_heap: "answered b (w\<lparr>heap := h\<rparr>) src tag eid resp w' = answered b w src tag eid resp w'"
  "answered b w src tag eid resp (w'\<lparr>heap := h\<rparr>) = answered b w src tag eid resp w'"
  by (simp_all add: answered_def)

lemma bus_rx_answers:
  assumes ok: "endpoint_ok tx P mtu b F w" and c: "can_send w" and pkt: "rx_pkt pkt" and hdr: "read_hdr pkt = Inr hdr"
    and fl: "fst_flags (flags_seq_tag hdr) = 0xc0" "fst_to (flags_seq_tag hdr)"
    and src: "hdr_src hdr \<noteq> MCTP_EID_BROADCAST" and dest: "mctp_rx_dest_is_local (bus_at w 0) (hdr_dest hdr)"
    and m: "m = drop 4 (pktbuf_bytes pkt)" "control_request m" "m ! 2 < 0xf0"
    and reply: "control_reply (type_list (control w)) (bus_eid (bus_at w 0)) m = (resp, eid)"
  shows "\<exists>w'. mctp_bus_rx b pkt w = Inr w' \<and> endpoint_ok tx P mtu b F w' \<and>
     answered b (w\<lparr>trace := trace w @ capture_events pkt False w\<rparr>) (hdr_src hdr) (fst_tag (flags_seq_tag hdr)) eid resp w'"
proof -
  let ?w = "w\<lparr>trace := trace w @ capture_events pkt False w\<rparr>"
  let ?len = "mctp_pktbuf_size pkt - 4" and ?tag = "fst_tag (flags_seq_tag hdr)"
  have b: "b_bus (bindings w b) = Some 0" "b_mctp (bindings w b)"
    using ok by (auto simp: endpoint_defs binding_ok_def)
  from pkt have wf: "pktbuf_wf pkt" and off: "mctp_hdr_off pkt = pk_start pkt" by (auto simp: rx_pkt_def)
  have sz: "\<not> mctp_pktbuf_size pkt < 4" using pkt unat_pktbuf_size [of pkt] by (simp add: rx_pkt_def word_less_nat_alt)
  have at: "bus_at ?w 0 = bus_at w 0" by (simp add: bus_at_def)
  have okt: "endpoint_ok tx P mtu b F ?w" using ok by simp
  have ct: "can_send ?w" using c at by (simp add: can_send_def plenty_def)
  have len: "pk_end pkt - mctp_hdr_off pkt - 4 = ?len" by (simp add: off mctp_pktbuf_size_def)
  have ul: "unat ?len = length m" using pkt add_pkt_len [OF wf] m(1) by (simp add: rx_pkt_def)
  have rd: "mem_read (pk_data pkt) (unat (mctp_hdr_off pkt + 4)) (unat ?len) = Inr m"
    using rx_pkt_body [OF pkt] m(1) by (simp add: mctp_pktbuf_data_def)
  then have rng: "unat (mctp_hdr_off pkt + 4) + unat ?len \<le> length (pk_data pkt)"
    and bd: "take (unat ?len) (drop (unat (mctp_hdr_off pkt + 4)) (pk_data pkt)) = m"
    by (simp_all add: mem_read_Inr_iff)
  obtain p h where d: "mctp_msg_dup (pk_data pkt) (unat (mctp_hdr_off pkt + 4)) ?len True ?w = Inr (p, ?w\<lparr>heap := h\<rparr>)"
    and ok1: "endpoint_ok tx P mtu b (own p + F) (?w\<lparr>heap := h\<rparr>)" and mb: "\<And>mb. p = Some mb \<Longrightarrow> mb_data mb = m"
    using mctp_msg_dup_ok [OF okt rng] unfolding bd by blast
  from plenty_dup [OF _ d] ct obtain q where p: "p = Some q" and pl: "plenty (?w\<lparr>heap := h\<rparr>)" by (auto simp: can_send_def)
  have c1: "can_send (?w\<lparr>heap := h\<rparr>)" using ct pl by (simp add: can_send_def)
  have tag: "?tag AND 7 = ?tag" by (simp add: fst_tag_def and.assoc)
  obtain w2 where rx: "mctp_rx 0 (hdr_src hdr) (hdr_dest hdr) True ?tag (Some m) ?len (?w\<lparr>heap := h\<rparr>) = Inr w2"
    and ok2: "endpoint_ok tx P mtu b (own p + F) w2"
    and an: "answered b ?w (hdr_src hdr) ?tag eid resp w2"
    using rx_answers [OF ok1 c1 tag ul m(2,3), of "hdr_dest hdr" resp eid "hdr_src hdr"] dest reply at by (auto simp: answered_heap)
  have g: "good_ops (ops w2)" "heap_owns (add_mset (mb_blk q) (owned w2 + F)) (heap w2)" "ep_shape tx P mtu b w2"
    using ok2 p by (auto simp: endpoint_defs)
  obtain h2 where f: "w_msg_free (Some q) True w2 = Inr (w2\<lparr>heap := h2\<rparr>)" "heap_owns (owned w2 + F) h2"
    by (rule w_msg_free_owns [OF g(1,2)])
  have "mctp_bus_rx b pkt w = Inr (w2\<lparr>heap := h2\<rparr>)"
    using b sz hdr src dest at fl d p mb rx f(1) len by (simp add: mctp_bus_rx_def Let_def rx_switch_def rx_single_def)
  then show ?thesis using an f(2) g(3) by (simp add: answered_heap endpoint_ok_def)
qed

end

end
