(* ===== verification/Mctp_Bridge.thy ===== *)
theory Mctp_Bridge
  imports Mctp_Control_Spec
begin

unbundle bit_operations_syntax

text \<open>
  The core as a bridge between two busses (\<open>mctp_bridge_busses\<close>, the \<open>ROUTE_BRIDGE\<close> branch of
  \<open>mctp_rx\<close> in \<^verbatim>\<open>src/core.c\<close>): in both directions a message in one packet leaves on the other bus under
  its own addresses and tag, and the bridge is ready for the next one. A message in several packets does not get that far: \<open>mctp_bridge_busses\<close> leaves
  the pointer \<open>bus->mctp\<close> NULL, and releasing a reassembly context reads through it.
\<close>

section \<open>The state of a bridge\<close>

text \<open>A bridge with the bindings \<open>bs\<close>, in the order of their busses. Each direction of the bridge is a pair \<open>i\<close>, \<open>j\<close>
  of its two busses: \<open>i + j = 1\<close>.\<close>

definition bridge_ok :: "('e \<Rightarrow> mctp_pktbuf \<Rightarrow> (int \<times> 'e) res) \<Rightarrow> ('e \<Rightarrow> bool) \<Rightarrow> nat \<Rightarrow> nat list \<Rightarrow> 'e world \<Rightarrow> bool" where
  "bridge_ok tx P mtu bs w \<longleftrightarrow> n_busses w = 2 \<and> route_policy w = ROUTE_BRIDGE \<and> length (busses w) = 2 \<and>
     length bs = 2 \<and> distinct bs \<and> (\<forall>i<2. b_bus (bindings w (bs ! i)) = Some i \<and> tx_ready tx P mtu i (bs ! i) w)"

definition bus_idle :: "nat \<Rightarrow> 'e world \<Rightarrow> bool" where
  "bus_idle i w \<longleftrightarrow> tx_msg (bus_at w i) = None \<and> bus_state (bus_at w i) = mctp_bus_state_tx_enabled"

lemma bridge_okD:
  assumes "bridge_ok tx P mtu bs w" and "i + j = 1"
  shows "n_busses w = 2" "route_policy w = ROUTE_BRIDGE" "b_bus (bindings w (bs ! i)) = Some i" "b_mctp (bindings w (bs ! i))"
    "tx_ready tx P mtu j (bs ! j) w"
proof -
  have "i < 2" "j < 2" using assms(2) by simp_all
  then show "n_busses w = 2" "route_policy w = ROUTE_BRIDGE" "b_bus (bindings w (bs ! i)) = Some i" "b_mctp (bindings w (bs ! i))"
    "tx_ready tx P mtu j (bs ! j) w"
    using assms(1) by (auto simp: bridge_ok_def tx_ready_def binding_ok_def)
qed

lemma all_less_two: "(\<forall>i<2. Q i) \<longleftrightarrow> Q 0 \<and> Q (1 :: nat)"
  by (auto simp: less_2_cases_iff)

lemma two_busses: "i + j = 1 \<Longrightarrow> (\<forall>k<2. Q k) \<longleftrightarrow> Q i \<and> Q (j :: nat)"
  by (cases i) (auto simp: all_less_two)

lemma bridge_loop_two:
  assumes "i + j = 1" and "mctp_msg_dup buf 0 len True w = Inr (Some mb, w1)"
    and "mctp_message_tx_on_bus j src dest to tag mb len w1 = Inr (rc, w2)"
  shows "bridge_loop [0..<2] i src dest to tag buf len w = Inr w2"
  using assms by (cases i) (auto simp: numeral_2_eq_2 upt_rec)

text \<open>What a transmission on bus \<open>j\<close> through binding \<open>b\<close> leaves alone of a bridge.\<close>

definition others_kept :: "nat \<Rightarrow> nat \<Rightarrow> 'e world \<Rightarrow> 'e world \<Rightarrow> bool" where
  "others_kept j b w w' \<longleftrightarrow> n_busses w' = n_busses w \<and> route_policy w' = route_policy w \<and> length (busses w') = length (busses w) \<and>
     b_bus (bindings w' b) = b_bus (bindings w b) \<and> ops w' = ops w \<and>
     (\<forall>i. i \<noteq> j \<longrightarrow> bus_at w' i = bus_at w i) \<and> (\<forall>c. c \<noteq> b \<longrightarrow> bindings w' c = bindings w c)"

lemma bridge_ok_kept:
  assumes br: "bridge_ok tx P mtu bs w" and ij: "i + j = 1" and k: "others_kept j (bs ! j) w w'"
    and r: "tx_ready tx P mtu j (bs ! j) w'" and live: "h_live (heap w') = h_live (heap w)"
  shows "bridge_ok tx P mtu bs w'"
proof -
  have n: "i \<noteq> j" "i < 2" using ij by presburger+
  then have ne: "bs ! i \<noteq> bs ! j" using br ij by (simp add: bridge_ok_def nth_eq_iff_index_eq)
  have "tx_ready tx P mtu i (bs ! i) w" "b_bus (bindings w (bs ! i)) = Some i" "b_bus (bindings w (bs ! j)) = Some j"
    using br ij n by (auto simp: bridge_ok_def)
  then show ?thesis using br k r n ne live
    by (simp add: bridge_ok_def two_busses [OF ij]) (simp add: others_kept_def tx_ready_def)
qed

lemma dup_plenty:
  assumes "plenty w" and "heap_ok (heap w)" and "off + unat len \<le> length src"
  obtains mb h where "mctp_msg_dup src off len True w = Inr (Some mb, w\<lparr>heap := h\<rparr>)"
    and "mb_data mb = take (unat len) (drop off src)" and "plenty (w\<lparr>heap := h\<rparr>)" and "heap_ok h"
    and "mb_blk mb \<notin> h_live (heap w)" and "h_live h = insert (mb_blk mb) (h_live (heap w))"
proof -
  let ?b = "h_next (heap w)"
  let ?h = "(heap w)\<lparr>h_next := Suc ?b, h_live := insert ?b (h_live (heap w))\<rparr>"
  let ?mb = "\<lparr>mb_blk = ?b, mb_size = len, mb_data = take (unat len) (drop off src)\<rparr>"
  have "mctp_msg_dup src off len True w = Inr (Some ?mb, w\<lparr>heap := ?h\<rparr>)"
    using assms(1,3) by (simp add: plenty_def mctp_msg_dup_def w_msg_alloc_def mctp_msg_alloc_def default_msg_malloc_def
        mctp_alloc_def default_alloc_ops_def libc_malloc_def Let_def mem_read_def buf_write_def)
  moreover have "heap_ok ?h" "?b \<notin> h_live (heap w)" using assms(2) by (auto simp: heap_ok_def less_SucI)
  ultimately show ?thesis using assms(1) by (intro that [of ?mb ?h]) (simp_all add: plenty_def)
qed

context reliable_tx
begin

lemma on_bus_sends:
  assumes r: "tx_ready tx P mtu bi b w" and idle: "tx_msg (bus_at w bi) = None"
    and en: "bus_state (bus_at w bi) = mctp_bus_state_tx_enabled" and tag: "tag AND 7 = tag"
    and len: "unat n \<le> length (mb_data mb)" and live: "mb_blk mb \<in> h_live (heap w)"
  obtains w' evs where "mctp_message_tx_on_bus bi src dest to tag mb n w = Inr (0, w')" and "trace w' = trace w @ evs"
    and "sent_frames b evs = msg_frames (bindings w b)
       ((bus_at w bi)\<lparr>tx_src := src, tx_dest := dest, tx_to := to, tx_tag := tag\<rparr>) True (tx_seq (bus_at w bi)) (take (unat n) (mb_data mb))"
    and "tx_events b evs" and "h_live (heap w') = h_live (heap w) - {mb_blk mb}" and "heap_ok (heap w')" and "ops w' = ops w"
    and "others_kept bi b w w'" and "tx_ready tx P mtu bi b w'" and "bus_idle bi w'"
proof -
  let ?bus = "(bus_at w bi)\<lparr>tx_msg := Some mb, tx_msglen := n, tx_msgpos := 0, tx_src := src, tx_dest := dest, tx_to := to, tx_tag := tag\<rparr>"
  let ?w = "set_bus bi ?bus w"
  have bi: "bi < length (busses w)" and b: "bus_binding (bus_at w bi) = Some b" and pk: "68 \<le> unat (b_pkt_size (bindings w b))"
    using r by (simp_all add: tx_ready_def binding_ok_def)
  have at: "bus_at ?w bi = ?bus" using bi by simp
  have r': "tx_ready tx P mtu bi b ?w"
    using r bi tag len live by (simp add: tx_ready_def tx_pending_ok_def)
  have "\<exists>pos pl sq st e h evs.
     send_tx_queue (Suc (unat n)) bi ?w = Inr (tx_upd bi b None pos pl sq st e h evs ?w) \<and>
     tx_ready tx P mtu bi b (tx_upd bi b None pos pl sq st e h evs ?w) \<and> tx_events b evs \<and>
     h_live h = h_live (heap ?w) - {mb_blk mb} \<and>
     sent_frames b evs = msg_frames (bindings ?w b) ?bus (tx_msgpos ?bus = 0) (tx_seq ?bus)
       (take (unat (tx_msglen ?bus) - unat (tx_msgpos ?bus)) (drop (unat (tx_msgpos ?bus)) (mb_data mb)))"
    by (rule loop_sends [OF r' at]) (use en in simp_all)
  then obtain pos pl sq st e h evs where q: "send_tx_queue (Suc (unat n)) bi ?w = Inr (tx_upd bi b None pos pl sq st e h evs ?w)"
    "tx_ready tx P mtu bi b (tx_upd bi b None pos pl sq st e h evs ?w)" "tx_events b evs"
    "h_live h = h_live (heap ?w) - {mb_blk mb}"
    "sent_frames b evs = msg_frames (bindings ?w b) ?bus (tx_msgpos ?bus = 0) (tx_seq ?bus)
       (take (unat (tx_msglen ?bus) - unat (tx_msgpos ?bus)) (drop (unat (tx_msgpos ?bus)) (mb_data mb)))"
    by (elim exE conjE) (rule that)
  let ?w' = "tx_upd bi b None pos pl sq st e h evs ?w"
  have "MCTP_BODY_SIZE (b_pkt_size (bindings w b)) \<ge> MCTP_BTU" using pk by (simp add: word_le_nat_alt unat_diff_le)
  then have run: "mctp_message_tx_on_bus bi src dest to tag mb n w = Inr (0, ?w')"
    using q(1) tag idle en b bi by (simp add: mctp_message_tx_on_bus_def Let_def mctp_send_tx_queue_def
        del: MCTP_BODY_SIZE_def MCTP_BTU_def)
  have fr: "msg_frames bnd ?bus som s m = msg_frames bnd ((bus_at w bi)\<lparr>tx_src := src, tx_dest := dest, tx_to := to, tx_tag := tag\<rparr>) som s m"
    for bnd som s m by (simp add: msg_frames_def frag_hdr_def)
  have "heap_ok h" using q(2) by (simp add: tx_ready_def)
  moreover have "others_kept bi b w ?w'" by (simp add: others_kept_def tx_upd_def bus_at_def)
  moreover have "bus_idle bi ?w'" using bi en by (simp add: bus_idle_def tx_upd_def bus_at_def)
  ultimately show ?thesis using q(2-5) fr by (intro that [OF run, of evs]) (simp_all add: tx_upd_def)
qed

text \<open>The body of a message that arrived on bus \<open>i\<close> leaves on bus \<open>j\<close>.\<close>

lemma bridge_routes:
  assumes br: "bridge_ok tx P mtu bs w" and ij: "i + j = 1" and idle: "bus_idle j w" and pl: "plenty w"
    and tag: "tag AND 7 = tag" and len: "unat len = length m"
  obtains w' evs where "mctp_rx i src dest to tag (Some m) len w = Inr w'" and "trace w' = trace w @ evs"
    and "sent_frames (bs ! j) evs = msg_frames (bindings w (bs ! j)) ((bus_at w j)\<lparr>tx_src := src, tx_dest := dest,
        tx_to := to, tx_tag := tag\<rparr>) True (tx_seq (bus_at w j)) m"
    and "tx_events (bs ! j) evs" and "h_live (heap w') = h_live (heap w)" and "heap_ok (heap w')" and "ops w' = ops w"
    and "others_kept j (bs ! j) w w'" and "tx_ready tx P mtu j (bs ! j) w'" and "bus_idle j w'"
proof -
  note s = bridge_okD(1,2) [OF br ij] and r = bridge_okD(5) [OF br ij]
  have hk: "heap_ok (heap w)" "0 + unat len \<le> length m" using r len by (simp_all add: tx_ready_def)
  obtain mb h where d: "mctp_msg_dup m 0 len True w = Inr (Some mb, w\<lparr>heap := h\<rparr>)" "mb_data mb = take (unat len) (drop 0 m)"
    "plenty (w\<lparr>heap := h\<rparr>)" "heap_ok h" "mb_blk mb \<notin> h_live (heap w)" "h_live h = insert (mb_blk mb) (h_live (heap w))"
    by (rule dup_plenty [OF pl hk])
  let ?w = "w\<lparr>heap := h\<rparr>"
  have at: "bus_at ?w j = bus_at w j" by (simp add: bus_at_def)
  have r2: "tx_ready tx P mtu j (bs ! j) ?w" using r idle d(4) at by (simp add: tx_ready_def bus_idle_def)
  have idle2: "tx_msg (bus_at ?w j) = None" "bus_state (bus_at ?w j) = mctp_bus_state_tx_enabled"
    using idle at by (simp_all add: bus_idle_def)
  have len2: "unat len \<le> length (mb_data mb)" and live2: "mb_blk mb \<in> h_live (heap ?w)" using d len by simp_all
  obtain w' evs where x: "mctp_message_tx_on_bus j src dest to tag mb len ?w = Inr (0, w')" "trace w' = trace ?w @ evs"
    "sent_frames (bs ! j) evs = msg_frames (bindings ?w (bs ! j)) ((bus_at ?w j)\<lparr>tx_src := src, tx_dest := dest,
        tx_to := to, tx_tag := tag\<rparr>) True (tx_seq (bus_at ?w j)) (take (unat len) (mb_data mb))"
    "tx_events (bs ! j) evs" "h_live (heap w') = h_live (heap ?w) - {mb_blk mb}" "heap_ok (heap w')" "ops w' = ops ?w"
    "others_kept j (bs ! j) ?w w'" "tx_ready tx P mtu j (bs ! j) w'" "bus_idle j w'"
    by (rule on_bus_sends [OF r2 idle2 tag len2 live2, of src dest to]) (rule that)
  have "mctp_rx i src dest to tag (Some m) len w = Inr w'"
    using s bridge_loop_two [OF ij d(1) x(1)] by (simp add: mctp_rx_def)
  moreover have "others_kept j (bs ! j) w w'" using x(8) by (simp add: others_kept_def bus_at_def)
  ultimately show ?thesis using x d len at by (intro that) auto
qed

text \<open>A message in one packet is forwarded to the other bus under its own source, destination and tag.\<close>

lemma bridge_forwards:
  assumes br: "bridge_ok tx P mtu bs w" and ij: "i + j = 1" and idle: "bus_idle j w" and pl: "plenty w" and pkt: "rx_pkt pkt"
    and hdr: "read_hdr pkt = Inr hdr" and src: "hdr_src hdr \<noteq> MCTP_EID_BROADCAST" and fl: "fst_flags (flags_seq_tag hdr) = 0xc0"
  obtains w' evs where "mctp_bus_rx (bs ! i) pkt w = Inr w'" and "trace w' = trace w @ capture_events pkt False w @ evs"
    and "sent_frames (bs ! j) evs = msg_frames (bindings w (bs ! j)) ((bus_at w j)\<lparr>tx_src := hdr_src hdr, tx_dest := hdr_dest hdr,
        tx_to := fst_to (flags_seq_tag hdr), tx_tag := fst_tag (flags_seq_tag hdr)\<rparr>) True (tx_seq (bus_at w j)) (drop 4 (pktbuf_bytes pkt))"
    and "tx_events (bs ! j) evs" and "h_live (heap w') = h_live (heap w)" and "bridge_ok tx P mtu bs w'" and "bus_idle j w'"
proof -
  let ?w = "w\<lparr>trace := trace w @ capture_events pkt False w\<rparr>"
  let ?len = "mctp_pktbuf_size pkt - 4" and ?tag = "fst_tag (flags_seq_tag hdr)" and ?m = "drop 4 (pktbuf_bytes pkt)"
  note s = bridge_okD [OF br ij]
  from pkt have wf: "pktbuf_wf pkt" and off: "mctp_hdr_off pkt = pk_start pkt" by (auto simp: rx_pkt_def)
  have sz: "\<not> mctp_pktbuf_size pkt < 4" using pkt unat_pktbuf_size [of pkt] by (simp add: rx_pkt_def word_less_nat_alt)
  have len: "pk_end pkt - mctp_hdr_off pkt - 4 = ?len" by (simp add: off mctp_pktbuf_size_def)
  have ul: "unat ?len = length ?m" using pkt add_pkt_len [OF wf] by (simp add: rx_pkt_def)
  have "mem_read (pk_data pkt) (unat (mctp_hdr_off pkt + 4)) (unat ?len) = Inr ?m"
    using rx_pkt_body [OF pkt] by (simp add: mctp_pktbuf_data_def)
  then have rng: "unat (mctp_hdr_off pkt + 4) + unat ?len \<le> length (pk_data pkt)"
    and bd: "take (unat ?len) (drop (unat (mctp_hdr_off pkt + 4)) (pk_data pkt)) = ?m" by (simp_all add: mem_read_Inr_iff)
  have g: "good_ops (ops w)" and plt: "plenty ?w" "heap_ok (heap ?w)" using pl s(5) by (simp_all add: plenty_def tx_ready_def)
  obtain mb h where d: "mctp_msg_dup (pk_data pkt) (unat (mctp_hdr_off pkt + 4)) ?len True ?w = Inr (Some mb, ?w\<lparr>heap := h\<rparr>)"
    "mb_data mb = take (unat ?len) (drop (unat (mctp_hdr_off pkt + 4)) (pk_data pkt))" "plenty (?w\<lparr>heap := h\<rparr>)" "heap_ok h"
    "mb_blk mb \<notin> h_live (heap ?w)" "h_live h = insert (mb_blk mb) (h_live (heap ?w))"
    by (rule dup_plenty [OF plt rng])
  let ?w1 = "?w\<lparr>heap := h\<rparr>"
  have br1: "bridge_ok tx P mtu bs ?w1" "bus_idle j ?w1"
    using br idle d(4,6) by (auto simp: bridge_ok_def tx_ready_def bus_idle_def bus_at_def)
  have tag: "?tag AND 7 = ?tag" by (simp add: fst_tag_def and.assoc)
  obtain w2 evs where x: "mctp_rx i (hdr_src hdr) (hdr_dest hdr) (fst_to (flags_seq_tag hdr)) ?tag (Some ?m) ?len ?w1 = Inr w2"
    "trace w2 = trace ?w1 @ evs"
    "sent_frames (bs ! j) evs = msg_frames (bindings ?w1 (bs ! j)) ((bus_at ?w1 j)\<lparr>tx_src := hdr_src hdr, tx_dest := hdr_dest hdr,
        tx_to := fst_to (flags_seq_tag hdr), tx_tag := ?tag\<rparr>) True (tx_seq (bus_at ?w1 j)) ?m"
    "tx_events (bs ! j) evs" "h_live (heap w2) = h_live (heap ?w1)" "heap_ok (heap w2)" "ops w2 = ops ?w1"
    "others_kept j (bs ! j) ?w1 w2" "tx_ready tx P mtu j (bs ! j) w2" "bus_idle j w2"
    by (rule bridge_routes [OF br1(1) ij br1(2) d(3) tag ul, of "hdr_src hdr" "hdr_dest hdr" "fst_to (flags_seq_tag hdr)"]) (rule that)
  obtain h2 where f: "w_msg_free (Some mb) True w2 = Inr (w2\<lparr>heap := h2\<rparr>)" "h_live h2 = h_live (heap w2) - {mb_blk mb}" "heap_ok h2"
    using w_msg_free_live [of w2 mb] x(5-7) g d(6) by auto
  let ?w' = "w2\<lparr>heap := h2\<rparr>"
  have "mctp_bus_rx (bs ! i) pkt w = Inr ?w'"
    using s sz hdr src fl d(1,2) bd x(1) f(1) len by (simp add: mctp_bus_rx_def Let_def rx_switch_def rx_single_def)
  moreover have i': "bus_idle j ?w'" using x(10) by (simp add: bus_idle_def bus_at_def)
  moreover have l': "h_live (heap ?w') = h_live (heap w)" using f(2) x(5) d(5,6) by auto
  moreover have "bridge_ok tx P mtu bs ?w'"
    by (rule bridge_ok_kept [OF br ij _ _ l'])
      (use x(8,9) i' f(3) in \<open>simp_all add: others_kept_def tx_ready_def bus_idle_def bus_at_def\<close>)
  moreover have "bus_at ?w1 j = bus_at w j" by (simp add: bus_at_def)
  ultimately show ?thesis using x(2-4) by (intro that [of ?w' evs]) auto
qed

end

section \<open>What transmission leaves alone\<close>

definition same_links :: "'e world \<Rightarrow> 'e world \<Rightarrow> bool" where
  "same_links w w' \<longleftrightarrow> msg_ctxs w' = msg_ctxs w \<and> map bus_mctp (busses w') = map bus_mctp (busses w)"

lemma same_links_refl [simp]: "same_links w w" by (simp add: same_links_def)

lemma same_links_trans: "same_links u v \<Longrightarrow> same_links v w \<Longrightarrow> same_links u w" by (simp add: same_links_def)

lemma map_update_same: "f x = f (xs ! i) \<Longrightarrow> map f (xs[i := x]) = map f xs"
  by (simp add: map_update list_update_same_conv) (metis length_map list_update_beyond list_update_id map_update not_le nth_map)

lemma same_links_set_bus: "bus_mctp x = bus_mctp (bus_at w i) \<Longrightarrow> same_links w (set_bus i x w)"
  by (simp add: same_links_def bus_at_def map_update_same)

lemma same_links_heap: "w_msg_free p m w = Inr w' \<Longrightarrow> same_links w w' \<and> busses w' = busses w"
  "w_msg_alloc n m w = Inr (q, w') \<Longrightarrow> same_links w w' \<and> busses w' = busses w"
  by (auto simp: same_links_def w_msg_free_def w_msg_alloc_def)

lemma same_links_next: "mctp_next_tx_pkt bi w = Inr (p, w') \<Longrightarrow> same_links w w'"
  by (auto simp: mctp_next_tx_pkt_def Let_def same_links_def bus_at_def map_update_same split: option.splits)

lemma same_links_packet: "mctp_packet_tx bi p w = Inr (rc, w') \<Longrightarrow> same_links w w'"
  by (auto simp: mctp_packet_tx_def Let_def same_links_def split: if_splits)

lemma same_links_complete:
  assumes "mctp_tx_complete bi w = Inr w'"
  shows "same_links w w'"
  using assms same_links_heap(1)
  by (fastforce simp: mctp_tx_complete_def Let_def same_links_def bus_at_def map_update_same split: option.splits if_splits)

lemma same_links_queue: "send_tx_queue n bi w = Inr w' \<Longrightarrow> same_links w w'"
proof (induction n arbitrary: w)
  case 0
  then show ?case by (subst (asm) send_tx_queue.simps) (simp split: if_splits)
next
  case (Suc n)
  show ?case
  proof (cases "tx_msg (bus_at w bi) = None \<or> bus_state (bus_at w bi) \<noteq> mctp_bus_state_tx_enabled")
    case True
    then show ?thesis using Suc.prems by (subst (asm) send_tx_queue.simps) simp
  next
    case False
    obtain p w1 rc w2 where n: "mctp_next_tx_pkt bi w = Inr (p, w1)" "mctp_packet_tx bi (the p) w1 = Inr (rc, w2)"
      "(if rc = 0 then rbind (mctp_tx_complete bi w2) (send_tx_queue n bi)
        else if rc = - EBUSY then Inr w2 else mctp_tx_complete bi w2) = Inr w'"
      using Suc.prems False by (subst (asm) send_tx_queue.simps) (auto simp: deref_def split: option.splits)
    have "same_links w w2" using same_links_next [OF n(1)] same_links_packet [OF n(2)] same_links_trans by blast
    moreover have "same_links w2 w'" using n(3) Suc.IH same_links_complete same_links_trans
      by (auto split: if_splits) blast
    ultimately show ?thesis by (rule same_links_trans)
  qed
qed

lemma same_links_on_bus:
  assumes "mctp_message_tx_on_bus bi src dest to tag mb n w = Inr (rc, w')"
  shows "same_links w w'"
proof -
  let ?x = "(bus_at w bi)\<lparr>tx_msg := Some mb, tx_msglen := n, tx_msgpos := 0, tx_src := src, tx_dest := dest, tx_to := to, tx_tag := tag\<rparr>"
  have "same_links w (set_bus bi ?x w)" by (rule same_links_set_bus) simp
  then show ?thesis using assms same_links_heap(1) same_links_queue same_links_trans
    by (auto simp: mctp_message_tx_on_bus_def Let_def mctp_send_tx_queue_def split: if_splits) blast+
qed

lemma same_links_bridge: "bridge_loop is bi src dest to tag buf n w = Inr w' \<Longrightarrow> same_links w w'"
proof (induction "is" arbitrary: w)
  case (Cons i "is")
  show ?case
  proof (cases "i = bi")
    case False
    obtain c w1 where d: "mctp_msg_dup buf 0 n True w = Inr (c, w1)" using Cons.prems False by auto
    then have "same_links w w1"
      using same_links_heap(2) by (fastforce simp: mctp_msg_dup_def split: option.splits)
    moreover have "same_links w1 w'"
    proof (cases c)
      case (Some mb)
      then obtain rc w2 where "mctp_message_tx_on_bus i src dest to tag mb n w1 = Inr (rc, w2)"
        "bridge_loop is bi src dest to tag buf n w2 = Inr w'" using Cons.prems d False by auto
      then show ?thesis using same_links_on_bus Cons.IH same_links_trans by blast
    qed (use Cons.prems d False in simp)
    ultimately show ?thesis by (rule same_links_trans)
  qed (use Cons in auto)
qed simp

section \<open>Fragments on a bridge\<close>

text \<open>\<open>mctp_bridge_busses\<close> leaves the back pointer of its busses NULL, and a reassembly context is
  dropped through that pointer.\<close>

lemma drop_null: "\<not> bus_mctp (bus_at w bi) \<Longrightarrow> mctp_msg_ctx_drop bi i w = Inl Null_deref"
  by (simp add: mctp_msg_ctx_drop_def w_msg_free_def check_def)

lemma rx_end_null:
  assumes bi: "bi < length (busses w)" "\<not> bus_mctp (bus_at w bi)" and br: "route_policy w = ROUTE_BRIDGE"
    and i: "mctp_msg_ctx_lookup w (hdr_src hdr) (hdr_dest hdr) (fst_tag (flags_seq_tag hdr)) = Some i"
  shows "rx_end bi hdr pkt w \<noteq> Inr w'"
proof
  assume run: "rx_end bi hdr pkt w = Inr w'"
  note d = drop_null [OF bi(2)]
  from run i d obtain rc w1 w2 where a: "mctp_msg_ctx_add_pkt i pkt w = Inr (rc, w1)"
    "(if rc = 0 then let c = msg_ctxs w1 ! i in
        mctp_rx bi (ctx_src c) (ctx_dest c) (fst_to (flags_seq_tag hdr)) (fst_tag (flags_seq_tag hdr))
          (map_option mb_data (ctx_buf c)) (ctx_buf_size c) w1 else Inr w1) = Inr w2"
    "mctp_msg_ctx_drop bi i w2 = Inr w'"
    by (auto simp: rx_end_def Let_def split: if_splits)
  have w1: "busses w1 = busses w" "route_policy w1 = route_policy w"
    using a(1) by (auto simp: mctp_msg_ctx_add_pkt_def Let_def split: if_splits)
  have "same_links w1 w2"
    using a(2) br w1 same_links_bridge by (auto simp: mctp_rx_def Let_def split: if_splits option.splits)
  then have "map bus_mctp (busses w2) = map bus_mctp (busses w)" using w1 by (simp add: same_links_def)
  then have "\<not> bus_mctp (bus_at w2 bi)" using bi by (metis bus_at_def length_map nth_map)
  then show False using a(3) drop_null by fastforce
qed


lemma rx_start_fresh:
  assumes pl: "plenty w" and pkt: "rx_pkt pkt"
    and cs: "msg_ctxs w = replicate 16 zero_ctx"
    and fits: "length (pktbuf_bytes pkt) - 4 \<le> unat (max_message_size w)"
  obtains w' where "rx_start bi hdr pkt w = Inr w'" and "busses w' = busses w" and "bindings w' = bindings w"
    and "route_policy w' = route_policy w" and "capture w' = capture w" and "n_busses w' = n_busses w"
    and "mctp_msg_ctx_lookup w' (hdr_src hdr) (hdr_dest hdr) (fst_tag (flags_seq_tag hdr)) = Some 0"
proof -
  let ?tag = "fst_tag (flags_seq_tag hdr)"
  obtain mb w1 where a: "w_msg_alloc (max_message_size w) True w = Inr (Some mb, w1)"
    using plenty_alloc [OF pl] by blast
  have "\<exists>h. w1 = w\<lparr>heap := h\<rparr> \<and> mb_size mb = max_message_size w \<and> mb_data mb = []"
    using a by (auto simp: w_msg_alloc_def)
  then obtain h where w1: "w1 = w\<lparr>heap := h\<rparr>" and mb: "mb_size mb = max_message_size w" "mb_data mb = []" by (elim exE conjE)
  note al = a [unfolded w1]
  let ?c = "zero_ctx\<lparr>ctx_src := hdr_src hdr, ctx_dest := hdr_dest hdr, ctx_tag := ?tag, ctx_buf_size := 0,
      ctx_buf_alloc_size := max_message_size w, ctx_buf := Some mb, ctx_fragment_size := mctp_pktbuf_size pkt\<rparr>"
  let ?w2 = "set_ctx 0 ?c (w\<lparr>heap := h\<rparr>)"
  have no: "mctp_msg_ctx_lookup w (hdr_src hdr) (hdr_dest hdr) ?tag = None"
    by (simp add: mctp_msg_ctx_lookup_def cs zero_ctx_def numeral_eq_Suc)
  have cr: "mctp_msg_ctx_create (hdr_src hdr) (hdr_dest hdr) ?tag w =
      Inr (Some 0, set_ctx 0 (?c\<lparr>ctx_fragment_size := 0\<rparr>) (w\<lparr>heap := h\<rparr>))"
    using al by (simp add: mctp_msg_ctx_create_def cs zero_ctx_def Let_def numeral_eq_Suc)
  have len: "0 < length (msg_ctxs w)" using cs by simp
  have c: "msg_ctxs ?w2 ! 0 = ?c" "ctx_wf ?c" "ctx_buf ?c = Some mb" using len mb by (simp_all add: ctx_wf_def)
  obtain c' where ad: "mctp_msg_ctx_add_pkt 0 pkt ?w2 = Inr (0, set_ctx 0 c' ?w2)" "ctx_key c' = ctx_key ?c"
    "\<exists>mb'. ctx_buf c' = Some mb' \<and> mb_blk mb' = mb_blk mb"
    by (rule mctp_msg_ctx_add_pkt_fits [OF c pkt]) (use fits in simp_all)
  let ?w3 = "set_ctx 0 (c'\<lparr>ctx_last_seq := fst_seq (flags_seq_tag hdr)\<rparr>) (set_ctx 0 c' ?w2)"
  have "rx_start bi hdr pkt w = Inr ?w3"
    using no cr ad(1) len by (simp add: rx_start_def Let_def set_ctx_def)
  moreover have "mctp_msg_ctx_lookup ?w3 (hdr_src hdr) (hdr_dest hdr) ?tag = Some 0"
    using ad(2,3) by (auto simp: mctp_msg_ctx_lookup_def cs ctx_key_def numeral_eq_Suc)
  ultimately show ?thesis by (intro that [of ?w3]) simp_all
qed

lemma bridge_two_fragments:
  assumes b: "b_bus (bindings w b) = Some bi" "b_mctp (bindings w b)" and bi: "bi < length (busses w)" "\<not> bus_mctp (bus_at w bi)"
    and br: "route_policy w = ROUTE_BRIDGE" and cs: "msg_ctxs w = replicate 16 zero_ctx"
    and pl: "plenty w"
    and p1: "rx_pkt p1" "read_hdr p1 = Inr h1" "fst_flags (flags_seq_tag h1) = 0x80" "hdr_src h1 \<noteq> MCTP_EID_BROADCAST"
    and fits: "length (pktbuf_bytes p1) - 4 \<le> unat (max_message_size w)"
    and p2: "rx_pkt p2" "read_hdr p2 = Inr h2" "fst_flags (flags_seq_tag h2) = 0x40"
    and same: "hdr_src h2 = hdr_src h1" "hdr_dest h2 = hdr_dest h1" "fst_tag (flags_seq_tag h2) = fst_tag (flags_seq_tag h1)"
  shows "\<exists>w'. mctp_bus_rx b p1 w = Inr w' \<and> (\<exists>e. mctp_bus_rx b p2 w' = Inl e)"
proof -
  let ?w = "w\<lparr>trace := trace w @ capture_events p1 False w\<rparr>"
  have sz: "\<not> mctp_pktbuf_size p < 4" if "rx_pkt p" for p
    using that unat_pktbuf_size [of p] by (simp add: rx_pkt_def word_less_nat_alt)
  have pl': "plenty ?w" using pl by (simp add: plenty_def)
  obtain w1 where s: "rx_start bi h1 p1 ?w = Inr w1" "busses w1 = busses w" "bindings w1 = bindings w"
    "route_policy w1 = route_policy w" "mctp_msg_ctx_lookup w1 (hdr_src h1) (hdr_dest h1) (fst_tag (flags_seq_tag h1)) = Some 0"
    by (rule rx_start_fresh [of ?w p1 bi h1]) (use pl' p1 cs fits in simp_all)
  have r1: "mctp_bus_rx b p1 w = Inr w1"
    using b br p1 sz [OF p1(1)] s(1) by (simp add: mctp_bus_rx_def Let_def rx_switch_def)
  let ?v = "w1\<lparr>trace := trace w1 @ capture_events p2 False w1\<rparr>"
  have "rx_end bi h2 p2 ?v \<noteq> Inr w'" for w'
    by (rule rx_end_null) (use bi s br same in \<open>simp_all add: bus_at_def mctp_msg_ctx_lookup_def\<close>)
  then obtain e where "rx_end bi h2 p2 ?v = Inl e" by (cases "rx_end bi h2 p2 ?v") auto
  then have "mctp_bus_rx b p2 w1 = Inl e"
    using b br p2 p1(4) same sz [OF p2(1)] s by (simp add: mctp_bus_rx_def Let_def rx_switch_def)
  then show ?thesis using r1 by blast
qed

end
