(* ===== verification/Mctp_Integrity.thy ===== *)
theory Mctp_Integrity
  imports Mctp_Roundtrip "HOL-Library.Sublist"
begin

text \<open>
  Reception under arbitrary traffic. The first part shows which operations can call the message handler
  at all: \<open>inbox\<close> is the list of its calls, and everything but \<open>mctp_rx\<close> leaves it alone. The second part
  traces every call back to the packets: whatever was received, a delivered message is the concatenation of the payloads of
  packets with one source, destination and tag, in the order they came, from a start to an end with
  consecutive sequence numbers (\<open>rx_all_genuine\<close>). The third part is the converse: messages under way are all
  delivered however their packets are interleaved (\<open>rx_interleaved\<close>).
\<close>

section \<open>Calls of the message handler\<close>

lemmas ends_reads = ends_all [where m = "mem_read _ _ _"] ends_all [where m = "mem_write _ _ _"] ends_all [where m = "rd8 _ _"]
  ends_all [where m = "read_ctrl_hdr _"] ends_all [where m = "buf_write _ _ _"]

text \<open>The events that are calls of the message handler.\<close>

definition is_delivery :: "event \<Rightarrow> bool" where
  "is_delivery ev = (case ev of Ev_message_rx f u src to tag m n \<Rightarrow> True | _ \<Rightarrow> False)"

definition inbox :: "'e world \<Rightarrow> event list" where
  "inbox w = filter is_delivery (trace w)"

lemma is_delivery_simps [simp]:
  "is_delivery (Ev_message_rx f u src to tag m n)" "\<not> is_delivery (Ev_control_rx f src tag to u m n)"
  "\<not> is_delivery (Ev_capture f pkt out u)" "\<not> is_delivery (Ev_tx b pkt rc)"
  by (simp_all add: is_delivery_def)

lemma inbox_simps [simp]:
  "inbox (set_bus i x w) = inbox w" "inbox (set_binding b y w) = inbox w" "inbox (w\<lparr>heap := h\<rparr>) = inbox w"
  "inbox (w\<lparr>req_tags := ts\<rparr>) = inbox w" "inbox (w\<lparr>msg_ctxs := cs\<rparr>) = inbox w"
  "inbox (w\<lparr>trace := trace w @ capture_events pkt out w\<rparr>) = inbox w"
  "inbox (emit ev w) = inbox w @ (if is_delivery ev then [ev] else [])"
  by (simp_all add: inbox_def capture_events_def split: option.split)

abbreviation silent1 :: "'e world \<Rightarrow> 'e world res \<Rightarrow> bool" where
  "silent1 w m \<equiv> ends (\<lambda>w'. inbox w' = inbox w) m"

abbreviation silent :: "'e world \<Rightarrow> ('a \<times> 'e world) res \<Rightarrow> bool" where
  "silent w m \<equiv> ends (\<lambda>(x, w'). inbox w' = inbox w) m"

lemma silent_msg_alloc: "silent w (w_msg_alloc n m w)"
  by (simp add: w_msg_alloc_def split_beta ends_all)

lemma silent_msg_free: "silent1 w (w_msg_free p m w)"
  by (simp add: w_msg_free_def ends_all)

lemma silent_next_tx_pkt: "silent w (mctp_next_tx_pkt bi w)"
  by (auto simp: mctp_next_tx_pkt_def Let_def split: option.split intro!: ends_all)

lemma silent_tx_complete: "silent1 w (mctp_tx_complete bi w)"
  by (auto simp: mctp_tx_complete_def Let_def split: option.split intro!: ends_mono [OF silent_msg_free])

lemma silent_packet_tx: "silent w (mctp_packet_tx bi pkt w)"
  by (auto simp: mctp_packet_tx_def Let_def split_beta intro!: ends_all)

lemma silent_send_tx_queue: "silent1 w (send_tx_queue fuel bi w)"
proof (induction fuel arbitrary: w)
  case 0
  then show ?case by (simp add: send_tx_queue.simps)
next
  case (Suc fuel)
  note step = ends_mono [OF silent_next_tx_pkt] ends_mono [OF silent_packet_tx] ends_mono [OF silent_tx_complete] ends_mono [OF Suc.IH]
  show ?case by (subst send_tx_queue.simps) (auto intro!: step)
qed

lemma silent_tx_on_bus: "silent w (mctp_message_tx_on_bus bi src dest to tag mb n w)"
  by (auto simp: mctp_message_tx_on_bus_def mctp_send_tx_queue_def Let_def
      intro!: ends_mono [OF silent_msg_free] ends_mono [OF silent_send_tx_queue])

lemma silent_tx_alloced: "silent w (mctp_message_tx_alloced eid to tag mb n w)"
  by (auto simp: mctp_message_tx_alloced_def split: option.split
      intro!: ends_mono [OF silent_msg_free] ends_mono [OF silent_tx_on_bus])

lemma silent_send_resp: "silent w (send_resp m src tag resp w)"
  by (auto simp: send_resp_def split: option.split
      intro!: ends_mono [OF silent_msg_alloc] ends_mono [OF silent_tx_alloced] ends_reads)

lemma silent_reply_error: "silent1 w (reply_error m src tag h cc w)"
  by (auto simp: reply_error_def intro!: ends_mono [OF silent_send_resp])

lemma silent_bus_set_eid: "silent w (mctp_bus_set_eid b eid w)"
  by (simp add: mctp_bus_set_eid_def)

lemma silent_commands:
  "silent w (mctp_ctrl_set_endpoint_id bi src tag data len w)" "silent w (mctp_ctrl_get_endpoint_id bi src tag data len w)"
  "silent w (mctp_ctrl_get_version bi src tag data len w)" "silent w (mctp_ctrl_get_types bi src tag data len w)"
  unfolding mctp_ctrl_set_endpoint_id_def mctp_ctrl_get_endpoint_id_def mctp_ctrl_get_version_def mctp_ctrl_get_types_def
  by (auto simp: Let_def intro!: ends_reads ends_mono [OF silent_bus_set_eid] ends_mono [OF silent_send_resp])

lemma silent_control_handler: "silent w (mctp_control_handler bi src to tag data len w)"
  by (auto simp: mctp_control_handler_def
      intro!: ends_reads ends_mono [OF silent_commands(1)] ends_mono [OF silent_commands(2)]
        ends_mono [OF silent_commands(3)] ends_mono [OF silent_commands(4)] ends_mono [OF silent_reply_error])

lemma silent_ctrl_handle_msg: "silent w (mctp_ctrl_handle_msg bi src tag to data len w)"
  by (auto simp: mctp_ctrl_handle_msg_def split: option.split intro!: ends_reads silent_control_handler)

lemma silent_dealloc_tag: "silent1 w (mctp_dealloc_tag bi l r t w)"
  by (auto simp: mctp_dealloc_tag_def Let_def split: option.split)

lemma inbox_mctp_rx:
  assumes "route_policy w = ROUTE_ENDPOINT"
  shows "ends (\<lambda>w'. inbox w' = inbox w \<or>
     (\<exists>f u. inbox w' = inbox w @ [Ev_message_rx f u src to tag (take (unat len) buf) len]))
     (mctp_rx bi src dest to tag (Some buf) len w)"
  using assms
  by (auto simp: mctp_rx_def deliver_def split: option.split
      intro!: ends_reads ends_mono [OF silent_dealloc_tag] ends_mono [OF silent_ctrl_handle_msg])

section \<open>Fragments of one message\<close>

definition frag_of :: "mctp_pktbuf \<Rightarrow> mctp_hdr" where
  "frag_of p = projr (read_hdr p)"

definition frag_key :: "mctp_hdr \<Rightarrow> u8 \<times> u8 \<times> u8" where
  "frag_key h = (hdr_src h, hdr_dest h, fst_tag (flags_seq_tag h))"

definition pkt_key :: "mctp_pktbuf \<Rightarrow> u8 \<times> u8 \<times> u8" where
  "pkt_key p = frag_key (frag_of p)"

definition frag_som :: "mctp_hdr \<Rightarrow> bool" where
  "frag_som h \<longleftrightarrow> fst_flags (flags_seq_tag h) AND MCTP_HDR_FLAG_SOM \<noteq> 0"

definition frag_eom :: "mctp_hdr \<Rightarrow> bool" where
  "frag_eom h \<longleftrightarrow> fst_flags (flags_seq_tag h) AND MCTP_HDR_FLAG_EOM \<noteq> 0"

text \<open>The packets of one message so far, or (\<open>fin\<close>) up to its end: one key, a start flag on the first only, an end flag on
  the last only when it is complete, and sequence numbers that count modulo 4.\<close>

definition frag_run :: "u8 \<times> u8 \<times> u8 \<Rightarrow> bool \<Rightarrow> mctp_hdr list \<Rightarrow> bool" where
  "frag_run k fin hs \<longleftrightarrow> hs \<noteq> [] \<and> (\<forall>i<length hs. frag_key (hs ! i) = k \<and> (frag_som (hs ! i) \<longleftrightarrow> i = 0) \<and>
     (frag_eom (hs ! i) \<longleftrightarrow> fin \<and> Suc i = length hs) \<and>
     (0 < i \<longrightarrow> fst_seq (flags_seq_tag (hs ! i)) = (fst_seq (flags_seq_tag (hs ! (i - 1))) + 1) mod 4))"

lemma frag_run_single:
  "frag_run k fin [h] \<longleftrightarrow> frag_key h = k \<and> frag_som h \<and> (frag_eom h \<longleftrightarrow> fin)"
  by (auto simp: frag_run_def)

lemma frag_run_snoc:
  assumes r: "frag_run k False hs" and h: "frag_key h = k" "\<not> frag_som h" "frag_eom h = fin"
    and sq: "fst_seq (flags_seq_tag h) = (fst_seq (flags_seq_tag (last hs)) + 1) mod 4"
  shows "frag_run k fin (hs @ [h])"
proof -
  have ne: "hs \<noteq> []" using r by (simp add: frag_run_def)
  show ?thesis
    unfolding frag_run_def
  proof (rule conjI, simp, rule allI, rule impI)
    fix i assume "i < length (hs @ [h])"
    then consider "i < length hs" | "i = length hs" by fastforce
    then show "frag_key ((hs @ [h]) ! i) = k \<and> frag_som ((hs @ [h]) ! i) = (i = 0) \<and>
       frag_eom ((hs @ [h]) ! i) = (fin \<and> Suc i = length (hs @ [h])) \<and>
       (0 < i \<longrightarrow> fst_seq (flags_seq_tag ((hs @ [h]) ! i)) = (fst_seq (flags_seq_tag ((hs @ [h]) ! (i - 1))) + 1) mod 4)"
    proof cases
      case 1
      then have "(hs @ [h]) ! i = hs ! i" "(hs @ [h]) ! (i - 1) = hs ! (i - 1)" "Suc i \<noteq> length (hs @ [h])"
        by (simp_all add: nth_append)
      moreover have "frag_key (hs ! i) = k \<and> (frag_som (hs ! i) \<longleftrightarrow> i = 0) \<and> \<not> frag_eom (hs ! i) \<and>
        (0 < i \<longrightarrow> fst_seq (flags_seq_tag (hs ! i)) = (fst_seq (flags_seq_tag (hs ! (i - 1))) + 1) mod 4)"
        using r 1 unfolding frag_run_def by blast
      ultimately show ?thesis by metis
    next
      case 2
      then show ?thesis using ne h sq by (simp add: nth_append last_conv_nth)
    qed
  qed
qed

text \<open>The packets of the history that a (partial) message was put together from.\<close>

definition frags_in :: "mctp_pktbuf list \<Rightarrow> u8 \<times> u8 \<times> u8 \<Rightarrow> bool \<Rightarrow> bytes \<Rightarrow> u8 \<Rightarrow> bool" where
  "frags_in hist k fin m sq \<longleftrightarrow> (\<exists>qs. subseq qs hist \<and> frag_run k fin (map frag_of qs) \<and>
     m = concat (map (drop 4 \<circ> pktbuf_bytes) qs) \<and> sq = fst_seq (flags_seq_tag (frag_of (last qs))))"

text \<open>Every assembly stems from packets of the history, and a message put together from them.\<close>

definition stems :: "mctp_pktbuf list \<Rightarrow> (u8 \<times> u8 \<times> u8 \<Rightarrow> assembly option) \<Rightarrow> bool" where
  "stems hist T \<longleftrightarrow> (\<forall>k a. T k = Some a \<longrightarrow> frags_in hist k False (asm_msg a) (asm_seq a))"

definition genuine :: "mctp_pktbuf list \<Rightarrow> u8 \<times> u8 \<times> u8 \<Rightarrow> bytes \<Rightarrow> bool" where
  "genuine hist k m \<longleftrightarrow> (\<exists>sq. frags_in hist k True m sq)"

lemma frags_in_mono: "frags_in hist k fin m sq \<Longrightarrow> subseq hist hist' \<Longrightarrow> frags_in hist' k fin m sq"
  unfolding frags_in_def by (elim exE conjE, intro exI conjI) (erule (1) subseq_order.trans, assumption+)

lemma stems_mono: "stems hist T \<Longrightarrow> subseq hist hist' \<Longrightarrow> stems hist' T"
  unfolding stems_def by (meson frags_in_mono)

lemma genuine_mono: "genuine hist k m \<Longrightarrow> subseq hist hist' \<Longrightarrow> genuine hist' k m"
  unfolding genuine_def by (meson frags_in_mono)

text \<open>A first packet, and one more.\<close>

lemma frags_in_first:
  assumes "frag_of p = h" and "frag_som h"
  shows "frags_in (hist @ [p]) (frag_key h) (frag_eom h) (drop 4 (pktbuf_bytes p)) (fst_seq (flags_seq_tag h))"
proof -
  have "subseq [p] (hist @ [p])" by (rule list_emb_append2) simp
  then show ?thesis unfolding frags_in_def using assms by (intro exI [of _ "[p]"]) (simp add: frag_run_single)
qed

lemma frags_in_next:
  assumes "frags_in hist (frag_key h) False m sq" and p: "frag_of p = h" "\<not> frag_som h"
    and sq: "fst_seq (flags_seq_tag h) = (sq + 1) mod 4"
  shows "frags_in (hist @ [p]) (frag_key h) (frag_eom h) (m @ drop 4 (pktbuf_bytes p)) (fst_seq (flags_seq_tag h))"
proof -
  obtain qs where qs: "subseq qs hist" "frag_run (frag_key h) False (map frag_of qs)"
    "m = concat (map (drop 4 \<circ> pktbuf_bytes) qs)" "sq = fst_seq (flags_seq_tag (frag_of (last qs)))"
    using assms(1) unfolding frags_in_def by blast
  have "qs \<noteq> []" using qs(2) by (auto simp: frag_run_def)
  then have "frag_run (frag_key h) (frag_eom h) (map frag_of qs @ [h])"
    using qs(4) sq p by (intro frag_run_snoc [OF qs(2)]) (simp_all add: last_map)
  then show ?thesis unfolding frags_in_def using qs p(1) by (intro exI [of _ "qs @ [p]"]) simp
qed

lemma flags_cases:
  obtains (single) "fst_flags (flags_seq_tag h) = 0xc0" "frag_som h" "frag_eom h"
    | (start) "fst_flags (flags_seq_tag h) = 0x80" "frag_som h" "\<not> frag_eom h"
    | (last) "fst_flags (flags_seq_tag h) = 0x40" "\<not> frag_som h" "frag_eom h"
    | (middle) "fst_flags (flags_seq_tag h) = 0" "\<not> frag_som h" "\<not> frag_eom h"
  using fst_flags_cases [of "flags_seq_tag h"] by (auto simp: frag_som_def frag_eom_def)

lemma asm_add_Some: "asm_add a body = Some a' \<Longrightarrow> asm_msg a' = asm_msg a @ body \<and> asm_seq a' = asm_seq a"
  by (auto simp: asm_add_def split: if_splits)

lemma stems_upd:
  assumes "stems hist T" and "\<And>a. x = Some a \<Longrightarrow> frags_in hist k False (asm_msg a) (asm_seq a)"
  shows "stems hist (T(k := x))"
  using assms by (simp add: stems_def)

lemma stems_step:
  assumes st: "stems hist T" and h: "frag_of p = h"
    and R: "reassemble T lim av h sz (drop 4 (pktbuf_bytes p)) = (T', r)"
  shows "stems (hist @ [p]) T' \<and> (\<forall>m. r = Some m \<longrightarrow> genuine (hist @ [p]) (frag_key h) m)"
proof -
  let ?k = "frag_key h" and ?body = "drop 4 (pktbuf_bytes p)" and ?sq = "fst_seq (flags_seq_tag h)"
  have st': "stems (hist @ [p]) T" by (rule stems_mono [OF st subseq_rev_drop_many]) simp
  have k: "?k = (hdr_src h, hdr_dest h, fst_tag (flags_seq_tag h))" by (simp add: frag_key_def)
  note first = frags_in_first [OF h, of hist]
  have more: "frags_in (hist @ [p]) ?k (frag_eom h) (asm_msg a @ ?body) ?sq"
    if "T ?k = Some a" "\<not> frag_som h" "?sq = (asm_seq a + 1) mod 4" for a
    using that st unfolding stems_def by (intro frags_in_next [OF _ h]) blast+
  show ?thesis
  proof (cases h rule: flags_cases)
    case single
    then have "genuine (hist @ [p]) ?k ?body" using first by (auto simp: genuine_def)
    then show ?thesis using R st' single(1) by (auto simp: reassemble_single split: if_splits)
  next
    case start
    have "frags_in (hist @ [p]) ?k False (asm_msg a) (asm_seq a)" if "asm_start l sz ?sq ?body = Some a" for l a
      using that first start by (auto simp: asm_start_def dest!: asm_add_Some)
    then show ?thesis using R reassemble_start [OF start(1) k] by (auto intro!: stems_upd [OF st'] split: if_splits)
  next
    case last
    have "genuine (hist @ [p]) ?k m" if "T ?k = Some a" "asm_last a sz ?sq ?body = Some m" for a m
      using that more last by (auto simp: genuine_def asm_last_def dest!: asm_add_Some split: if_splits)
    then show ?thesis using R reassemble_end [OF last(1) k] by (auto intro!: stems_upd [OF st'] simp: bind_eq_Some_conv)
  next
    case middle
    have "frags_in (hist @ [p]) ?k False (asm_msg a') (asm_seq a')" if "T ?k = Some a" "asm_next a sz ?sq ?body = Some a'" for a a'
      using that more middle by (auto simp: asm_next_def dest!: asm_add_Some split: if_splits)
    then show ?thesis using R reassemble_middle [OF middle(1) k] by (auto intro!: stems_upd [OF st'] simp: bind_eq_Some_conv)
  qed
qed

context safe_tx
begin

text \<open>What the two kinds of packet that complete a message add to the inbox.\<close>

lemma mctp_rx_inbox:
  assumes "mctp_rx 0 src dest to tag (Some buf) len w1 = Inr w2" and "route_policy w1 = ROUTE_ENDPOINT"
    and "take (unat len) buf = m" and "unat len = length m"
  shows "inbox w2 = inbox w1 \<or> (\<exists>f u. inbox w2 = inbox w1 @ [Ev_message_rx f u src to tag m (of_nat (length m))])"
proof -
  have "len = of_nat (length m)" using assms(4) by (metis of_nat_unat ucast_id)
  then show ?thesis using inbox_mctp_rx [OF assms(2)] assms(1,3) by (fastforce simp: ends_def)
qed

lemma rx_single_inbox:
  assumes ok: "endpoint_ok tx P mtu b F w" and pkt: "rx_pkt pkt" and run: "rx_single 0 hdr pkt w = Inr w'"
    and fl: "fst_flags (flags_seq_tag hdr) = 0xc0"
  shows "inbox w' = inbox w \<or> rx_memory hdr pkt w \<and> (\<exists>f u. inbox w' = inbox w @ [Ev_message_rx f u (hdr_src hdr)
     (fst_to (flags_seq_tag hdr)) (fst_tag (flags_seq_tag hdr)) (drop 4 (pktbuf_bytes pkt)) (of_nat (length (drop 4 (pktbuf_bytes pkt))))])"
proof -
  let ?m = "drop 4 (pktbuf_bytes pkt)"
  have rp: "route_policy w = ROUTE_ENDPOINT" using ok by (simp add: endpoint_defs)
  show ?thesis
  proof (rule rx_single_ok [OF ok pkt, of hdr], elim disjE exE conjE)
    fix w1 h w2 h2 len F' mb w3
    assume a: "rx_single 0 hdr pkt w = Inr w1" "mctp_rx 0 (hdr_src hdr) (hdr_dest hdr) (fst_to (flags_seq_tag hdr))
        (fst_tag (flags_seq_tag hdr)) (Some ?m) len (w\<lparr>heap := h\<rparr>) = Inr w2" "w1 = w2\<lparr>heap := h2\<rparr>" "unat len = length ?m"
      "w_msg_alloc (mctp_pktbuf_size pkt - SIZEOF_MCTP_HDR) True w = Inr (Some mb, w3)"
    have "rx_memory hdr pkt w" using a(5) fl by (simp add: rx_memory_def)
    then show ?thesis using mctp_rx_inbox [OF a(2) _ _ a(4)] rp a(1,3,4) run by auto
  qed (use run in auto)
qed

lemma rx_end_inbox:
  assumes ok: "endpoint_ok tx P mtu b F w" and pkt: "rx_pkt pkt" and run: "rx_end 0 hdr pkt w = Inr w'"
    and r: "r = Option.bind (asm_table (msg_ctxs w) (hdr_src hdr, hdr_dest hdr, fst_tag (flags_seq_tag hdr)))
           (\<lambda>a. asm_last a (mctp_pktbuf_size pkt) (fst_seq (flags_seq_tag hdr)) (drop 4 (pktbuf_bytes pkt)))"
  shows "inbox w' = inbox w \<or> (\<exists>f u m. r = Some m \<and> inbox w' = inbox w @
     [Ev_message_rx f u (hdr_src hdr) (fst_to (flags_seq_tag hdr)) (fst_tag (flags_seq_tag hdr)) m (of_nat (length m))])"
proof -
  have rp: "route_policy w = ROUTE_ENDPOINT" using ok by (simp add: endpoint_defs)
  obtain w1 where a: "rx_end 0 hdr pkt w = Inr w1"
    and c: "case r of None \<Rightarrow> \<exists>cs h. w1 = w\<lparr>msg_ctxs := cs, heap := h\<rparr>
   | Some m \<Rightarrow> \<exists>cs1 buf len w2 cs h.
       mctp_rx 0 (hdr_src hdr) (hdr_dest hdr) (fst_to (flags_seq_tag hdr)) (fst_tag (flags_seq_tag hdr))
         (Some buf) len (w\<lparr>msg_ctxs := cs1\<rparr>) = Inr w2 \<and>
       take (unat len) buf = m \<and> unat len = length m \<and> w1 = w2\<lparr>msg_ctxs := cs, heap := h\<rparr> \<and>
       endpoint_ok tx P mtu b F (w\<lparr>msg_ctxs := cs1\<rparr>)"
    by (rule rx_end_ok [OF ok pkt refl, of hdr], rule that) (simp_all only: r)
  have w1: "w' = w1" using a run by simp
  show ?thesis
  proof (cases r)
    case None
    then show ?thesis using c w1 by auto
  next
    case (Some m)
    with c obtain cs1 buf len w2 cs h where
      e: "mctp_rx 0 (hdr_src hdr) (hdr_dest hdr) (fst_to (flags_seq_tag hdr)) (fst_tag (flags_seq_tag hdr))
           (Some buf) len (w\<lparr>msg_ctxs := cs1\<rparr>) = Inr w2"
      "take (unat len) buf = m" "unat len = length m" "w1 = w2\<lparr>msg_ctxs := cs, heap := h\<rparr>" by auto
    then show ?thesis using mctp_rx_inbox [OF e(1) _ e(2,3)] rp w1 Some by auto
  qed
qed

lemma rx_switch_inbox:
  assumes ok: "endpoint_ok tx P mtu b F w" and pkt: "rx_pkt pkt"
    and dest: "mctp_rx_dest_is_local (bus_at w 0) (hdr_dest hdr)"
    and R: "reassemble (asm_table (msg_ctxs w)) (max_message_size w) (rx_memory hdr pkt w) hdr
              (mctp_pktbuf_size pkt) (drop 4 (pktbuf_bytes pkt)) = (T, r)"
  shows "ends (\<lambda>w'. inbox w' = inbox w \<or> (\<exists>f u m. r = Some m \<and> inbox w' = inbox w @
     [Ev_message_rx f u (hdr_src hdr) (fst_to (flags_seq_tag hdr)) (fst_tag (flags_seq_tag hdr)) m (of_nat (length m))]))
     (rx_switch 0 hdr pkt w)"
proof -
  obtain w' where run: "rx_switch 0 hdr pkt w = Inr w'"
    and none: "r = None \<Longrightarrow> \<exists>cs h. w' = w\<lparr>msg_ctxs := cs, heap := h\<rparr>"
    by (rule rx_switch_ok [OF ok pkt dest R]) (rule that)
  have "inbox w' = inbox w \<or> (\<exists>f u m. r = Some m \<and> inbox w' = inbox w @
     [Ev_message_rx f u (hdr_src hdr) (fst_to (flags_seq_tag hdr)) (fst_tag (flags_seq_tag hdr)) m (of_nat (length m))])"
  proof (cases hdr rule: flags_cases)
    case single
    then have "rx_single 0 hdr pkt w = Inr w'" "r = (if rx_memory hdr pkt w then Some (drop 4 (pktbuf_bytes pkt)) else None)"
      using run R by (simp_all add: rx_switch_def reassemble_single)
    then show ?thesis using rx_single_inbox [OF ok pkt _ single(1)] by auto
  next
    case last
    then have "rx_end 0 hdr pkt w = Inr w'" using run by (simp add: rx_switch_def)
    then show ?thesis by (rule rx_end_inbox [OF ok pkt]) (use R reassemble_end [OF last(1) refl] in simp)
  next
    case start
    then show ?thesis using none R reassemble_start [OF start(1) refl] by auto
  next
    case middle
    then show ?thesis using none R reassemble_middle [OF middle(1) refl] by auto
  qed
  then show ?thesis using run by simp
qed

lemma bus_rx_genuine:
  assumes ok: "endpoint_ok tx P mtu b F w" and wf: "pktbuf_wf pkt" "mctp_hdr_off pkt = pk_start pkt"
    and st: "stems hist (asm_table (msg_ctxs w))"
  obtains w' where "mctp_bus_rx b pkt w = Inr w'" and "endpoint_ok tx P mtu b F w'"
    and "stems (hist @ [pkt]) (asm_table (msg_ctxs w'))"
    and "inbox w' = inbox w \<or> (\<exists>f u src dest to tag m. genuine (hist @ [pkt]) (src, dest, tag) m \<and>
      inbox w' = inbox w @ [Ev_message_rx f u src to tag m (of_nat (length m))])"
proof (cases "length (pktbuf_bytes pkt) < 4 \<or>
      (\<exists>hdr. read_hdr pkt = Inr hdr \<and> (hdr_src hdr = MCTP_EID_BROADCAST \<or>
         \<not> mctp_rx_dest_is_local (bus_at w 0) (hdr_dest hdr)))")
  case True
  from bus_rx_rejects [OF ok wf True] obtain t where t: "mctp_bus_rx b pkt w = Inr (w\<lparr>trace := t\<rparr>)"
    "t = trace w \<or> t = trace w @ capture_events pkt False w" .
  moreover have "stems (hist @ [pkt]) (asm_table (msg_ctxs w))"
    by (rule stems_mono [OF st subseq_rev_drop_many]) simp
  moreover have "inbox (w\<lparr>trace := t\<rparr>) = inbox w" using t(2) by auto
  ultimately show ?thesis using ok by (intro that [of "w\<lparr>trace := t\<rparr>"]) auto
next
  case False
  then have pkt: "rx_pkt pkt" using wf by (simp add: rx_pkt_def)
  obtain hdr where hdr: "read_hdr pkt = Inr hdr" using rx_pkt_hdr [OF pkt] by blast
  have src: "hdr_src hdr \<noteq> MCTP_EID_BROADCAST" and dest: "mctp_rx_dest_is_local (bus_at w 0) (hdr_dest hdr)"
    using False hdr by auto
  obtain T r where R: "reassemble (asm_table (msg_ctxs w)) (max_message_size w) (rx_memory hdr pkt w) hdr
              (mctp_pktbuf_size pkt) (drop 4 (pktbuf_bytes pkt)) = (T, r)" by fastforce
  obtain w' where run: "mctp_bus_rx b pkt w = Inr w'" and ok': "endpoint_ok tx P mtu b F w'" and T: "asm_table (msg_ctxs w') = T"
    by (rule bus_rx_accepts [OF ok pkt hdr src dest R]) (rule that)
  have f: "frag_of pkt = hdr" using hdr by (simp add: frag_of_def)
  note g = stems_step [OF st f R]
  let ?w = "w\<lparr>trace := trace w @ capture_events pkt False w\<rparr>"
  have at: "bus_at ?w 0 = bus_at w 0" by (simp add: bus_at_def)
  have "mctp_bus_rx b pkt w = rx_switch 0 hdr pkt ?w"
    using ok hdr src dest at pkt unat_pktbuf_size [of pkt]
    by (auto simp: mctp_bus_rx_def Let_def endpoint_defs binding_ok_def rx_pkt_def word_less_nat_alt)
  moreover have "ends (\<lambda>w'. inbox w' = inbox ?w \<or> (\<exists>f u m. r = Some m \<and> inbox w' = inbox ?w @
     [Ev_message_rx f u (hdr_src hdr) (fst_to (flags_seq_tag hdr)) (fst_tag (flags_seq_tag hdr)) m (of_nat (length m))]))
     (rx_switch 0 hdr pkt ?w)"
    by (rule rx_switch_inbox [of b F]) (use ok pkt dest at R in simp_all)
  ultimately have "inbox w' = inbox w \<or> (\<exists>f u m. r = Some m \<and> inbox w' = inbox w @
     [Ev_message_rx f u (hdr_src hdr) (fst_to (flags_seq_tag hdr)) (fst_tag (flags_seq_tag hdr)) m (of_nat (length m))])"
    using run by (simp add: ends_def)
  then show ?thesis using that [OF run ok'] g T unfolding frag_key_def by blast
qed

lemma rx_all_genuine:
  assumes "endpoint_ok tx P mtu b F w" and "\<forall>p\<in>set ps. pktbuf_wf p \<and> mctp_hdr_off p = pk_start p"
    and "stems hist (asm_table (msg_ctxs w))"
  shows "\<exists>w' ms. rx_all b ps w = Inr w' \<and> endpoint_ok tx P mtu b F w' \<and> inbox w' = inbox w @ ms \<and>
     (\<forall>ev\<in>set ms. \<exists>f u src dest to tag m. ev = Ev_message_rx f u src to tag m (of_nat (length m)) \<and>
        genuine (hist @ ps) (src, dest, tag) m)"
  using assms
proof (induction ps arbitrary: w hist)
  case Nil
  then show ?case by simp
next
  case (Cons p ps)
  obtain w1 where run: "mctp_bus_rx b p w = Inr w1" and ok: "endpoint_ok tx P mtu b F w1"
    and st: "stems (hist @ [p]) (asm_table (msg_ctxs w1))"
    and ib: "inbox w1 = inbox w \<or> (\<exists>f u src dest to tag m. genuine (hist @ [p]) (src, dest, tag) m \<and>
      inbox w1 = inbox w @ [Ev_message_rx f u src to tag m (of_nat (length m))])"
    by (rule bus_rx_genuine [OF Cons.prems(1) _ _ Cons.prems(3), of p]) (use Cons.prems(2) in simp, use Cons.prems(2) in simp, rule that)
  have ps: "\<forall>p\<in>set ps. pktbuf_wf p \<and> mctp_hdr_off p = pk_start p" using Cons.prems(2) by simp
  obtain w' ms where w': "rx_all b ps w1 = Inr w'" "endpoint_ok tx P mtu b F w'" "inbox w' = inbox w1 @ ms"
    and ms: "\<forall>ev\<in>set ms. \<exists>f u src dest to tag m. ev = Ev_message_rx f u src to tag m (of_nat (length m)) \<and>
        genuine (hist @ p # ps) (src, dest, tag) m"
    using Cons.IH [OF ok ps st] by auto
  have late: "genuine (hist @ p # ps) k m" if "genuine (hist @ [p]) k m" for k m
    by (rule genuine_mono [OF that]) (simp only: subseq_append', simp)
  from ib show ?case
  proof (elim disjE exE conjE)
    assume "inbox w1 = inbox w"
    then show ?thesis using run w' ms by (intro exI [of _ w'] exI [of _ ms]) simp
  next
    fix f u src dest to tag m
    assume g: "genuine (hist @ [p]) (src, dest, tag) m"
      and i: "inbox w1 = inbox w @ [Ev_message_rx f u src to tag m (of_nat (length m))]"
    show ?thesis using run w' ms late [OF g] i
      by (intro exI [of _ w'] exI [of _ "Ev_message_rx f u src to tag m (of_nat (length m)) # ms"]) auto
  qed
qed


text \<open>Several messages under way at once. \<open>bn\<close>, \<open>bu\<close> and \<open>m\<close> give the sender and the message of every key; the packets of
  each key, taken alone, are the rest of its message. However they are interleaved, every last packet
  delivers its message.\<close>

lemma rx_interleaved:
  assumes "endpoint_ok tx P mtu b F w" and "\<forall>p\<in>set ps. rx_pkt p"
    and "\<forall>p\<in>set ps. msg_key (bu (pkt_key p)) = pkt_key p \<and>
       awaits w (bn (pkt_key p)) (bu (pkt_key p)) (map pktbuf_bytes (filter (\<lambda>q. pkt_key q = pkt_key p) ps)) (m (pkt_key p))"
  shows "\<exists>w'. rx_all b ps w = Inr w' \<and> endpoint_ok tx P mtu b F w' \<and>
     (\<forall>k. asm_table (msg_ctxs w') k = (if k \<in> pkt_key ` set ps then None else asm_table (msg_ctxs w) k)) \<and>
     trace w' = trace w @ concat (map (\<lambda>p. capture_events p False w @
       (if frag_eom (frag_of p) then msg_event w (bu (pkt_key p)) (m (pkt_key p)) else [])) ps)"
  using assms
proof (induction ps arbitrary: w)
  case Nil
  then show ?case by simp
next
  case (Cons p ps)
  let ?k = "pkt_key p" and ?fs = "map pktbuf_bytes (filter (\<lambda>q. pkt_key q = pkt_key p) ps)"
  have key: "msg_key (bu ?k) = ?k" and aw: "awaits w (bn ?k) (bu ?k) (pktbuf_bytes p # ?fs) (m ?k)"
    using Cons.prems(3) by auto
  have pkt: "rx_pkt p" using Cons.prems(2) by simp
  obtain w1 hdr where run: "mctp_bus_rx b p w = Inr w1" and ok: "endpoint_ok tx P mtu b F w1"
    and ho: "hands_over w w1 (if ?fs = [] then msg_settled (bu ?k) w else req_tags w)
      (capture_events p False w @ (if ?fs = [] then msg_event w (bu ?k) (m ?k) else []))"
    and tab: "\<And>k. k \<noteq> msg_key (bu ?k) \<Longrightarrow> asm_table (msg_ctxs w1) k = asm_table (msg_ctxs w) k"
    and nxt: "if ?fs = [] then asm_table (msg_ctxs w1) (msg_key (bu ?k)) = None else awaits w1 (bn ?k) (bu ?k) ?fs (m ?k)"
    and hdr: "read_hdr p = Inr hdr" "fst_flags (flags_seq_tag hdr) = (if ?fs = [] then MCTP_HDR_FLAG_EOM else 0)"
    by (rule rx_awaited [OF Cons.prems(1) aw pkt]) (rule that)
  have eom: "frag_eom (frag_of p) \<longleftrightarrow> ?fs = []" using hdr by (simp add: frag_eom_def frag_of_def)
  have at: "bus_at w1 0 = bus_at w 0" by (rule hands_over_frame [OF ho])
  have rest: "\<forall>q\<in>set ps. msg_key (bu (pkt_key q)) = pkt_key q \<and>
       awaits w1 (bn (pkt_key q)) (bu (pkt_key q)) (map pktbuf_bytes (filter (\<lambda>x. pkt_key x = pkt_key q) ps)) (m (pkt_key q))"
  proof
    fix q assume q: "q \<in> set ps"
    have kq: "msg_key (bu (pkt_key q)) = pkt_key q"
      and aq: "awaits w (bn (pkt_key q)) (bu (pkt_key q)) (map pktbuf_bytes (filter (\<lambda>x. pkt_key x = pkt_key q) (p # ps))) (m (pkt_key q))"
      using Cons.prems(3) q by auto
    show "msg_key (bu (pkt_key q)) = pkt_key q \<and>
       awaits w1 (bn (pkt_key q)) (bu (pkt_key q)) (map pktbuf_bytes (filter (\<lambda>x. pkt_key x = pkt_key q) ps)) (m (pkt_key q))"
    proof (cases "pkt_key q = ?k")
      case True
      then have "?fs \<noteq> []" using q by (auto simp: filter_empty_conv)
      then show ?thesis using nxt kq True by simp
    next
      case False
      then have "asm_table (msg_ctxs w1) (msg_key (bu (pkt_key q))) = asm_table (msg_ctxs w) (msg_key (bu (pkt_key q)))"
        using tab key kq by simp
      note awaits_cong [OF this at]
      then show ?thesis using kq aq False by auto
    qed
  qed
  have pk: "\<forall>p\<in>set ps. rx_pkt p" using Cons.prems(2) by simp
  obtain w' where w': "rx_all b ps w1 = Inr w'" "endpoint_ok tx P mtu b F w'"
    and t': "\<forall>k. asm_table (msg_ctxs w') k = (if k \<in> pkt_key ` set ps then None else asm_table (msg_ctxs w1) k)"
    and tr: "trace w' = trace w1 @ concat (map (\<lambda>p. capture_events p False w1 @
       (if frag_eom (frag_of p) then msg_event w1 (bu (pkt_key p)) (m (pkt_key p)) else [])) ps)"
    using Cons.IH [OF ok pk rest] by blast
  have "?fs = [] \<Longrightarrow> asm_table (msg_ctxs w1) ?k = None" using nxt key by simp
  moreover have "?fs \<noteq> [] \<Longrightarrow> ?k \<in> pkt_key ` set ps" by (auto simp: filter_empty_conv intro: rev_image_eqI)
  ultimately have "\<forall>k. asm_table (msg_ctxs w') k = (if k \<in> pkt_key ` set (p # ps) then None else asm_table (msg_ctxs w) k)"
    using t' tab key by auto
  moreover have "trace w' = trace w @ concat (map (\<lambda>p. capture_events p False w @
       (if frag_eom (frag_of p) then msg_event w (bu (pkt_key p)) (m (pkt_key p)) else [])) (p # ps))"
    using tr hands_over_frame(1) [OF ho] eom
    by (simp add: capture_events_hands_over [OF ho] msg_event_hands_over [OF ho] cong: if_cong)
  ultimately show ?case using run w' by (intro exI [of _ w']) simp
qed

end

end
