(* ===== verification/Mctp_Mmbi.thy ===== *)
theory Mctp_Mmbi
  imports Mctp_Bridge Mctp_Integrity
begin

text \<open>
  The MMBI binding and its user-level API: \<^verbatim>\<open>src/mmbi.c\<close>. A \<open>struct mctp_binding_mmbi\<close> is the
  binding at the index of its heap block, with the fields behind \<open>binding\<close> in the private state
  \<open>mmbi\<close>; its device (whatever the handle names) is the component \<open>mm_dev\<close> of that state, of a
  type \<open>'d\<close>. The Windows calls \<open>CreateFileA\<close>, \<open>WriteFile\<close>, \<open>PeekNamedPipe\<close> and \<open>ReadFile\<close> are the
  fields of a parameter \<open>api\<close>; \<open>GetLastError\<close> after a failed read is part of its result. Locks,
  sleeps and log messages are left out: the model is one thread.
\<close>

section \<open>Data\<close>

definition INVALID_HANDLE_VALUE :: u64 where [simp]: "INVALID_HANDLE_VALUE = - 1"
definition ERROR_BROKEN_PIPE :: u32 where [simp]: "ERROR_BROKEN_PIPE = 109"

text \<open>The storage pointers are the memory regions they point to.\<close>

record 'd mmbi =
  rx_storage :: "bytes option"
  tx_storage :: "bytes option"
  memory_size :: u64
  device_handle :: u64
  mm_dev :: 'd

record 'd win_api =
  CreateFileA :: "string \<Rightarrow> 'd \<Rightarrow> u64 \<times> 'd"
  WriteFile :: "bytes \<Rightarrow> 'd \<Rightarrow> (bool \<times> u32) \<times> 'd"
  PeekNamedPipe :: "'d \<Rightarrow> bool \<times> u32"
  ReadFile :: "u32 \<Rightarrow> 'd \<Rightarrow> (bool \<times> bytes \<times> u32) \<times> 'd"

type_synonym 'd mmbi_world = "'d mmbi world"

definition SIZEOF_MMBI :: u64 where [simp]: "SIZEOF_MMBI = 168"
definition SIZEOF_MMBI_CONTEXT :: u64 where [simp]: "SIZEOF_MMBI_CONTEXT = 40"
definition RX_BUF_SIZE :: u32 where [simp]: "RX_BUF_SIZE = 65546"

definition BINDING_NAME :: string where "BINDING_NAME = ''mmbi''"

text \<open>Fresh memory for \<open>binding.tx_storage\<close>; its bytes are written before they are read.\<close>

definition fresh_pktbuf :: "nat \<Rightarrow> u64 \<Rightarrow> mctp_pktbuf" where
  "fresh_pktbuf blk sz =
     \<lparr>pk_start = 0, pk_end = 0, pk_size = 0, mctp_hdr_off = 0, pk_alloc = False,
      pk_data = replicate (unat sz) 0, pk_blk = Some blk\<rparr>"

section \<open>The binding\<close>

definition mctp_mmbi_init :: "'d mmbi_world \<Rightarrow> (nat option \<times> 'd mmbi_world) res" where
  "mctp_mmbi_init w =
     rbind (mctp_alloc (ops w) SIZEOF_MMBI (heap w)) (\<lambda>(p, h).
       case p of None \<Rightarrow> Inr (None, w\<lparr>heap := h\<rparr>)
       | Some blk \<Rightarrow>
           Inr (Some blk, set_binding blk
             \<lparr>b_name = BINDING_NAME, b_version = 1, b_bus = None, b_mctp = False,
              b_pkt_size = MCTP_PACKET_SIZE 65536, b_pkt_header = 0, b_pkt_trailer = 0,
              b_tx_storage = None, b_start = None, b_tx = None, b_control_rx = None,
              b_control_rx_data = 0,
              b_priv = \<lparr>rx_storage = None, tx_storage = None, memory_size = 0, device_handle = 0,
                        mm_dev = mm_dev (b_priv (bindings w blk))\<rparr>\<rparr> (w\<lparr>heap := h\<rparr>)))"

definition mctp_mmbi_destroy :: "nat option \<Rightarrow> 'd mmbi_world \<Rightarrow> 'd mmbi_world res" where
  "mctp_mmbi_destroy mmbi w =
     (case mmbi of None \<Rightarrow> Inr w
      | Some b \<Rightarrow> rbind (mctp_free (ops w) (Some b) (heap w)) (\<lambda>h. Inr (w\<lparr>heap := h\<rparr>)))"

definition has_device :: "'d mmbi \<Rightarrow> bool" where
  "has_device m \<longleftrightarrow> device_handle m \<noteq> 0 \<and> device_handle m \<noteq> INVALID_HANDLE_VALUE"

text \<open>The loop \<open>while (retries--)\<close> around \<open>WriteFile\<close>: \<open>prev\<close> are \<open>res\<close> and \<open>bytesWritten\<close>.\<close>

fun write_retry :: "'d win_api \<Rightarrow> bytes \<Rightarrow> u64 \<Rightarrow> nat \<Rightarrow> bool \<times> u32 \<Rightarrow> 'd \<Rightarrow> (bool \<times> u32) \<times> 'd" where
  "write_retry api buf len 0 prev d = (prev, d)"
| "write_retry api buf len (Suc retries) prev d =
     (let ((ok, n), d') = WriteFile api buf d
      in if ok \<and> ucast n = len then ((ok, n), d')
         else write_retry api buf len retries (ok, n) d')"

definition mctp_mmbi_tx :: "'d win_api \<Rightarrow> 'd mmbi \<Rightarrow> mctp_pktbuf \<Rightarrow> (int \<times> 'd mmbi) res" where
  "mctp_mmbi_tx api mmbi pkt =
     (let len = mctp_pktbuf_size pkt; off = unat (mctp_pktbuf_hdr pkt)
      in if has_device mmbi
         then rbind (mem_read (pk_data pkt) off (unat (ucast len :: u32))) (\<lambda>buf.
           let ((ok, bytesWritten), d) = write_retry api buf len 3 (False, 0) (mm_dev mmbi)
           in if \<not> ok \<or> ucast bytesWritten \<noteq> len then Inr (- EIO, mmbi\<lparr>mm_dev := d\<rparr>)
              else Inr (0, mmbi\<lparr>mm_dev := d\<rparr>))
         else case tx_storage mmbi of None \<Rightarrow> Inr (-1, mmbi)
           | Some mem \<Rightarrow>
               if len > memory_size mmbi then Inr (- EMSGSIZE, mmbi)
               else rbind (mem_read (pk_data pkt) off (unat len)) (\<lambda>buf.
                    rbind (mem_write mem 0 buf) (\<lambda>mem. Inr (0, mmbi\<lparr>tx_storage := Some mem\<rparr>))))"

text \<open>The common end of the two initialisations: set the operations, allocate the packet buffer.\<close>

definition mmbi_install :: "'d win_api \<Rightarrow> nat \<Rightarrow> 'd mmbi_world \<Rightarrow> (int \<times> 'd mmbi_world) res" where
  "mmbi_install api b w =
     (let w = set_binding b ((bindings w b)\<lparr>b_tx := Some (mctp_mmbi_tx api), b_start := Some Mctp_mmbi_start\<rparr>) w
      in rbind (mctp_alloc (ops w) (MCTP_PKTBUF_SIZE 65536) (heap w)) (\<lambda>(p, h).
           let w = set_binding b ((bindings w b)\<lparr>b_tx_storage :=
                     map_option (\<lambda>blk. fresh_pktbuf blk (MCTP_PACKET_SIZE 65536)) p\<rparr>) (w\<lparr>heap := h\<rparr>)
           in Inr (if p = None then - ENOMEM else 0, w)))"

definition mctp_mmbi_init_mem ::
    "'d win_api \<Rightarrow> nat option \<Rightarrow> bytes option \<Rightarrow> bytes option \<Rightarrow> u64 \<Rightarrow> 'd mmbi_world \<Rightarrow>
     (int \<times> 'd mmbi_world) res" where
  "mctp_mmbi_init_mem api mmbi tx_addr rx_addr sz w =
     (case mmbi of None \<Rightarrow> Inr (- EINVAL, w)
      | Some b \<Rightarrow>
          mmbi_install api b (set_binding b ((bindings w b)\<lparr>b_priv :=
            (b_priv (bindings w b))\<lparr>tx_storage := tx_addr, rx_storage := rx_addr, memory_size := sz\<rparr>\<rparr>) w))"

definition mctp_mmbi_init_device ::
    "'d win_api \<Rightarrow> nat \<Rightarrow> string \<Rightarrow> 'd mmbi_world \<Rightarrow> (int \<times> 'd mmbi_world) res" where
  "mctp_mmbi_init_device api b device_path w =
     (let m = b_priv (bindings w b); (hDevice, d) = CreateFileA api device_path (mm_dev m)
      in if hDevice = INVALID_HANDLE_VALUE
         then Inr (-1, set_binding b ((bindings w b)\<lparr>b_priv := m\<lparr>mm_dev := d\<rparr>\<rparr>) w)
         else mmbi_install api b
                (set_binding b ((bindings w b)\<lparr>b_priv := m\<lparr>device_handle := hDevice, mm_dev := d\<rparr>\<rparr>) w))"

definition mctp_mmbi_poll :: "'d win_api \<Rightarrow> nat \<Rightarrow> 'd mmbi_world \<Rightarrow> (int \<times> 'd mmbi_world) res" where
  "mctp_mmbi_poll api b w =
     (let m = b_priv (bindings w b)
      in if \<not> has_device m then Inr (0, w)
         else let (peeked, avail) = PeekNamedPipe api (mm_dev m);
                  bytesAvail = (if peeked then avail else 1)
           in if bytesAvail = 0 then Inr (0, w)
              else let max_to_read = ucast (b_pkt_size (bindings w b)) + 4;
                       max_to_read = (if max_to_read > RX_BUF_SIZE then RX_BUF_SIZE else max_to_read);
                       ((ok, rx_buf, err), d) = ReadFile api max_to_read (mm_dev m);
                       bytesRead = of_nat (length rx_buf) :: u32;
                       w = set_binding b ((bindings w b)\<lparr>b_priv := m\<lparr>mm_dev := d\<rparr>\<rparr>) w
                in if ok \<and> bytesRead > 0
                   then rbind (mctp_pktbuf_alloc (ops w) (bindings w b) (ucast bytesRead) (heap w)) (\<lambda>(p, h).
                     let w = w\<lparr>heap := h\<rparr> in
                     case p of None \<Rightarrow> Inr (- ENOMEM, w)
                     | Some pkt \<Rightarrow>
                         rbind (mem_write (pk_data pkt) (unat (mctp_pktbuf_hdr pkt)) rx_buf) (\<lambda>data.
                         rbind (mctp_bus_rx b (pkt\<lparr>pk_data := data\<rparr>) w) (\<lambda>w. Inr (0, w))))
                   else if \<not> ok \<and> err = ERROR_BROKEN_PIPE then Inr (- EPIPE, w)
                   else Inr (0, w))"

definition mctp_mmbi_rx :: "nat option \<Rightarrow> u64 \<Rightarrow> 'd mmbi_world \<Rightarrow> (int \<times> 'd mmbi_world) res" where
  "mctp_mmbi_rx mmbi len w =
     (case mmbi of None \<Rightarrow> Inr (- EINVAL, w)
      | Some b \<Rightarrow>
          case rx_storage (b_priv (bindings w b)) of None \<Rightarrow> Inr (- EINVAL, w)
          | Some rx \<Rightarrow>
              if len > memory_size (b_priv (bindings w b)) then Inr (- EMSGSIZE, w)
              else rbind (mctp_pktbuf_alloc (ops w) (bindings w b) len (heap w)) (\<lambda>(p, h).
                let w = w\<lparr>heap := h\<rparr> in
                case p of None \<Rightarrow> Inr (- ENOMEM, w)
                | Some pkt \<Rightarrow>
                    rbind (mctp_pktbuf_push pkt rx len) (\<lambda>(rc, pkt).
                      if rc \<noteq> 0
                      then rbind (mctp_pktbuf_free (ops w) pkt (heap w)) (\<lambda>h. Inr (-1, w\<lparr>heap := h\<rparr>))
                      else rbind (mctp_bus_rx b pkt w) (\<lambda>w. Inr (0, w)))))"

section \<open>The context API\<close>

text \<open>\<open>cx_blk\<close> is the block of the context itself; the pointers to the instance and to the binding
  are their block numbers.\<close>

record mmbi_context =
  cx_blk :: nat
  cx_mctp :: "nat option"
  cx_mmbi :: "nat option"
  cx_rx_cb :: fnptr
  cx_user_ctx :: ptr
  cx_debug :: bool

text \<open>The code pointer of \<open>mmbi_internal_rx\<close>, and what a call of it does: the user callback and
  its arguments, when there is one.\<close>

definition mmbi_internal_rx_fn :: fnptr where "mmbi_internal_rx_fn = Some 1"

definition mmbi_internal_rx ::
    "mmbi_context option \<Rightarrow> u8 \<Rightarrow> bool \<Rightarrow> u8 \<Rightarrow> bytes \<Rightarrow> u64 \<Rightarrow> (nat \<times> u8 \<times> bytes \<times> u64 \<times> ptr) option" where
  "mmbi_internal_rx ctx eid tag_owner msg_tag msg len =
     (case ctx of None \<Rightarrow> None
      | Some c \<Rightarrow> map_option (\<lambda>cb. (cb, eid, msg, len, cx_user_ctx c)) (cx_rx_cb c))"

definition free_block :: "nat \<Rightarrow> 'd mmbi_world \<Rightarrow> 'd mmbi_world res" where
  "free_block blk w = rbind (mctp_free (ops w) (Some blk) (heap w)) (\<lambda>h. Inr (w\<lparr>heap := h\<rparr>))"

text \<open>The loop \<open>while (retries--)\<close> around \<open>mctp_mmbi_init_device\<close>.\<close>

fun open_retry :: "'d win_api \<Rightarrow> nat \<Rightarrow> string \<Rightarrow> nat \<Rightarrow> 'd mmbi_world \<Rightarrow> 'd mmbi_world res" where
  "open_retry api b device_path 0 w = Inr w"
| "open_retry api b device_path (Suc retries) w =
     rbind (mctp_mmbi_init_device api b device_path w) (\<lambda>(rc, w).
       if rc = 0 then Inr w else open_retry api b device_path retries w)"

definition mctp_mmbi_context_init ::
    "'d win_api \<Rightarrow> string \<Rightarrow> u8 \<Rightarrow> 'd mmbi_world \<Rightarrow> (mmbi_context option \<times> 'd mmbi_world) res" where
  "mctp_mmbi_context_init api device_path local_eid w =
     rbind (mctp_alloc (ops w) SIZEOF_MMBI_CONTEXT (heap w)) (\<lambda>(p, h).
     let w = w\<lparr>heap := h\<rparr> in
     case p of None \<Rightarrow> Inr (None, w)
     | Some cblk \<Rightarrow>
         rbind (mctp_init w) (\<lambda>(mctp, w).
         if mctp = None then rbind (free_block cblk w) (\<lambda>w. Inr (None, w))
         else rbind (mctp_mmbi_init w) (\<lambda>(mmbi, w).
           case mmbi of
             None \<Rightarrow>
               rbind (mctp_destroy mctp w) (\<lambda>w. rbind (free_block cblk w) (\<lambda>w. Inr (None, w)))
           | Some b \<Rightarrow>
               rbind (open_retry api b device_path 5 w) (\<lambda>w.
               if device_handle (b_priv (bindings w b)) = 0
               then rbind (mctp_mmbi_destroy mmbi w) (\<lambda>w.
                    rbind (mctp_destroy mctp w) (\<lambda>w.
                    rbind (free_block cblk w) (\<lambda>w. Inr (None, w))))
               else rbind (mctp_register_bus b local_eid w) (\<lambda>(rc, w).
                    rbind (mctp_binding_set_tx_enabled b True w) (\<lambda>w.
                    let (rc, w) = mctp_set_rx_all mmbi_internal_rx_fn cblk w
                    in Inr (Some \<lparr>cx_blk = cblk, cx_mctp = mctp, cx_mmbi = mmbi, cx_rx_cb = None,
                                  cx_user_ctx = 0, cx_debug = False\<rparr>, w)))))))"

definition mctp_mmbi_context_destroy :: "mmbi_context option \<Rightarrow> 'd mmbi_world \<Rightarrow> 'd mmbi_world res" where
  "mctp_mmbi_context_destroy ctx w =
     (case ctx of None \<Rightarrow> Inr w
      | Some c \<Rightarrow>
          let w = (case (cx_mctp c, cx_mmbi c) of (Some _, Some b) \<Rightarrow> mctp_unregister_bus b w | _ \<Rightarrow> w)
          in rbind (mctp_mmbi_destroy (cx_mmbi c) w) (\<lambda>w.
             rbind (if cx_mctp c = None then Inr w else mctp_destroy (cx_mctp c) w) (\<lambda>w.
               free_block (cx_blk c) w)))"

definition mctp_mmbi_send ::
    "mmbi_context option \<Rightarrow> u8 \<Rightarrow> bytes \<Rightarrow> u64 \<Rightarrow> 'd mmbi_world \<Rightarrow> (int \<times> 'd mmbi_world) res" where
  "mctp_mmbi_send ctx dst_eid data len w =
     (case ctx of None \<Rightarrow> Inr (-1, w)
      | Some c \<Rightarrow>
          if cx_mctp c = None then Inr (-1, w)
          else mctp_message_tx dst_eid False 0 data len w)"

definition mctp_mmbi_set_rx_callback ::
    "fnptr \<Rightarrow> ptr \<Rightarrow> mmbi_context option \<Rightarrow> mmbi_context option" where
  "mctp_mmbi_set_rx_callback cb user_context ctx =
     map_option (\<lambda>c. c\<lparr>cx_rx_cb := cb, cx_user_ctx := user_context\<rparr>) ctx"

definition mctp_mmbi_set_debug :: "bool \<Rightarrow> mmbi_context option \<Rightarrow> mmbi_context option" where
  "mctp_mmbi_set_debug enable ctx = map_option (\<lambda>c. c\<lparr>cx_debug := enable\<rparr>) ctx"

definition mctp_mmbi_context_poll ::
    "'d win_api \<Rightarrow> mmbi_context option \<Rightarrow> 'd mmbi_world \<Rightarrow> (int \<times> 'd mmbi_world) res" where
  "mctp_mmbi_context_poll api ctx w =
     (case ctx of None \<Rightarrow> Inr (-1, w)
      | Some c \<Rightarrow> (case cx_mmbi c of None \<Rightarrow> Inr (-1, w) | Some b \<Rightarrow> mctp_mmbi_poll api b w))"

section \<open>The binding's contract with the core\<close>

text \<open>A binding in memory mode points at a region of the size it was told; that it keeps this and
  raises no error is the contract the core relies on (\<open>safe_tx\<close>), and with a region of at least a
  packet it also takes every packet (\<open>reliable_tx\<close>).\<close>

definition mmbi_ok :: "'d mmbi \<Rightarrow> bool" where
  "mmbi_ok m \<longleftrightarrow> (\<forall>mem. tx_storage m = Some mem \<longrightarrow> length mem = unat (memory_size m))"

definition mmbi_mem_ok :: "nat \<Rightarrow> 'd mmbi \<Rightarrow> bool" where
  "mmbi_mem_ok mtu m \<longleftrightarrow> \<not> has_device m \<and> tx_storage m \<noteq> None \<and> mmbi_ok m \<and> mtu \<le> unat (memory_size m)"

lemma pktbuf_window:
  assumes "rx_pkt pkt"
  shows "mem_read (pk_data pkt) (unat (mctp_pktbuf_hdr pkt)) (unat (mctp_pktbuf_size pkt)) = Inr (pktbuf_bytes pkt)"
proof -
  have wf: "pktbuf_wf pkt" and off: "mctp_hdr_off pkt = pk_start pkt" using assms by (simp_all add: rx_pkt_def)
  show ?thesis
    using pktbuf_wf_unat [OF wf] unat_pktbuf_size [OF wf]
    by (auto simp: mem_read_def mctp_pktbuf_hdr_def off pktbuf_bytes_def)
qed

lemma mctp_mmbi_tx_memory:
  assumes "\<not> has_device m" and "tx_storage m = Some mem" and "length mem = unat (memory_size m)" and "rx_pkt pkt"
  shows "mctp_mmbi_tx api m pkt =
    (if length (pktbuf_bytes pkt) > unat (memory_size m) then Inr (- EMSGSIZE, m)
     else Inr (0, m\<lparr>tx_storage := Some (pktbuf_bytes pkt @ drop (length (pktbuf_bytes pkt)) mem)\<rparr>))"
proof -
  have u: "unat (mctp_pktbuf_size pkt) = length (pktbuf_bytes pkt)"
    using assms(4) by (intro unat_pktbuf_size) (simp add: rx_pkt_def)
  show ?thesis
    using assms pktbuf_window [OF assms(4)]
    by (simp add: mctp_mmbi_tx_def Let_def word_less_nat_alt u mem_write_def)
qed

text \<open>The whole window goes to the device in one call; a partial or failed call is repeated, three
  times in all, with the whole window again.\<close>

lemma mctp_mmbi_tx_device:
  assumes "has_device m" and "rx_pkt pkt" and "length (pktbuf_bytes pkt) < 2 ^ 32"
  shows "mctp_mmbi_tx api m pkt =
    (let ((ok, n), d) = write_retry api (pktbuf_bytes pkt) (of_nat (length (pktbuf_bytes pkt))) 3 (False, 0) (mm_dev m)
     in Inr (if \<not> ok \<or> unat n \<noteq> length (pktbuf_bytes pkt) then - EIO else 0, m\<lparr>mm_dev := d\<rparr>))"
proof -
  have u: "unat (mctp_pktbuf_size pkt) = length (pktbuf_bytes pkt)"
    using assms(2) by (intro unat_pktbuf_size) (simp add: rx_pkt_def)
  then have sz: "mctp_pktbuf_size pkt = of_nat (length (pktbuf_bytes pkt))" by (metis of_nat_unat ucast_id)
  have c: "unat (ucast (mctp_pktbuf_size pkt) :: u32) = length (pktbuf_bytes pkt)"
    using assms(3) u by (simp add: unsigned_ucast_eq take_bit_eq_mod)
  have eq: "ucast (n :: u32) = mctp_pktbuf_size pkt \<longleftrightarrow> unat n = length (pktbuf_bytes pkt)" for n
  proof -
    have "unat (ucast n :: u64) = unat n" by (simp add: unsigned_ucast_eq take_bit_nat_eq_self [OF less_trans [OF unsigned_less]])
    then show ?thesis using u by (metis word_unat_eq_iff)
  qed
  show ?thesis
    using assms(1) pktbuf_window [OF assms(2)] c u eq sz
    by (simp add: mctp_mmbi_tx_def Let_def split: prod.split)
qed

text \<open>The result of the call number \<open>k\<close> of \<open>WriteFile\<close> when the same bytes are written again and again.\<close>

primrec attempt :: "'d win_api \<Rightarrow> bytes \<Rightarrow> nat \<Rightarrow> 'd \<Rightarrow> (bool \<times> u32) \<times> 'd" where
  "attempt api buf 0 d = WriteFile api buf d"
| "attempt api buf (Suc k) d = attempt api buf k (snd (WriteFile api buf d))"

definition took_all :: "bytes \<Rightarrow> (bool \<times> u32) \<times> 'd \<Rightarrow> bool" where
  "took_all buf r \<longleftrightarrow> fst (fst r) \<and> unat (snd (fst r)) = length buf"

lemma write_retry_attempts:
  assumes "length buf < 2 ^ 32"
  shows "(\<exists>k<Suc n. write_retry api buf (of_nat (length buf)) (Suc n) prev d = attempt api buf k d \<and>
            took_all buf (attempt api buf k d) \<and> (\<forall>j<k. \<not> took_all buf (attempt api buf j d))) \<or>
         (write_retry api buf (of_nat (length buf)) (Suc n) prev d = attempt api buf n d \<and>
            (\<forall>j<Suc n. \<not> took_all buf (attempt api buf j d)))"
proof (induction n arbitrary: prev d)
  have eq: "ucast (m :: u32) = (of_nat (length buf) :: u64) \<longleftrightarrow> unat m = length buf" for m
  proof -
    have "unat (ucast m :: u64) = unat m" by (simp add: unsigned_ucast_eq take_bit_nat_eq_self [OF less_trans [OF unsigned_less]])
    moreover have "unat (of_nat (length buf) :: u64) = length buf" using assms by (simp add: unat_of_nat)
    ultimately show ?thesis by (simp add: word_unat_eq_iff)
  qed
  have step: "write_retry api buf (of_nat (length buf)) (Suc n) prev d =
      (if took_all buf (attempt api buf 0 d) then attempt api buf 0 d
       else write_retry api buf (of_nat (length buf)) n (fst (attempt api buf 0 d)) (snd (attempt api buf 0 d)))" for n prev d
    by (cases "WriteFile api buf d") (auto simp: took_all_def eq)
  {
    case 0
    show ?case using step [of 0 prev d] by (cases "WriteFile api buf d") auto
  next
    case (Suc n)
    show ?case
    proof (cases "took_all buf (attempt api buf 0 d)")
      case True
      then show ?thesis using step [of "Suc n" prev d] by (intro disjI1 exI [of _ 0]) (simp del: attempt.simps)
    next
      case False
      let ?d = "snd (WriteFile api buf d)"
      have run: "write_retry api buf (of_nat (length buf)) (Suc (Suc n)) prev d =
          write_retry api buf (of_nat (length buf)) (Suc n) (fst (attempt api buf 0 d)) ?d"
        using step [of "Suc n" prev d] False by simp
      have all: "(\<forall>j<Suc k. \<not> took_all buf (attempt api buf j d)) \<longleftrightarrow> (\<forall>j<k. \<not> took_all buf (attempt api buf j ?d))" for k
        using False by (auto simp: less_Suc_eq_0_disj)
      from Suc.IH [of "fst (attempt api buf 0 d)" ?d] show ?thesis
      proof (elim disjE exE conjE)
        fix k assume "k < Suc n" "write_retry api buf (of_nat (length buf)) (Suc n) (fst (attempt api buf 0 d)) ?d = attempt api buf k ?d"
          "took_all buf (attempt api buf k ?d)" "\<forall>j<k. \<not> took_all buf (attempt api buf j ?d)"
        then show ?thesis using run all [of k] by (intro disjI1 exI [of _ "Suc k"]) simp
      next
        assume "write_retry api buf (of_nat (length buf)) (Suc n) (fst (attempt api buf 0 d)) ?d = attempt api buf n ?d"
          "\<forall>j<Suc n. \<not> took_all buf (attempt api buf j ?d)"
        then show ?thesis using run all [of "Suc n"] by (intro disjI2) simp
      qed
    qed
  }
qed

lemma mctp_mmbi_tx_attempts:
  assumes "has_device m" and "rx_pkt pkt" and "length (pktbuf_bytes pkt) < 2 ^ 32"
  shows "(\<exists>k<3. mctp_mmbi_tx api m pkt = Inr (0, m\<lparr>mm_dev := snd (attempt api (pktbuf_bytes pkt) k (mm_dev m))\<rparr>) \<and>
       took_all (pktbuf_bytes pkt) (attempt api (pktbuf_bytes pkt) k (mm_dev m)) \<and>
       (\<forall>j<k. \<not> took_all (pktbuf_bytes pkt) (attempt api (pktbuf_bytes pkt) j (mm_dev m)))) \<or>
     (mctp_mmbi_tx api m pkt = Inr (- EIO, m\<lparr>mm_dev := snd (attempt api (pktbuf_bytes pkt) 2 (mm_dev m))\<rparr>) \<and>
       (\<forall>j<3. \<not> took_all (pktbuf_bytes pkt) (attempt api (pktbuf_bytes pkt) j (mm_dev m))))"
proof -
  let ?a = "\<lambda>k. attempt api (pktbuf_bytes pkt) k (mm_dev m)" and ?bs = "pktbuf_bytes pkt"
  have tx: "mctp_mmbi_tx api m pkt = Inr (if took_all ?bs (?a k) then 0 else - EIO, m\<lparr>mm_dev := snd (?a k)\<rparr>)"
    if "write_retry api ?bs (of_nat (length ?bs)) 3 (False, 0) (mm_dev m) = ?a k" for k
    using mctp_mmbi_tx_device [OF assms, of api] that by (auto simp: took_all_def split: prod.split)
  have three: "Suc 2 = (3 :: nat)" by simp
  from write_retry_attempts [OF assms(3), of 2 api "(False, 0)" "mm_dev m", unfolded three] show ?thesis
  proof (elim disjE exE conjE)
    fix k assume "k < 3" "write_retry api ?bs (of_nat (length ?bs)) 3 (False, 0) (mm_dev m) = ?a k"
      "took_all ?bs (?a k)" "\<forall>j<k. \<not> took_all ?bs (?a j)"
    then show ?thesis using tx [of k] by (intro disjI1 exI [of _ k]) simp
  next
    assume "write_retry api ?bs (of_nat (length ?bs)) 3 (False, 0) (mm_dev m) = ?a 2" "\<forall>j<3. \<not> took_all ?bs (?a j)"
    then show ?thesis using tx [of 2] by (intro disjI2) simp
  qed
qed

interpretation mmbi: safe_tx "mctp_mmbi_tx api" mmbi_ok mtu for api mtu
proof unfold_locales
  fix m :: "'a mmbi" and pkt
  assume ok: "mmbi_ok m" and pkt: "rx_pkt pkt" and "length (pktbuf_bytes pkt) \<le> mtu"
  have u: "unat (mctp_pktbuf_size pkt) = length (pktbuf_bytes pkt)"
    using pkt by (intro unat_pktbuf_size) (simp add: rx_pkt_def)
  show "\<exists>rc m'. mctp_mmbi_tx api m pkt = Inr (rc, m') \<and> mmbi_ok m'"
  proof (cases "has_device m")
    case True
    have "unat (ucast (mctp_pktbuf_size pkt) :: u32) \<le> unat (mctp_pktbuf_size pkt)"
      by (simp add: unsigned_ucast_eq)
    then obtain buf where "mem_read (pk_data pkt) (unat (mctp_pktbuf_hdr pkt)) (unat (ucast (mctp_pktbuf_size pkt) :: u32)) = Inr buf"
      using pktbuf_window [OF pkt] by (auto simp: mem_read_def split: if_splits)
    then show ?thesis using True ok by (auto simp: mctp_mmbi_tx_def Let_def mmbi_ok_def split: prod.split)
  next
    case False
    show ?thesis
    proof (cases "tx_storage m")
      case None
      then show ?thesis using False ok by (simp add: mctp_mmbi_tx_def Let_def)
    next
      case (Some mem)
      then have "length mem = unat (memory_size m)" using ok by (simp add: mmbi_ok_def)
      then show ?thesis using mctp_mmbi_tx_memory [OF False Some _ pkt, of api] ok
        by (auto simp: mmbi_ok_def)
    qed
  qed
qed

interpretation mmbi_mem: reliable_tx "mctp_mmbi_tx api" "mmbi_mem_ok mtu" mtu for api mtu
proof unfold_locales
  fix m :: "'a mmbi" and pkt
  assume ok: "mmbi_mem_ok mtu m" and pkt: "rx_pkt pkt" and len: "length (pktbuf_bytes pkt) \<le> mtu"
  then obtain mem where mem: "tx_storage m = Some mem" "length mem = unat (memory_size m)" "\<not> has_device m"
    by (auto simp: mmbi_mem_ok_def mmbi_ok_def)
  have run: "mctp_mmbi_tx api m pkt = Inr (0, m\<lparr>tx_storage := Some (pktbuf_bytes pkt @ drop (length (pktbuf_bytes pkt)) mem)\<rparr>)"
    using mctp_mmbi_tx_memory [OF mem(3,1,2) pkt, of api] ok len by (simp add: mmbi_mem_ok_def)
  then show "\<exists>rc m'. mctp_mmbi_tx api m pkt = Inr (rc, m') \<and> mmbi_mem_ok mtu m'"
    using ok mem len by (auto simp: mmbi_mem_ok_def mmbi_ok_def has_device_def)
  show "rc = 0" if "mctp_mmbi_tx api m pkt = Inr (rc, m')" for rc m'
    using that run by simp
qed

end
