(* ===== verification/Mctp_Lifecycle.thy ===== *)
theory Mctp_Lifecycle
  imports Mctp_Mmbi
begin

text \<open>
  From nothing to a running endpoint and back: \<open>mctp_setup\<close> followed by \<open>mctp_register_bus\<close>
  establishes the invariant \<open>endpoint_ok\<close>, and \<open>mctp_cleanup\<close> gives every block the endpoint owns
  back. After \<open>mctp_unregister_bus\<close> it no longer does: a pending message is lost.
\<close>

section \<open>Setting up\<close>

lemma zero_control_type:
  "mctp_control_add_type MCTP_CTRL_HDR_MSG_TYPE zero_control = Inr (0, zero_control\<lparr>num_msg_types := 1\<rparr>)"
proof -
  have "0 # replicate 9 0 = replicate 10 (0 :: u8)" by (simp add: replicate_Suc [symmetric] del: replicate_Suc)
  then show ?thesis by (simp add: mctp_control_add_type_def zero_control_def has_type_loop.simps mem_write_def)
qed

text \<open>The instance right after \<open>mctp_setup\<close>: empty tables, default limits and clock, and the
  control message type registered.\<close>

definition fresh_mctp :: "'e world \<Rightarrow> 'e world" where
  "fresh_mctp w = (zero_mctp w)\<lparr>max_message_size := MCTP_MAX_MESSAGE_SIZE, platform_now := mctp_default_now,
     control := zero_control\<lparr>num_msg_types := 1\<rparr>\<rparr>"

lemma mctp_setup_eq:
  "mctp_setup n w = Inr (if n < SIZEOF_MCTP then (- EINVAL, w) else (0, fresh_mctp w))"
  using zero_control_type by (simp add: mctp_setup_def fresh_mctp_def Let_def zero_mctp_def)

lemma fresh_mctp_sel [simp]:
  "n_busses (fresh_mctp w) = 0" "busses (fresh_mctp w) = [zero_bus, zero_bus]"
  "msg_ctxs (fresh_mctp w) = replicate 16 zero_ctx" "req_tags (fresh_mctp w) = replicate 16 zero_req_tag"
  "control (fresh_mctp w) = zero_control\<lparr>num_msg_types := 1\<rparr>" "platform_now (fresh_mctp w) = Some 0"
  "max_message_size (fresh_mctp w) = MCTP_MAX_MESSAGE_SIZE" "message_rx (fresh_mctp w) = None"
  "heap (fresh_mctp w) = heap w" "ops (fresh_mctp w) = ops w" "bindings (fresh_mctp w) = bindings w"
  "trace (fresh_mctp w) = trace w" "clock (fresh_mctp w) = clock w" "capture (fresh_mctp w) = None"
  "tag_round_robin (fresh_mctp w) = 0"
  by (simp_all add: fresh_mctp_def zero_mctp_def mctp_default_now_def numeral_2_eq_2)

lemma zero_ctx_idle [simp]: "ctx_buf zero_ctx = None" "\<not> ctx_used zero_ctx" "ctx_wf zero_ctx"
  by (simp_all add: zero_ctx_def ctx_used_def ctx_wf_def)

lemma ctxs_ok_zero: "ctxs_ok (replicate 16 zero_ctx)"
  by (simp add: ctxs_ok_def slots_unique_replicate)

lemma ctx_own_zero [simp]: "ctx_own (replicate n zero_ctx) = {#}"
  by (induction n) (simp_all add: ctx_own_def)

lemma control_ok_fresh: "control_ok (zero_control\<lparr>num_msg_types := 1\<rparr>)"
  by (simp add: control_ok_def zero_control_def)

text \<open>What a binding must be before it is registered.\<close>

definition binding_new :: "('e \<Rightarrow> mctp_pktbuf \<Rightarrow> (int \<times> 'e) res) \<Rightarrow> ('e \<Rightarrow> bool) \<Rightarrow> nat \<Rightarrow> 'e mctp_binding \<Rightarrow> bool" where
  "binding_new tx P mtu bnd \<longleftrightarrow> binding_ok (bnd\<lparr>b_mctp := True\<rparr>) \<and> b_tx bnd = Some tx \<and> P (b_priv bnd) \<and>
     mtu = unat (b_pkt_size bnd) \<and> b_start bnd = Some Mctp_mmbi_start"

lemma register_ok:
  assumes new: "binding_new tx P mtu (bindings w b)" and g: "good_ops (ops w)" and h: "heap_owns F (heap w)"
  obtains w' where "mctp_register_bus b eid (fresh_mctp w) = Inr (0, w')" and "endpoint_ok tx P mtu b F w'"
    and "bus_at w' 0 = zero_bus\<lparr>bus_mctp := True, bus_binding := Some b, bus_eid := eid,
           bus_state := mctp_bus_state_tx_enabled\<rparr>" and "msg_ctxs w' = replicate 16 zero_ctx"
    and "type_list (control w') = [0]" and "message_rx w' = None" and "trace w' = trace w"
    and "heap w' = heap w" and "ops w' = ops w" and "capture w' = None"
    and "max_message_size w' = MCTP_MAX_MESSAGE_SIZE" and "req_tags w' = replicate 16 zero_req_tag"
    and "bindings w' = (bindings w)(b := (bindings w b)\<lparr>b_bus := Some 0, b_mctp := True\<rparr>)"
    and "clock w' = clock w" and "platform_now w' = Some 0" and "tag_round_robin w' = 0"
proof -
  let ?bus = "zero_bus\<lparr>bus_mctp := True, bus_binding := Some b, bus_eid := eid\<rparr>"
  let ?w1 = "(set_binding b ((bindings w b)\<lparr>b_bus := Some 0, b_mctp := True\<rparr>) (set_bus 0 ?bus (fresh_mctp w\<lparr>n_busses := 1\<rparr>)))\<lparr>route_policy := ROUTE_ENDPOINT\<rparr>"
  let ?w' = "set_bus 0 (?bus\<lparr>bus_state := mctp_bus_state_tx_enabled\<rparr>) ?w1"
  have b: "binding_ok (bindings w b\<lparr>b_mctp := True\<rparr>)" "b_start (bindings w b) = Some Mctp_mmbi_start"
    using new by (simp_all add: binding_new_def)
  have st: "b_tx_storage (bindings w b) \<noteq> None" and pk: "\<not> b_pkt_size (bindings w b) < 68"
    using b(1) by (auto simp: binding_ok_def word_less_nat_alt)
  have at: "bus_at ?w1 0 = ?bus" by (simp add: bus_at_def)
  have run: "mctp_register_bus b eid (fresh_mctp w) = Inr (0, ?w')"
    using st b(2) pk at
    by (simp add: mctp_register_bus_def binding_start_def mctp_mmbi_start_def mctp_binding_set_tx_enabled_def Let_def zero_bus_def)
  have b': "binding_ok (bindings w b\<lparr>b_bus := Some 0, b_mctp := True\<rparr>)"
    using b(1) by (auto simp: binding_ok_def pktbuf_storage_size_def)
  have at': "bus_at ?w' 0 = ?bus\<lparr>bus_state := mctp_bus_state_tx_enabled\<rparr>" by (simp add: bus_at_def)
  have "ep_shape tx P mtu b ?w'" unfolding ep_shape_def at'
    using new g b' ctxs_ok_zero control_ok_fresh
    by (simp add: binding_new_def zero_bus_def tx_pending_ok_def zero_req_tag_def)
  moreover have "heap_owns (owned ?w' + F) (heap ?w')"
    unfolding owned_def at' using h by (simp add: zero_bus_def)
  ultimately have "endpoint_ok tx P mtu b F ?w'" by (simp add: endpoint_ok_def)
  then show ?thesis using at' by (intro that [OF run]) (simp_all add: type_list_def zero_control_def)
qed

section \<open>Cleaning up\<close>

lemma cleanup_ctxs_ok:
  assumes "good_ops (ops w)" and "heap_owns (ctx_own cs + M) (heap w)"
  shows "\<exists>h. cleanup_ctxs cs w = Inr (w\<lparr>heap := h\<rparr>) \<and> heap_owns M h"
  using assms
proof (induction cs arbitrary: w)
  case Nil
  then show ?case by (intro exI [of _ "heap w"]) (simp add: ctx_own_def)
next
  case (Cons c cs)
  show ?case
  proof (cases "ctx_buf c")
    case None
    then show ?thesis using Cons by (simp add: ctx_own_def)
  next
    case (Some mb)
    then have "heap_owns (add_mset (mb_blk mb) (ctx_own cs + M)) (heap w)" using Cons.prems(2) by (simp add: ctx_own_def)
    with Cons.prems(1) obtain h where f: "w_msg_free (Some mb) True w = Inr (w\<lparr>heap := h\<rparr>)" "heap_owns (ctx_own cs + M) h"
      by (rule w_msg_free_owns)
    then show ?thesis using Cons.IH [of "w\<lparr>heap := h\<rparr>"] Cons.prems(1) Some by simp
  qed
qed

lemma bus_destroy_ok:
  assumes "good_ops (ops w)" and "heap_owns (own (tx_msg (bus_at w i)) + M) (heap w)" and "i < length (busses w)"
  shows "\<exists>w'. mctp_bus_destroy i w = Inr w' \<and> heap_owns M (heap w') \<and> tx_msg (bus_at w' i) = None"
proof (cases "tx_msg (bus_at w i)")
  case None
  then show ?thesis using assms(2) by (simp add: mctp_bus_destroy_def)
next
  case (Some mb)
  with assms(2) have "heap_owns (add_mset (mb_blk mb) M) (heap w)" by simp
  with assms(1) obtain h where "w_msg_free (Some mb) True w = Inr (w\<lparr>heap := h\<rparr>)" "heap_owns M h"
    by (rule w_msg_free_owns)
  then show ?thesis using Some assms(3) by (simp add: mctp_bus_destroy_def)
qed

text \<open>Cleaning up a running endpoint gives every block it owns back, once.\<close>

lemma mctp_cleanup_ok:
  assumes "endpoint_ok tx P mtu b F w"
  shows "\<exists>w'. mctp_cleanup w = Inr w' \<and> heap_owns F (heap w') \<and> tx_msg (bus_at w' 0) = None \<and> n_busses w' = - 1"
proof -
  from assms have g: "good_ops (ops w)" and n: "n_busses w = 1" and l: "length (busses w) = 2"
    and h: "heap_owns (ctx_own (msg_ctxs w) + (own (tx_msg (bus_at w 0)) + F)) (heap w)"
    by (auto simp: endpoint_defs owned_def ac_simps)
  from cleanup_ctxs_ok [OF g h] obtain h1 where c: "cleanup_ctxs (msg_ctxs w) w = Inr (w\<lparr>heap := h1\<rparr>)"
    and h1: "heap_owns (own (tx_msg (bus_at w 0)) + F) h1" by blast
  let ?w = "w\<lparr>heap := h1, n_busses := 0\<rparr>"
  have "bus_at ?w 0 = bus_at w 0" by (simp add: bus_at_def)
  then obtain w' where "mctp_bus_destroy 0 ?w = Inr w'" "heap_owns F (heap w')" "tx_msg (bus_at w' 0) = None"
    using bus_destroy_ok [of ?w 0 F] g h1 l by auto
  then show ?thesis using c n l by (simp add: mctp_cleanup_def bus_at_def)
qed

text \<open>After \<open>mctp_unregister_bus\<close> the bus is no longer visited: a message that is still pending
  stays allocated.\<close>

lemma unregister_cleanup:
  assumes "endpoint_ok tx P mtu b F w"
  shows "\<exists>w'. mctp_cleanup (mctp_unregister_bus b w) = Inr w' \<and> heap_owns (own (tx_msg (bus_at w 0)) + F) (heap w')"
proof -
  let ?w = "mctp_unregister_bus b w"
  from assms have g: "good_ops (ops ?w)"
    and h: "heap_owns (ctx_own (msg_ctxs ?w) + (own (tx_msg (bus_at w 0)) + F)) (heap ?w)"
    by (auto simp: endpoint_defs owned_def ac_simps mctp_unregister_bus_def)
  from cleanup_ctxs_ok [OF g h] obtain h1 where "cleanup_ctxs (msg_ctxs ?w) ?w = Inr (?w\<lparr>heap := h1\<rparr>)"
    "heap_owns (own (tx_msg (bus_at w 0)) + F) h1" by blast
  then show ?thesis by (simp add: mctp_cleanup_def mctp_unregister_bus_def)
qed

section \<open>Bridging\<close>

lemma bridge_busses_ok:
  assumes new: "binding_new tx P mtu (bindings w b0)" "binding_new tx P mtu (bindings w b1)" and ne: "b0 \<noteq> b1"
    and g: "good_ops (ops w)" "heap_ok (heap w)"
  obtains w' where "mctp_bridge_busses b0 b1 (fresh_mctp w) = Inr (0, w')" and "bridge_ok tx P mtu [b0, b1] w'"
    and "\<not> bus_mctp (bus_at w' 0)" and "\<not> bus_mctp (bus_at w' 1)" and "msg_ctxs w' = replicate 16 zero_ctx"
    and "heap w' = heap w" and "ops w' = ops w" and "trace w' = trace w" and "capture w' = None"
    and "max_message_size w' = MCTP_MAX_MESSAGE_SIZE" and "alloc_ctx w' = alloc_ctx (fresh_mctp w)"
    and "bindings w' = (bindings w)(b0 := (bindings w b0)\<lparr>b_bus := Some 0, b_mctp := True\<rparr>,
           b1 := (bindings w b1)\<lparr>b_bus := Some 1, b_mctp := True\<rparr>)"
    and "bus_at w' 0 = zero_bus\<lparr>bus_binding := Some b0, bus_state := mctp_bus_state_tx_enabled\<rparr>"
    and "bus_at w' 1 = zero_bus\<lparr>bus_binding := Some b1, bus_state := mctp_bus_state_tx_enabled\<rparr>"
    and "bus_idle 0 w'" and "bus_idle 1 w'"
proof -
  let ?B0 = "(bindings w b0)\<lparr>b_bus := Some 0, b_mctp := True\<rparr>" and ?B1 = "(bindings w b1)\<lparr>b_bus := Some 1, b_mctp := True\<rparr>"
  let ?w' = "(fresh_mctp w)\<lparr>n_busses := 2, route_policy := ROUTE_BRIDGE, bindings := (bindings w)(b0 := ?B0, b1 := ?B1),
    busses := [zero_bus\<lparr>bus_binding := Some b0, bus_state := mctp_bus_state_tx_enabled\<rparr>,
               zero_bus\<lparr>bus_binding := Some b1, bus_state := mctp_bus_state_tx_enabled\<rparr>]\<rparr>"
  have b: "b_start (bindings w b) = Some Mctp_mmbi_start \<and> b_tx_storage (bindings w b) \<noteq> None \<and>
      \<not> b_pkt_size (bindings w b) < 68" if "b = b0 \<or> b = b1" for b
    using that new by (auto simp: binding_new_def binding_ok_def word_less_nat_alt)
  have run: "mctp_bridge_busses b0 b1 (fresh_mctp w) = Inr (0, ?w')"
    using b ne by (simp add: mctp_bridge_busses_def binding_start_def mctp_mmbi_start_def mctp_binding_set_tx_enabled_def
        bus_at_def Let_def set_bus_def set_binding_def zero_bus_def fun_upd_twist)
  have ok: "binding_ok ?B0" "binding_ok ?B1" using new by (simp_all add: binding_new_def binding_ok_def pktbuf_storage_size_def)
  have "bridge_ok tx P mtu [b0, b1] ?w'"
    using ok new ne g by (simp add: bridge_ok_def all_less_two bus_at_def tx_ready_def tx_pending_ok_def zero_bus_def binding_new_def)
  then show ?thesis by (rule that [OF run]) (simp_all add: bus_at_def zero_bus_def bus_idle_def)
qed

end
