(* ===== verification/Mmbi_Endpoint.thy ===== *)
theory Mmbi_Endpoint
  imports Mctp_Lifecycle
begin

unbundle bit_operations_syntax

text \<open>
  The receive side of the MMBI binding on a running endpoint: a packet buffer fresh from
  \<open>mctp_pktbuf_alloc\<close>, what \<open>mctp_mmbi_poll\<close> of \<^verbatim>\<open>src/mmbi.c\<close> does in each of its branches (nothing to
  read, a failed read, no memory, a packet handed to \<open>mctp_bus_rx\<close>), and what \<open>mctp_mmbi_rx\<close> does with
  the memory mapped region.
\<close>

section \<open>Allocated packet buffers\<close>

lemma default_alloc_owns:
  assumes "heap_owns M h"
  obtains p h' where "mctp_alloc default_alloc_ops n h = Inr (p, h')" and "h_ok h' = h_ok h"
    and "heap_owns (case p of None \<Rightarrow> M | Some blk \<Rightarrow> add_mset blk M) h'"
    and "p = None \<longleftrightarrow> \<not> h_ok h (h_next h) n"
proof -
  obtain p h' where m: "libc_malloc n h = (p, h')" by (cases "libc_malloc n h")
  have ok: "heap_ok h" using assms by (simp add: heap_owns_def)
  have "heap_owns (case p of None \<Rightarrow> M | Some blk \<Rightarrow> add_mset blk M) h'"
  proof (cases p)
    case None
    then show ?thesis using heap_owns_same [OF assms heap_ok_malloc [OF ok m]] libc_malloc_None m by simp
  next
    case (Some blk)
    then show ?thesis using heap_owns_insert [OF assms heap_ok_malloc [OF ok m]] libc_malloc_Some [OF ok] m by simp
  qed
  then show ?thesis using m
    by (intro that [of p h']) (auto simp: mctp_alloc_def default_alloc_ops_def libc_malloc_def Let_def split: if_splits)
qed

lemma default_free_owns:
  assumes "heap_owns (add_mset blk M) h"
  obtains h' where "mctp_free default_alloc_ops (Some blk) h = Inr h'" and "heap_owns M h'" and "h_ok h' = h_ok h"
proof -
  let ?h = "h\<lparr>h_live := h_live h - {blk}\<rparr>"
  have "blk \<in> h_live h" using heap_owns_live [OF assms] .
  then have "mctp_free default_alloc_ops (Some blk) h = Inr ?h"
    by (simp add: mctp_free_def default_alloc_ops_def libc_free_def)
  moreover have "heap_ok ?h" using assms by (auto simp: heap_owns_def heap_ok_def)
  ultimately show ?thesis using heap_owns_remove [OF assms, of ?h] by (intro that [of ?h]) simp_all
qed

lemma pktbuf_alloc_ok:
  assumes h: "heap_owns M h" and hd: "b_pkt_header bnd = 0"
  obtains (refused) "mctp_pktbuf_alloc default_alloc_ops bnd len h = Inr (None, h)" and "len > pktbuf_storage_size bnd"
  | (none) h' where "mctp_pktbuf_alloc default_alloc_ops bnd len h = Inr (None, h')" and "heap_owns M h'"
      and "\<not> h_ok h (h_next h) (pktbuf_storage_size bnd + SIZEOF_MCTP_PKTBUF)"
  | (got) pkt blk h' where "mctp_pktbuf_alloc default_alloc_ops bnd len h = Inr (Some pkt, h')"
      and "heap_owns (add_mset blk M) h'" and "pktbuf_wf pkt" and "pk_start pkt = 0" and "mctp_hdr_off pkt = 0"
      and "pk_end pkt = len" and "pk_size pkt = pktbuf_storage_size bnd" and "pk_alloc pkt" and "pk_blk pkt = Some blk"
      and "pk_data pkt = replicate (unat (pktbuf_storage_size bnd)) 0"
      and "len \<le> pktbuf_storage_size bnd" and "h_ok h' = h_ok h"
proof (cases "len > pktbuf_storage_size bnd")
  case True
  then show ?thesis by (intro refused) (simp_all add: mctp_pktbuf_alloc_def)
next
  case False
  obtain p h' where a: "mctp_alloc default_alloc_ops (pktbuf_storage_size bnd + SIZEOF_MCTP_PKTBUF) h = Inr (p, h')"
    "h_ok h' = h_ok h" "heap_owns (case p of None \<Rightarrow> M | Some blk \<Rightarrow> add_mset blk M) h'"
    "p = None \<longleftrightarrow> \<not> h_ok h (h_next h) (pktbuf_storage_size bnd + SIZEOF_MCTP_PKTBUF)"
    by (rule default_alloc_owns [OF h]) (rule that)
  show ?thesis
  proof (cases p)
    case None
    then show ?thesis using a False by (intro none [of h']) (simp_all add: mctp_pktbuf_alloc_def)
  next
    case (Some blk)
    let ?sz = "pktbuf_storage_size bnd"
    let ?pkt = "\<lparr>pk_start = 0, pk_end = len, pk_size = ?sz, mctp_hdr_off = 0, pk_alloc = True,
       pk_data = replicate (unat ?sz) 0, pk_blk = Some blk\<rparr>"
    have "mctp_pktbuf_alloc default_alloc_ops bnd len h = Inr (Some ?pkt, h')"
      using Some a(1) False hd by (simp add: mctp_pktbuf_alloc_def mctp_pktbuf_init_def Let_def)
    then show ?thesis using a(2,3) Some False by (intro got [of ?pkt h' blk]) (simp_all add: pktbuf_wf_def)
  qed
qed

section \<open>Polling the device\<close>

text \<open>What \<open>ReadFile\<close> promises: it fills no more of the buffer than it was given.\<close>

definition reads_bounded :: "'d win_api \<Rightarrow> bool" where
  "reads_bounded api \<longleftrightarrow> (\<forall>n d. length (fst (snd (fst (ReadFile api n d)))) \<le> unat n)"

lemma endpoint_ok_priv:
  assumes "endpoint_ok tx P mtu b F w" and "P e"
  shows "endpoint_ok tx P mtu b F (set_binding b ((bindings w b)\<lparr>b_priv := e\<rparr>) w)"
proof -
  have "bus_at (set_binding b ((bindings w b)\<lparr>b_priv := e\<rparr>) w) 0 = bus_at w 0" by simp
  then show ?thesis using assms
    by (auto simp: endpoint_defs owned_def binding_ok_def pktbuf_storage_size_def)
qed

text \<open>The packet the poll hands to the core: the bytes that were read, in a buffer of its own.\<close>

lemma poll_packet:
  assumes pk: "pktbuf_wf pkt" "pk_start pkt = 0" "mctp_hdr_off pkt = 0" "pk_end pkt = of_nat (length bs)"
    and len: "of_nat (length bs) \<le> pk_size pkt" "length bs < 2 ^ 64"
  obtains data where "mem_write (pk_data pkt) (unat (mctp_pktbuf_hdr pkt)) bs = Inr data"
    and "pktbuf_wf (pkt\<lparr>pk_data := data\<rparr>)" and "pktbuf_bytes (pkt\<lparr>pk_data := data\<rparr>) = bs"
proof -
  have u: "unat (of_nat (length bs) :: u64) = length bs" using len(2) by (simp add: unat_of_nat)
  have l: "length bs \<le> length (pk_data pkt)" using pk(1) len(1) u by (simp add: pktbuf_wf_def word_le_nat_alt)
  show ?thesis
  proof (rule that [of "bs @ drop (length bs) (pk_data pkt)"])
    show "mem_write (pk_data pkt) (unat (mctp_pktbuf_hdr pkt)) bs = Inr (bs @ drop (length bs) (pk_data pkt))"
      using l pk(3) by (simp add: mem_write_def mctp_pktbuf_hdr_def)
    show "pktbuf_wf (pkt\<lparr>pk_data := bs @ drop (length bs) (pk_data pkt)\<rparr>)" using pk(1) l by (simp add: pktbuf_wf_def)
    show "pktbuf_bytes (pkt\<lparr>pk_data := bs @ drop (length bs) (pk_data pkt)\<rparr>) = bs"
      using pk(2,4) u by (simp add: pktbuf_bytes_def)
  qed
qed

lemma ucast_len: "n < 2 ^ 32 \<Longrightarrow> ucast (of_nat n :: u32) = (of_nat n :: u64)"
  by (simp add: word_unat_eq_iff unsigned_ucast_eq unat_of_nat take_bit_nat_eq_self)

definition poll_limit :: "'e mctp_binding \<Rightarrow> u32" where
  "poll_limit bnd = (let n = ucast (b_pkt_size bnd) + 4 in if n > RX_BUF_SIZE then RX_BUF_SIZE else n)"

definition set_dev :: "nat \<Rightarrow> 'd \<Rightarrow> 'd mmbi_world \<Rightarrow> 'd mmbi_world" where
  "set_dev b d w = set_binding b ((bindings w b)\<lparr>b_priv := (b_priv (bindings w b))\<lparr>mm_dev := d\<rparr>\<rparr>) w"

lemma endpoint_ok_dev:
  "endpoint_ok tx mmbi_ok mtu b F w \<Longrightarrow> endpoint_ok tx mmbi_ok mtu b F (set_dev b d w)"
  unfolding set_dev_def by (rule endpoint_ok_priv) (auto simp: endpoint_defs mmbi_ok_def)

text \<open>A poll that reaches the read: what it does with the answer.\<close>

lemma mctp_mmbi_poll_run:
  assumes dev: "has_device (b_priv (bindings w b))" "PeekNamedPipe api (mm_dev (b_priv (bindings w b))) = (pe, av)" "\<not> (pe \<and> av = 0)"
    and rd: "ReadFile api (poll_limit (bindings w b)) (mm_dev (b_priv (bindings w b))) = ((okf, bs, err), d)"
    and ops: "ops w = default_alloc_ops" and len: "length bs < 2 ^ 32"
  shows "mctp_mmbi_poll api b w = (if okf \<and> bs \<noteq> []
      then rbind (mctp_pktbuf_alloc default_alloc_ops (bindings (set_dev b d w) b) (of_nat (length bs)) (heap w)) (\<lambda>(p, h).
        let w = set_dev b d w\<lparr>heap := h\<rparr> in
        case p of None \<Rightarrow> Inr (- ENOMEM, w)
        | Some pkt \<Rightarrow> rbind (mem_write (pk_data pkt) (unat (mctp_pktbuf_hdr pkt)) bs) (\<lambda>data.
            rbind (mctp_bus_rx b (pkt\<lparr>pk_data := data\<rparr>) w) (\<lambda>w. Inr (0, w))))
      else if \<not> okf \<and> err = ERROR_BROKEN_PIPE then Inr (- EPIPE, set_dev b d w) else Inr (0, set_dev b d w))"
proof -
  have "(of_nat (length bs) :: u32) > 0 \<longleftrightarrow> bs \<noteq> []"
    using len by (simp add: word_less_nat_alt unat_of_nat)
  moreover have "(if RX_BUF_SIZE < ucast (b_pkt_size (bindings w b)) + 4 then RX_BUF_SIZE
      else ucast (b_pkt_size (bindings w b)) + 4) = poll_limit (bindings w b)" by (simp add: poll_limit_def Let_def)
  ultimately show ?thesis using dev rd ops
    by (simp add: mctp_mmbi_poll_def Let_def ucast_len [OF len] set_dev_def del: RX_BUF_SIZE_def)
qed

lemma mctp_mmbi_poll_cases:
  assumes ok: "endpoint_ok (mctp_mmbi_tx api) mmbi_ok mtu b F w" and ops: "ops w = default_alloc_ops"
    and hd: "b_pkt_header (bindings w b) = 0" and rb: "reads_bounded api"
  obtains (idle) "mctp_mmbi_poll api b w = Inr (0, w)"
      and "\<not> has_device (b_priv (bindings w b)) \<or> PeekNamedPipe api (mm_dev (b_priv (bindings w b))) = (True, 0)"
  | (failed) rc okf bs err d where "mctp_mmbi_poll api b w = Inr (rc, set_dev b d w)"
      and "ReadFile api (poll_limit (bindings w b)) (mm_dev (b_priv (bindings w b))) = ((okf, bs, err), d)"
      and "\<not> okf \<or> bs = []" and "rc = (if \<not> okf \<and> err = ERROR_BROKEN_PIPE then - EPIPE else 0)"
  | (nomem) h bs err d where "mctp_mmbi_poll api b w = Inr (- ENOMEM, set_dev b d w\<lparr>heap := h\<rparr>)"
      and "endpoint_ok (mctp_mmbi_tx api) mmbi_ok mtu b F (set_dev b d w\<lparr>heap := h\<rparr>)"
      and "ReadFile api (poll_limit (bindings w b)) (mm_dev (b_priv (bindings w b))) = ((True, bs, err), d)"
      and "of_nat (length bs) > pktbuf_storage_size (bindings w b) \<or>
           \<not> h_ok (heap w) (h_next (heap w)) (pktbuf_storage_size (bindings w b) + SIZEOF_MCTP_PKTBUF)"
  | (packet) pkt blk h bs err d w2 where "mctp_mmbi_poll api b w = Inr (0, w2)"
      and "ReadFile api (poll_limit (bindings w b)) (mm_dev (b_priv (bindings w b))) = ((True, bs, err), d)"
      and "mctp_bus_rx b pkt (set_dev b d w\<lparr>heap := h\<rparr>) = Inr w2" and "pktbuf_bytes pkt = bs"
      and "pktbuf_wf pkt" and "mctp_hdr_off pkt = pk_start pkt" and "h_ok h = h_ok (heap w)"
      and "endpoint_ok (mctp_mmbi_tx api) mmbi_ok mtu b (add_mset blk F) (set_dev b d w\<lparr>heap := h\<rparr>)"
      and "endpoint_ok (mctp_mmbi_tx api) mmbi_ok mtu b (add_mset blk F) w2"
      and "length bs \<le> unat (pktbuf_storage_size (bindings w b))"
proof -
  let ?m = "b_priv (bindings w b)"
  obtain pe av where pe: "PeekNamedPipe api (mm_dev ?m) = (pe, av)" by (cases "PeekNamedPipe api (mm_dev ?m)")
  obtain okf bs err d where rd: "ReadFile api (poll_limit (bindings w b)) (mm_dev ?m) = ((okf, bs, err), d)"
    by (cases "ReadFile api (poll_limit (bindings w b)) (mm_dev ?m)") auto
  have "length bs \<le> unat (poll_limit (bindings w b))" using rb rd by (simp add: reads_bounded_def) (metis fst_conv snd_conv)
  then have len: "length bs < 2 ^ 32" using unsigned_less [of "poll_limit (bindings w b)", where ?'a = nat] by simp
  have bnd: "bindings (set_dev b d w) b = (bindings w b)\<lparr>b_priv := ?m\<lparr>mm_dev := d\<rparr>\<rparr>"
    "pktbuf_storage_size (bindings (set_dev b d w) b) = pktbuf_storage_size (bindings w b)"
    by (simp_all add: set_dev_def pktbuf_storage_size_def)
  note okd = endpoint_ok_dev [OF ok, of d]
  note poll = mctp_mmbi_poll_run [OF _ pe _ rd ops len]
  consider "\<not> has_device ?m \<or> pe \<and> av = 0" | "has_device ?m" "\<not> (pe \<and> av = 0)" "\<not> okf \<or> bs = []"
    | "has_device ?m" "\<not> (pe \<and> av = 0)" "okf" "bs \<noteq> []" by blast
  then show ?thesis
  proof cases
    case 1
    then show ?thesis using pe by (intro idle) (auto simp: mctp_mmbi_poll_def Let_def)
  next
    case 2
    then show ?thesis using poll rd by (intro failed [of _ d okf bs err]) auto
  next
    case 3
    have own: "heap_owns (owned w + F) (heap w)" using ok by (simp add: endpoint_ok_def)
    have sh: "ep_shape (mctp_mmbi_tx api) mmbi_ok mtu b (set_dev b d w)" "owned (set_dev b d w) = owned w"
      using okd by (simp_all add: endpoint_ok_def set_dev_def owned_def)
    have hd': "b_pkt_header (bindings (set_dev b d w) b) = 0" using hd bnd by simp
    from own hd' show ?thesis
    proof (cases rule: pktbuf_alloc_ok [where len = "of_nat (length bs)"])
      case refused
      then show ?thesis using 3 poll [OF 3(1,2)] rd own sh bnd
        by (intro nomem [of "heap w" d bs err]) (simp_all add: endpoint_ok_def)
    next
      case (none h)
      then show ?thesis using 3 poll [OF 3(1,2)] rd sh bnd
        by (intro nomem [of h d bs err]) (simp_all add: endpoint_ok_def)
    next
      case (got pkt blk h)
      obtain data where dt: "mem_write (pk_data pkt) (unat (mctp_pktbuf_hdr pkt)) bs = Inr data"
        "pktbuf_wf (pkt\<lparr>pk_data := data\<rparr>)" "pktbuf_bytes (pkt\<lparr>pk_data := data\<rparr>) = bs"
        by (rule poll_packet [OF got(3-6), of]) (use got len in simp_all)
      have ok1: "endpoint_ok (mctp_mmbi_tx api) mmbi_ok mtu b (add_mset blk F) (set_dev b d w\<lparr>heap := h\<rparr>)"
        using got(2) sh by (simp add: endpoint_ok_def)
      have off: "mctp_hdr_off (pkt\<lparr>pk_data := data\<rparr>) = pk_start (pkt\<lparr>pk_data := data\<rparr>)" using got by simp
      obtain w2 where rx: "mctp_bus_rx b (pkt\<lparr>pk_data := data\<rparr>) (set_dev b d w\<lparr>heap := h\<rparr>) = Inr w2"
        and ok2: "endpoint_ok (mctp_mmbi_tx api) mmbi_ok mtu b (add_mset blk F) w2"
        by (rule mmbi.bus_rx_safe [OF ok1 dt(2) off])
      have run: "mctp_mmbi_poll api b w = Inr (0, w2)"
        using poll [OF 3(1,2)] 3 got(1) dt(1) rx by (simp add: Let_def)
      have rd': "ReadFile api (poll_limit (bindings w b)) (mm_dev ?m) = ((True, bs, err), d)" using rd 3(3) by simp
      have fits: "length bs \<le> unat (pktbuf_storage_size (bindings w b))"
        using got(11) len bnd(2) by (simp add: word_le_nat_alt unat_of_nat)
      show ?thesis by (rule packet [OF run rd' rx dt(3,2) off got(12) ok1 ok2 fits])
    qed
  qed
qed

section \<open>The memory mapped receive operation\<close>

text \<open>The buffer comes from \<open>mctp_pktbuf_alloc\<close> with its window already as long as the packet, and
  the packet is pushed behind it: the core sees the packet with as many zeros in front.\<close>

lemma pushed_packet:
  assumes pk: "pktbuf_wf pkt" "pk_start pkt = 0" "mctp_hdr_off pkt = 0" "pk_end pkt = len"
      "pk_data pkt = replicate (unat (pk_size pkt)) 0"
    and len: "unat len \<le> length rx" "unat (pk_size pkt) < 2 ^ 63"
  obtains (full) "mctp_pktbuf_push pkt rx len = Inr (-1, pkt)" and "unat (pk_size pkt) < 2 * unat len"
  | (pushed) pkt' where "mctp_pktbuf_push pkt rx len = Inr (0, pkt')" and "pktbuf_wf pkt'" and "mctp_hdr_off pkt' = pk_start pkt'"
      and "pktbuf_bytes pkt' = replicate (unat len) 0 @ take (unat len) rx"
proof (cases "unat (pk_end pkt) + unat len \<le> unat (pk_size pkt)")
  case True
  obtain pkt' where p: "mctp_pktbuf_push pkt rx len = Inr (0, pkt')" "pktbuf_wf pkt'"
    "pktbuf_bytes pkt' = pktbuf_bytes pkt @ take (unat len) rx" "pk_start pkt' = pk_start pkt" "mctp_hdr_off pkt' = mctp_hdr_off pkt"
    by (rule mctp_pktbuf_push_ok [OF pk(1) len(1) True]) (rule that)
  have "pktbuf_bytes pkt = replicate (unat len) 0" using pk True by (simp add: pktbuf_bytes_def)
  then show ?thesis using p pk by (intro pushed [of pkt']) simp_all
next
  case False
  have le: "unat len \<le> unat (pk_size pkt)" using pk(1,4) by (simp add: pktbuf_wf_def word_le_nat_alt)
  then have "unat (len + len) = unat len + unat len" using len(2) by (intro unat_add_no_wrap) simp
  then have "pk_size pkt < pk_end pkt + len" using False pk(4) by (simp add: word_less_nat_alt)
  then show ?thesis using False pk(4) by (intro full) (simp_all add: mctp_pktbuf_push_def)
qed

text \<open>Every way \<open>mctp_mmbi_rx\<close> can end.\<close>

lemma mctp_mmbi_rx_cases:
  assumes ok: "endpoint_ok (mctp_mmbi_tx api) mmbi_ok mtu b F w" and ops: "ops w = default_alloc_ops"
    and hd: "b_pkt_header (bindings w b) = 0" and sz: "unat (pktbuf_storage_size (bindings w b)) < 2 ^ 63"
    and rx: "rx_storage (b_priv (bindings w b)) = Some rx" "unat len \<le> length rx"
  obtains (large) "mctp_mmbi_rx (Some b) len w = Inr (- EMSGSIZE, w)" and "memory_size (b_priv (bindings w b)) < len"
  | (refused) rc h where "mctp_mmbi_rx (Some b) len w = Inr (rc, w\<lparr>heap := h\<rparr>)" and "heap_owns (owned w + F) h"
      and "rc = - ENOMEM \<and> (pktbuf_storage_size (bindings w b) < len \<or>
              \<not> h_ok (heap w) (h_next (heap w)) (pktbuf_storage_size (bindings w b) + SIZEOF_MCTP_PKTBUF)) \<or>
           rc = -1 \<and> unat (pktbuf_storage_size (bindings w b)) < 2 * unat len"
  | (packet) pkt blk h w' where "mctp_mmbi_rx (Some b) len w = Inr (0, w')" and "mctp_bus_rx b pkt (w\<lparr>heap := h\<rparr>) = Inr w'"
      and "pktbuf_bytes pkt = replicate (unat len) 0 @ take (unat len) rx" and "pktbuf_wf pkt" and "mctp_hdr_off pkt = pk_start pkt"
      and "endpoint_ok (mctp_mmbi_tx api) mmbi_ok mtu b (add_mset blk F) (w\<lparr>heap := h\<rparr>)"
      and "endpoint_ok (mctp_mmbi_tx api) mmbi_ok mtu b (add_mset blk F) w'"
proof (cases "len > memory_size (b_priv (bindings w b))")
  case True
  then show ?thesis using rx(1) by (intro large) (simp_all add: mctp_mmbi_rx_def)
next
  case False
  have own: "heap_owns (owned w + F) (heap w)" and sh: "ep_shape (mctp_mmbi_tx api) mmbi_ok mtu b w"
    using ok by (simp_all add: endpoint_ok_def)
  note result = refused packet
  from own hd show ?thesis
  proof (cases rule: pktbuf_alloc_ok [where len = len])
    case refused
    then show ?thesis using False rx(1) ops own by (intro result(1) [of "- ENOMEM" "heap w"]) (simp_all add: mctp_mmbi_rx_def)
  next
    case (none h)
    then show ?thesis using False rx(1) ops by (intro result(1) [of "- ENOMEM" h]) (simp_all add: mctp_mmbi_rx_def)
  next
    case (got pkt blk h)
    have ps: "pk_data pkt = replicate (unat (pk_size pkt)) 0" "unat (pk_size pkt) < 2 ^ 63" using got(7,10) sz by simp_all
    have ok1: "endpoint_ok (mctp_mmbi_tx api) mmbi_ok mtu b (add_mset blk F) (w\<lparr>heap := h\<rparr>)"
      using got(2) sh by (simp add: endpoint_ok_def)
    show ?thesis
    proof (cases rule: pushed_packet [OF got(3-6) ps(1) rx(2) ps(2)])
      case 1
      obtain h' where "mctp_free default_alloc_ops (Some blk) h = Inr h'" "heap_owns (owned w + F) h'"
        by (rule default_free_owns [OF got(2)])
      then show ?thesis using 1 got(1,7-9) False rx(1) ops
        by (intro result(1) [of "-1" h'])
          (simp_all add: mctp_mmbi_rx_def mctp_pktbuf_free_def Let_def)
    next
      case (2 pkt')
      obtain w' where r: "mctp_bus_rx b pkt' (w\<lparr>heap := h\<rparr>) = Inr w'"
        "endpoint_ok (mctp_mmbi_tx api) mmbi_ok mtu b (add_mset blk F) w'"
        by (rule mmbi.bus_rx_safe [OF ok1 2(2,3)])
      show ?thesis by (rule result(2) [OF _ r(1) 2(4,2,3) ok1 r(2)])
          (use 2(1) got(1) r(1) False rx(1) ops in \<open>simp add: mctp_mmbi_rx_def Let_def\<close>)
    qed
  qed
qed

lemma reassemble_zero_header:
  "T (0, 0, 0) = None \<Longrightarrow>
   reassemble T lim avail \<lparr>hdr_ver = 0, hdr_dest = 0, hdr_src = 0, flags_seq_tag = 0\<rparr> sz body = (T, None)"
  by (auto simp: reassemble_def fst_flags_def fst_tag_def Let_def fun_upd_idem)

text \<open>A packet that starts with four zeros is dropped unless a message from and to EID 0 with tag 0 is under way.\<close>

lemma zero_header_dropped:
  assumes ok: "endpoint_ok (mctp_mmbi_tx api) mmbi_ok mtu b F w" and pkt: "pktbuf_wf pkt" "mctp_hdr_off pkt = pk_start pkt"
    and z: "pktbuf_bytes pkt = replicate n 0 @ xs" "4 \<le> n" and no: "asm_table (msg_ctxs w) (0, 0, 0) = None"
    and run: "mctp_bus_rx b pkt w = Inr w'"
  shows "asm_table (msg_ctxs w') = asm_table (msg_ctxs w)" and "trace w' = trace w @ capture_events pkt False w"
proof -
  let ?h = "\<lparr>hdr_ver = 0, hdr_dest = 0, hdr_src = 0, flags_seq_tag = 0\<rparr>"
  have rx: "rx_pkt pkt" using pkt z by (simp add: rx_pkt_def)
  have h: "read_hdr pkt = Inr ?h" using rx_pkt_hdr [OF rx] z by (simp add: nth_append)
  have R: "reassemble (asm_table (msg_ctxs w)) (max_message_size w) (rx_memory ?h pkt w) ?h
     (mctp_pktbuf_size pkt) (drop 4 (pktbuf_bytes pkt)) = (asm_table (msg_ctxs w), None)"
    using reassemble_zero_header no by simp
  obtain v cs h' where r: "mctp_bus_rx b pkt w = Inr v"
    "v = w\<lparr>msg_ctxs := cs, heap := h', trace := trace w @ capture_events pkt False w\<rparr>"
    "asm_table (msg_ctxs v) = asm_table (msg_ctxs w)"
    by (rule mmbi.bus_rx_accepts [OF ok rx h _ _ R]) (auto simp: mctp_rx_dest_is_local_def)
  then show "asm_table (msg_ctxs w') = asm_table (msg_ctxs w)" "trace w' = trace w @ capture_events pkt False w"
    using run by auto
qed

end
