(* ===== verification/Mmbi_Context.thy ===== *)
theory Mmbi_Context
  imports Mmbi_Endpoint
begin

unbundle bit_operations_syntax

text \<open>
  The context API of \<^verbatim>\<open>src/mmbi.c\<close>: opening a context (allocation, retries of the device, registration)
  and closing it, with the blocks of the heap each outcome holds.
\<close>

section \<open>The parts of the context\<close>

text \<open>Destroying an instance that has no bus.\<close>

lemma cleanup_fresh:
  "n_busses w = 0 \<Longrightarrow> (\<And>c. c \<in> set (msg_ctxs w) \<Longrightarrow> ctx_buf c = None) \<Longrightarrow> mctp_cleanup w = Inr (w\<lparr>n_busses := -1\<rparr>)"
proof -
  assume n: "n_busses w = 0" and c: "\<And>c. c \<in> set (msg_ctxs w) \<Longrightarrow> ctx_buf c = None"
  have "(\<forall>c\<in>set cs. ctx_buf c = None) \<Longrightarrow> cleanup_ctxs cs w = Inr w" for cs by (induction cs) simp_all
  then show ?thesis using n c by (simp add: mctp_cleanup_def)
qed

text \<open>The binding after \<open>mctp_mmbi_init\<close>, and after the device was opened with handle \<open>hv\<close> and
  packet buffer block \<open>pb\<close>.\<close>

definition mmbi_fresh :: "'d \<Rightarrow> 'd mmbi mctp_binding" where
  "mmbi_fresh d = \<lparr>b_name = BINDING_NAME, b_version = 1, b_bus = None, b_mctp = False,
     b_pkt_size = 65540, b_pkt_header = 0, b_pkt_trailer = 0, b_tx_storage = None, b_start = None, b_tx = None,
     b_control_rx = None, b_control_rx_data = 0,
     b_priv = \<lparr>rx_storage = None, tx_storage = None, memory_size = 0, device_handle = 0, mm_dev = d\<rparr>\<rparr>"

definition mmbi_open :: "'d win_api \<Rightarrow> u64 \<Rightarrow> nat \<Rightarrow> 'd \<Rightarrow> 'd mmbi mctp_binding" where
  "mmbi_open api hv pb d = (mmbi_fresh d)\<lparr>b_tx := Some (mctp_mmbi_tx api), b_start := Some Mctp_mmbi_start,
     b_tx_storage := Some (fresh_pktbuf pb 65540),
     b_priv := \<lparr>rx_storage = None, tx_storage = None, memory_size = 0, device_handle = hv, mm_dev = d\<rparr>\<rparr>"

lemma mmbi_open_new: "binding_new (mctp_mmbi_tx api) mmbi_ok 65540 (mmbi_open api hv pb d)"
  by (simp add: binding_new_def binding_ok_def mmbi_open_def mmbi_fresh_def mmbi_ok_def fresh_pktbuf_def pktbuf_storage_size_def)

lemma mctp_mmbi_init_eq:
  assumes "ops w = default_alloc_ops" and "heap_owns M (heap w)" and "h_ok (heap w) = (\<lambda>b n. True)"
  obtains b h where "mctp_mmbi_init w = Inr (Some b, set_binding b (mmbi_fresh (mm_dev (b_priv (bindings w b)))) (w\<lparr>heap := h\<rparr>))"
    and "heap_owns (add_mset b M) h" and "h_ok h = (\<lambda>b n. True)"
proof -
  obtain p h where a: "mctp_alloc default_alloc_ops SIZEOF_MMBI (heap w) = Inr (p, h)" "h_ok h = h_ok (heap w)"
    "heap_owns (case p of None \<Rightarrow> M | Some blk \<Rightarrow> add_mset blk M) h" "p = None \<longleftrightarrow> \<not> h_ok (heap w) (h_next (heap w)) SIZEOF_MMBI"
    by (rule default_alloc_owns [OF assms(2), of SIZEOF_MMBI]) (rule that)
  then obtain b where p: "p = Some b" using assms(3) by (cases p) auto
  show ?thesis using a p assms by (intro that [of b h]) (simp_all add: mctp_mmbi_init_def mmbi_fresh_def)
qed

lemma init_device_cases:
  assumes ops: "ops w = default_alloc_ops" and h: "heap_owns M (heap w)" "h_ok (heap w) = (\<lambda>b n. True)" and b: "bindings w b = mmbi_fresh d"
    and nz: "\<And>d. fst (CreateFileA api path d) \<noteq> 0"
  obtains (closed) d' where "mctp_mmbi_init_device api b path w = Inr (-1, set_binding b (mmbi_fresh d') w)"
      and "fst (CreateFileA api path d) = INVALID_HANDLE_VALUE"
  | (opened) hv pb d' h' where "mctp_mmbi_init_device api b path w = Inr (0, set_binding b (mmbi_open api hv pb d') (w\<lparr>heap := h'\<rparr>))"
      and "hv \<noteq> 0" and "hv \<noteq> INVALID_HANDLE_VALUE" and "heap_owns (add_mset pb M) h'" and "h_ok h' = (\<lambda>b n. True)"
      and "fst (CreateFileA api path d) \<noteq> INVALID_HANDLE_VALUE"
proof -
  obtain hv d' where c: "CreateFileA api path d = (hv, d')" by (cases "CreateFileA api path d")
  show ?thesis
  proof (cases "hv = INVALID_HANDLE_VALUE")
    case True
    then show ?thesis using c b by (intro closed [of d']) (simp_all add: mctp_mmbi_init_device_def mmbi_fresh_def Let_def)
  next
    case False
    obtain p h' where a: "mctp_alloc default_alloc_ops (MCTP_PKTBUF_SIZE 65536) (heap w) = Inr (p, h')" "h_ok h' = h_ok (heap w)"
      "heap_owns (case p of None \<Rightarrow> M | Some blk \<Rightarrow> add_mset blk M) h'"
      "p = None \<longleftrightarrow> \<not> h_ok (heap w) (h_next (heap w)) (MCTP_PKTBUF_SIZE 65536)"
      by (rule default_alloc_owns [OF h(1), of "MCTP_PKTBUF_SIZE 65536"]) (rule that)
    then obtain pb where p: "p = Some pb" using h(2) by (cases p) auto
    have "mctp_mmbi_init_device api b path w = Inr (0, set_binding b (mmbi_open api hv pb d') (w\<lparr>heap := h'\<rparr>))"
      using c b False a(1) p ops
      by (simp add: mctp_mmbi_init_device_def mmbi_fresh_def mmbi_open_def mmbi_install_def Let_def set_binding_def)
    moreover have "hv \<noteq> 0" using nz [of d] c by simp
    ultimately show ?thesis using False a p h(2) c by (intro opened [of hv pb d' h']) simp_all
  qed
qed

lemma open_retry_cases:
  assumes "ops w = default_alloc_ops" and "heap_owns M (heap w)" "h_ok (heap w) = (\<lambda>b n. True)" and "bindings w b = mmbi_fresh d"
    and nz: "\<And>d. fst (CreateFileA api path d) \<noteq> 0"
  shows "(\<exists>d'. open_retry api b path n w = Inr (set_binding b (mmbi_fresh d') w) \<and> (n = 0 \<or> (\<exists>d. fst (CreateFileA api path d) = INVALID_HANDLE_VALUE))) \<or>
     (\<exists>hv pb d' h'. open_retry api b path n w = Inr (set_binding b (mmbi_open api hv pb d') (w\<lparr>heap := h'\<rparr>)) \<and>
        hv \<noteq> 0 \<and> hv \<noteq> INVALID_HANDLE_VALUE \<and> heap_owns (add_mset pb M) h' \<and> h_ok h' = (\<lambda>b n. True) \<and>
        (\<exists>d. fst (CreateFileA api path d) \<noteq> INVALID_HANDLE_VALUE))"
  using assms(1-4)
proof (induction n arbitrary: w d)
  case 0
  have "set_binding b (mmbi_fresh d) w = w" using "0.prems"(4) by (simp add: set_binding_def fun_upd_idem)
  then show ?case by (metis open_retry.simps(1))
next
  case (Suc n)
  from Suc.prems nz show ?case
  proof (cases rule: init_device_cases)
    case (closed d')
    let ?w = "set_binding b (mmbi_fresh d') w"
    have again: "set_binding b x ?w = set_binding b x w" "set_binding b x (?w\<lparr>heap := h\<rparr>) = set_binding b x (w\<lparr>heap := h\<rparr>)" for x h
      by (simp_all add: set_binding_def)
    have "open_retry api b path (Suc n) w = open_retry api b path n ?w" using closed by simp
    then show ?thesis using Suc.IH [of ?w d'] Suc.prems closed(2) by (auto simp: again)
  next
    case (opened hv pb d' h')
    then have "open_retry api b path (Suc n) w = Inr (set_binding b (mmbi_open api hv pb d') (w\<lparr>heap := h'\<rparr>))" by simp
    then show ?thesis using opened(2-) by blast
  qed
qed

section \<open>Opening and closing a context\<close>

lemma mctp_init_eq:
  assumes "ops w = default_alloc_ops" and "heap_owns M (heap w)" and "h_ok (heap w) = (\<lambda>b n. True)"
  obtains m h where "mctp_init w = Inr (Some m, fresh_mctp (w\<lparr>heap := h\<rparr>))"
    and "heap_owns (add_mset m M) h" and "h_ok h = (\<lambda>b n. True)"
proof -
  obtain p h where a: "mctp_alloc default_alloc_ops SIZEOF_MCTP (heap w) = Inr (p, h)" "h_ok h = h_ok (heap w)"
    "heap_owns (case p of None \<Rightarrow> M | Some blk \<Rightarrow> add_mset blk M) h" "p = None \<longleftrightarrow> \<not> h_ok (heap w) (h_next (heap w)) SIZEOF_MCTP"
    by (rule default_alloc_owns [OF assms(2), of SIZEOF_MCTP]) (rule that)
  then obtain m where p: "p = Some m" using assms(3) by (cases p) auto
  show ?thesis using a p assms by (intro that [of m h]) (simp_all add: mctp_init_def mctp_setup_eq)
qed

lemma fresh_mctp_upd:
  "fresh_mctp (set_binding b x w) = set_binding b x (fresh_mctp w)" "fresh_mctp (w\<lparr>heap := h\<rparr>) = (fresh_mctp w)\<lparr>heap := h\<rparr>"
  by (simp_all add: fresh_mctp_def zero_mctp_def set_binding_def)

lemma set_binding_again:
  "set_binding b x (set_binding b y w) = set_binding b x w"
  "set_binding b x (w\<lparr>heap := h\<rparr>) = (set_binding b x w)\<lparr>heap := h\<rparr>"
  by (simp_all add: set_binding_def)

lemma free_block_ok:
  assumes "ops w = default_alloc_ops" and "heap_owns (add_mset blk M) (heap w)"
  obtains h where "free_block blk w = Inr (w\<lparr>heap := h\<rparr>)" and "heap_owns M h"
proof -
  obtain h where "mctp_free default_alloc_ops (Some blk) (heap w) = Inr h" "heap_owns M h"
    by (rule default_free_owns [OF assms(2)])
  then show ?thesis using assms(1) by (intro that [of h]) (simp_all add: free_block_def)
qed

lemma mmbi_destroy_ok:
  assumes "ops w = default_alloc_ops" and "heap_owns (add_mset b M) (heap w)"
  obtains h where "mctp_mmbi_destroy (Some b) w = Inr (w\<lparr>heap := h\<rparr>)" and "heap_owns M h"
proof -
  obtain h where "free_block b w = Inr (w\<lparr>heap := h\<rparr>)" "heap_owns M h" by (rule free_block_ok [OF assms])
  then show ?thesis by (intro that [of h]) (simp_all add: mctp_mmbi_destroy_def free_block_def)
qed

lemma mctp_destroy_ok:
  fixes w w' :: "'d mmbi_world"
  assumes "mctp_cleanup w = Inr w'" and "ops w' = default_alloc_ops" and "heap_owns (add_mset m M) (heap w')"
  obtains h where "mctp_destroy (Some m) w = Inr (w'\<lparr>heap := h\<rparr>)" and "heap_owns M h"
proof -
  obtain h where "free_block m w' = Inr (w'\<lparr>heap := h\<rparr>)" "heap_owns M h" by (rule free_block_ok [OF assms(2,3)])
  then show ?thesis using assms(1) by (intro that [of h]) (simp_all add: mctp_destroy_def free_block_def)
qed

text \<open>The instance and the binding, one after the other.\<close>

lemma init_parts:
  assumes ops: "ops w = default_alloc_ops" and h: "heap_owns M (heap w)" "h_ok (heap w) = (\<lambda>b n. True)"
  obtains m b d w1 h where "mctp_init w = Inr (Some m, w1)"
    and "mctp_mmbi_init w1 = Inr (Some b, set_binding b (mmbi_fresh d) (fresh_mctp (w\<lparr>heap := h\<rparr>)))"
    and "heap_owns (add_mset b (add_mset m M)) h" and "h_ok h = (\<lambda>b n. True)"
proof -
  obtain m h1 where i1: "mctp_init w = Inr (Some m, fresh_mctp (w\<lparr>heap := h1\<rparr>))"
    "heap_owns (add_mset m M) h1" "h_ok h1 = (\<lambda>b n. True)"
    by (rule mctp_init_eq [OF ops h])
  let ?w1 = "fresh_mctp (w\<lparr>heap := h1\<rparr>)"
  obtain b h2 where i2: "mctp_mmbi_init ?w1 = Inr (Some b, set_binding b (mmbi_fresh (mm_dev (b_priv (bindings ?w1 b)))) (?w1\<lparr>heap := h2\<rparr>))"
    "heap_owns (add_mset b (add_mset m M)) h2" "h_ok h2 = (\<lambda>b n. True)"
    by (rule mctp_mmbi_init_eq [of ?w1 "add_mset m M"]) (use ops i1 in auto)
  have "?w1\<lparr>heap := h2\<rparr> = fresh_mctp (w\<lparr>heap := h2\<rparr>)" by (simp add: fresh_mctp_upd)
  then show ?thesis using that [OF i1(1)] i2 by metis
qed

text \<open>Every open failed: the three allocations are undone.\<close>

lemma context_undo:
  assumes ops: "ops w = default_alloc_ops" and h: "heap_owns (add_mset b (add_mset m (add_mset c F))) (heap w)"
    and n: "n_busses w = 0" "msg_ctxs w = replicate 16 zero_ctx"
  obtains w1 w2 w3 where "mctp_mmbi_destroy (Some b) w = Inr w1" and "mctp_destroy (Some m) w1 = Inr w2"
    and "ops w2 = default_alloc_ops" and "free_block c w2 = Inr w3" and "heap_owns F (heap w3)"
proof -
  obtain h1 where d1: "mctp_mmbi_destroy (Some b) w = Inr (w\<lparr>heap := h1\<rparr>)" "heap_owns (add_mset m (add_mset c F)) h1"
    by (rule mmbi_destroy_ok [OF ops h])
  let ?w = "w\<lparr>heap := h1, n_busses := -1\<rparr>"
  have c: "mctp_cleanup (w\<lparr>heap := h1\<rparr>) = Inr ?w" using n by (subst cleanup_fresh) auto
  obtain h2 where d2: "mctp_destroy (Some m) (w\<lparr>heap := h1\<rparr>) = Inr (?w\<lparr>heap := h2\<rparr>)" "heap_owns (add_mset c F) h2"
    by (rule mctp_destroy_ok [OF c]) (use ops d1(2) in auto)
  obtain h3 where "free_block c (?w\<lparr>heap := h2\<rparr>) = Inr (?w\<lparr>heap := h2\<rparr>\<lparr>heap := h3\<rparr>)" "heap_owns F h3"
    by (rule free_block_ok [of "?w\<lparr>heap := h2\<rparr>" c F]) (use ops d2(2) in auto)
  then show ?thesis using ops by (intro that [OF d1(1) d2(1), of "?w\<lparr>heap := h3\<rparr>"]) simp_all
qed

definition context_ready :: "'d win_api \<Rightarrow> u8 \<Rightarrow> nat multiset \<Rightarrow> mmbi_context \<Rightarrow> 'd mmbi_world \<Rightarrow> bool" where
  "context_ready api eid F c w \<longleftrightarrow> (\<exists>m b pb. cx_mctp c = Some m \<and> cx_mmbi c = Some b \<and> cx_rx_cb c = None \<and>
     endpoint_ok (mctp_mmbi_tx api) mmbi_ok 65540 b ({#pb, b, m, cx_blk c#} + F) w \<and>
     has_device (b_priv (bindings w b)) \<and> bus_eid (bus_at w 0) = eid \<and>
     bus_state (bus_at w 0) = mctp_bus_state_tx_enabled \<and> message_rx w = mmbi_internal_rx_fn \<and> message_rx_data w = cx_blk c)"

lemma context_register:
  assumes ops: "ops w = default_alloc_ops" and h: "heap_owns M (heap w)" and b: "bindings w b = mmbi_open api hv pb d"
    and hv: "hv \<noteq> 0" "hv \<noteq> INVALID_HANDLE_VALUE"
  obtains w1 where "mctp_register_bus b eid (fresh_mctp w) = Inr (0, w1)"
    and "mctp_binding_set_tx_enabled b True w1 = Inr w1"
    and "endpoint_ok (mctp_mmbi_tx api) mmbi_ok 65540 b M w1" and "bus_eid (bus_at w1 0) = eid"
    and "bus_state (bus_at w1 0) = mctp_bus_state_tx_enabled" and "has_device (b_priv (bindings w1 b))"
proof -
  have new: "binding_new (mctp_mmbi_tx api) mmbi_ok 65540 (bindings w b)" using b mmbi_open_new by simp
  have g: "good_ops (ops w)" using ops by simp
  obtain w1 where r: "mctp_register_bus b eid (fresh_mctp w) = Inr (0, w1)" "endpoint_ok (mctp_mmbi_tx api) mmbi_ok 65540 b M w1"
    "bus_at w1 0 = zero_bus\<lparr>bus_mctp := True, bus_binding := Some b, bus_eid := eid, bus_state := mctp_bus_state_tx_enabled\<rparr>"
    "bindings w1 = (bindings w)(b := (bindings w b)\<lparr>b_bus := Some 0, b_mctp := True\<rparr>)"
    by (rule register_ok [OF new g h, of eid]) (rule that)
  have "has_device (b_priv (bindings w1 b))" using r(4) b hv by (simp add: mmbi_open_def has_device_def)
  then show ?thesis using r by (intro that [of w1]) (simp_all add: mctp_binding_set_tx_enabled_def)
qed

text \<open>The common parts of setting up: the block of the context, the instance and the binding; and the
  registration once the device is open.\<close>

lemma start_parts:
  assumes ops: "ops w = default_alloc_ops" and h: "heap_owns F (heap w)" "h_ok (heap w) = (\<lambda>b n. True)"
  obtains cb h0 m b d w1 h2 where "mctp_alloc default_alloc_ops n (heap w) = Inr (Some cb, h0)"
    and "mctp_init (w\<lparr>heap := h0\<rparr>) = Inr (Some m, w1)"
    and "mctp_mmbi_init w1 = Inr (Some b, set_binding b (mmbi_fresh d) (fresh_mctp (w\<lparr>heap := h2\<rparr>)))"
    and "heap_owns (add_mset b (add_mset m (add_mset cb F))) h2" and "h_ok h2 = (\<lambda>b n. True)"
proof -
  obtain p h0 where a0: "mctp_alloc default_alloc_ops n (heap w) = Inr (p, h0)" "h_ok h0 = h_ok (heap w)"
    "heap_owns (case p of None \<Rightarrow> F | Some blk \<Rightarrow> add_mset blk F) h0" "p = None \<longleftrightarrow> \<not> h_ok (heap w) (h_next (heap w)) n"
    by (rule default_alloc_owns [OF h(1), of n]) (rule that)
  then obtain cb where p: "p = Some cb" using h(2) by (cases p) auto
  let ?w0 = "w\<lparr>heap := h0\<rparr>"
  obtain m b d w1 h2 where "mctp_init ?w0 = Inr (Some m, w1)"
    "mctp_mmbi_init w1 = Inr (Some b, set_binding b (mmbi_fresh d) (fresh_mctp (?w0\<lparr>heap := h2\<rparr>)))"
    "heap_owns (add_mset b (add_mset m (add_mset cb F))) h2" "h_ok h2 = (\<lambda>b n. True)"
    by (rule init_parts [of ?w0 "add_mset cb F"]) (use ops a0 p h(2) in auto)
  then show ?thesis using a0(1) p by (intro that [of cb h0 m w1 b d h2]) simp_all
qed

lemma open_registers:
  assumes ops: "ops w = default_alloc_ops" and hv: "hv \<noteq> 0" "hv \<noteq> INVALID_HANDLE_VALUE" and h': "heap_owns (add_mset pb M) h'"
  obtains w4 where "mctp_register_bus b eid (set_binding b (mmbi_open api hv pb d')
        (set_binding b (mmbi_fresh d) (fresh_mctp (w\<lparr>heap := h2\<rparr>))\<lparr>heap := h'\<rparr>)) = Inr (0, w4)"
    and "mctp_binding_set_tx_enabled b True w4 = Inr w4"
    and "endpoint_ok (mctp_mmbi_tx api) mmbi_ok 65540 b (add_mset pb M) (snd (mctp_set_rx_all f u w4))"
    and "bus_eid (bus_at w4 0) = eid" and "bus_state (bus_at w4 0) = mctp_bus_state_tx_enabled" and "has_device (b_priv (bindings w4 b))"
proof -
  let ?v = "set_binding b (mmbi_open api hv pb d') (w\<lparr>heap := h'\<rparr>)"
  have w3: "set_binding b (mmbi_open api hv pb d') (set_binding b (mmbi_fresh d) (fresh_mctp (w\<lparr>heap := h2\<rparr>))\<lparr>heap := h'\<rparr>) = fresh_mctp ?v"
    by (simp add: fresh_mctp_upd set_binding_again)
  obtain w4 where r: "mctp_register_bus b eid (fresh_mctp ?v) = Inr (0, w4)" "mctp_binding_set_tx_enabled b True w4 = Inr w4"
    "endpoint_ok (mctp_mmbi_tx api) mmbi_ok 65540 b (add_mset pb M) w4" "bus_eid (bus_at w4 0) = eid"
    "bus_state (bus_at w4 0) = mctp_bus_state_tx_enabled" "has_device (b_priv (bindings w4 b))"
    by (rule context_register [of ?v "add_mset pb M" b api hv pb d' eid]) (use ops hv h' in auto)
  show ?thesis
    by (rule that [OF r(1) [folded w3] r(2) endpoint_ok_config(3) [OF r(3)] r(4-6)])
qed

lemma context_init_cases:
  assumes ops: "ops w = default_alloc_ops" and h: "heap_owns F (heap w)" "h_ok (heap w) = (\<lambda>b n. True)"
    and nz: "\<And>d. fst (CreateFileA api path d) \<noteq> 0"
  shows "(\<exists>w'. mctp_mmbi_context_init api path eid w = Inr (None, w') \<and> heap_owns F (heap w') \<and>
        (\<exists>d. fst (CreateFileA api path d) = INVALID_HANDLE_VALUE)) \<or>
     (\<exists>c w'. mctp_mmbi_context_init api path eid w = Inr (Some c, w') \<and> context_ready api eid F c w' \<and>
        (\<exists>d. fst (CreateFileA api path d) \<noteq> INVALID_HANDLE_VALUE))"
proof -
  obtain cb h0 m b d w1 h2 where a0: "mctp_alloc default_alloc_ops SIZEOF_MMBI_CONTEXT (heap w) = Inr (Some cb, h0)"
    and i: "mctp_init (w\<lparr>heap := h0\<rparr>) = Inr (Some m, w1)"
      "mctp_mmbi_init w1 = Inr (Some b, set_binding b (mmbi_fresh d) (fresh_mctp (w\<lparr>heap := h2\<rparr>)))"
      "heap_owns (add_mset b (add_mset m (add_mset cb F))) h2" "h_ok h2 = (\<lambda>b n. True)"
    by (rule start_parts [OF ops h])
  let ?M = "add_mset b (add_mset m (add_mset cb F))"
  let ?w2 = "set_binding b (mmbi_fresh d) (fresh_mctp (w\<lparr>heap := h2\<rparr>))"
  have run: "mctp_mmbi_context_init api path eid w = rbind (open_retry api b path 5 ?w2) (\<lambda>w.
      if device_handle (b_priv (bindings w b)) = 0
      then rbind (mctp_mmbi_destroy (Some b) w) (\<lambda>w. rbind (mctp_destroy (Some m) w) (\<lambda>w.
             rbind (free_block cb w) (\<lambda>w. Inr (None, w))))
      else rbind (mctp_register_bus b eid w) (\<lambda>(rc, w). rbind (mctp_binding_set_tx_enabled b True w) (\<lambda>w.
             let (rc, w) = mctp_set_rx_all mmbi_internal_rx_fn cb w
             in Inr (Some \<lparr>cx_blk = cb, cx_mctp = Some m, cx_mmbi = Some b, cx_rx_cb = None, cx_user_ctx = 0, cx_debug = False\<rparr>, w))))"
    using a0 ops i(1,2) by (simp add: mctp_mmbi_context_init_def)
  have "(\<exists>d'. open_retry api b path 5 ?w2 = Inr (set_binding b (mmbi_fresh d') ?w2) \<and>
        ((5 :: nat) = 0 \<or> (\<exists>d. fst (CreateFileA api path d) = INVALID_HANDLE_VALUE))) \<or>
     (\<exists>hv pb d' h'. open_retry api b path 5 ?w2 = Inr (set_binding b (mmbi_open api hv pb d') (?w2\<lparr>heap := h'\<rparr>)) \<and>
        hv \<noteq> 0 \<and> hv \<noteq> INVALID_HANDLE_VALUE \<and> heap_owns (add_mset pb ?M) h' \<and> h_ok h' = (\<lambda>b n. True) \<and>
        (\<exists>d. fst (CreateFileA api path d) \<noteq> INVALID_HANDLE_VALUE))"
    by (rule open_retry_cases) (use ops i nz in auto)
  moreover have "(5 :: nat) \<noteq> 0" by simp
  ultimately consider (closed) d' where "open_retry api b path 5 ?w2 = Inr (set_binding b (mmbi_fresh d') ?w2)" "\<exists>d. fst (CreateFileA api path d) = INVALID_HANDLE_VALUE"
    | (opened) hv pb d' h' where
      "open_retry api b path 5 ?w2 = Inr (set_binding b (mmbi_open api hv pb d') (?w2\<lparr>heap := h'\<rparr>))"
      "hv \<noteq> 0" "hv \<noteq> INVALID_HANDLE_VALUE" "heap_owns (add_mset pb ?M) h'" "\<exists>d. fst (CreateFileA api path d) \<noteq> INVALID_HANDLE_VALUE"
    by blast
  then show ?thesis
  proof cases
    case (closed d')
    note o = closed(1)
    let ?w3 = "set_binding b (mmbi_fresh d') ?w2"
    obtain w4 w5 w6 where "mctp_mmbi_destroy (Some b) ?w3 = Inr w4" "mctp_destroy (Some m) w4 = Inr w5"
      "free_block cb w5 = Inr w6" "heap_owns F (heap w6)"
      by (rule context_undo [of ?w3 b m cb F]) (use ops i(3) in auto)
    then show ?thesis using run o closed(2) by (simp add: mmbi_fresh_def)
  next
    case (opened hv pb d' h')
    note o = opened(1-4)
    obtain w4 where r: "mctp_register_bus b eid (set_binding b (mmbi_open api hv pb d') (?w2\<lparr>heap := h'\<rparr>)) = Inr (0, w4)"
      "mctp_binding_set_tx_enabled b True w4 = Inr w4"
      "endpoint_ok (mctp_mmbi_tx api) mmbi_ok 65540 b (add_mset pb ?M) (snd (mctp_set_rx_all mmbi_internal_rx_fn cb w4))"
      "bus_eid (bus_at w4 0) = eid" "bus_state (bus_at w4 0) = mctp_bus_state_tx_enabled" "has_device (b_priv (bindings w4 b))"
      by (rule open_registers [OF ops o(2-4)])
    let ?c = "\<lparr>cx_blk = cb, cx_mctp = Some m, cx_mmbi = Some b, cx_rx_cb = None, cx_user_ctx = 0, cx_debug = False\<rparr>"
    let ?w5 = "snd (mctp_set_rx_all mmbi_internal_rx_fn cb w4)"
    have "mctp_mmbi_context_init api path eid w = Inr (Some ?c, ?w5)"
      using run o(1,2) r(1,2) by (simp add: mmbi_open_def mctp_set_rx_all_def)
    moreover have "context_ready api eid F ?c ?w5"
      using r(3-6)
      by (auto simp: context_ready_def mctp_set_rx_all_def bus_at_def)
    ultimately show ?thesis using opened(5) by blast
  qed
qed

text \<open>Closing a context gives back the context, the instance and the binding, but neither the
  packet buffer of the binding nor a message that is still pending.\<close>

lemma context_destroy_ok:
  assumes ok: "endpoint_ok (mctp_mmbi_tx api) mmbi_ok mtu b ({#b, m, cx_blk c#} + F) w" and ops: "ops w = default_alloc_ops"
    and c: "cx_mctp c = Some m" "cx_mmbi c = Some b"
  shows "\<exists>w'. mctp_mmbi_context_destroy (Some c) w = Inr w' \<and> heap_owns (own (tx_msg (bus_at w 0)) + F) (heap w')"
proof -
  let ?u = "mctp_unregister_bus b w"
  let ?T = "own (tx_msg (bus_at w 0)) + F"
  have u: "ops ?u = default_alloc_ops" "heap ?u = heap w" "msg_ctxs ?u = msg_ctxs w" "n_busses ?u = 0"
    using ops by (simp_all add: mctp_unregister_bus_def)
  have h: "heap_owns (add_mset b (ctx_own (msg_ctxs w) + add_mset m (add_mset (cx_blk c) ?T))) (heap ?u)"
    using ok u by (simp add: endpoint_ok_def owned_def ac_simps)
  obtain h1 where d1: "mctp_mmbi_destroy (Some b) ?u = Inr (?u\<lparr>heap := h1\<rparr>)"
    "heap_owns (ctx_own (msg_ctxs w) + add_mset m (add_mset (cx_blk c) ?T)) h1"
    by (rule mmbi_destroy_ok [OF u(1) h])
  obtain h2 where cl: "cleanup_ctxs (msg_ctxs w) (?u\<lparr>heap := h1\<rparr>) = Inr (?u\<lparr>heap := h2\<rparr>)"
    and h2: "heap_owns (add_mset m (add_mset (cx_blk c) ?T)) h2"
    using cleanup_ctxs_ok [of "?u\<lparr>heap := h1\<rparr>" "msg_ctxs w" "add_mset m (add_mset (cx_blk c) ?T)"] d1(2) u by auto
  let ?v = "?u\<lparr>heap := h2, n_busses := -1\<rparr>"
  have "mctp_cleanup (?u\<lparr>heap := h1\<rparr>) = Inr ?v" using cl u by (simp add: mctp_cleanup_def)
  then obtain h3 where d3: "mctp_destroy (Some m) (?u\<lparr>heap := h1\<rparr>) = Inr (?v\<lparr>heap := h3\<rparr>)"
    "heap_owns (add_mset (cx_blk c) ?T) h3"
    by (rule mctp_destroy_ok) (use u h2 in auto)
  obtain h4 where "free_block (cx_blk c) (?v\<lparr>heap := h3\<rparr>) = Inr (?v\<lparr>heap := h3\<rparr>\<lparr>heap := h4\<rparr>)" "heap_owns ?T h4"
    by (rule free_block_ok [of "?v\<lparr>heap := h3\<rparr>"]) (use u d3 in auto)
  then show ?thesis using d1(1) d3(1) c by (simp add: mctp_mmbi_context_destroy_def)
qed

section \<open>When there is no memory for the packet buffer\<close>

lemma open_retry_nomem:
  assumes "ops w = default_alloc_ops" and "\<And>k. \<not> h_ok (heap w) k (MCTP_PKTBUF_SIZE 65536)"
    and cf: "\<And>d. fst (CreateFileA api path d) \<noteq> 0 \<and> fst (CreateFileA api path d) \<noteq> INVALID_HANDLE_VALUE"
    and "b_tx_storage (bindings w b) = None" and "n = 0 \<Longrightarrow> device_handle (b_priv (bindings w b)) \<noteq> 0"
  shows "\<exists>w'. open_retry api b path n w = Inr w' \<and> device_handle (b_priv (bindings w' b)) \<noteq> 0 \<and>
     b_tx_storage (bindings w' b) = None \<and> n_busses w' = n_busses w"
  using assms(1,2,4,5)
proof (induction n arbitrary: w)
  case 0
  then show ?case by simp
next
  case (Suc n)
  obtain hv d where c: "CreateFileA api path (mm_dev (b_priv (bindings w b))) = (hv, d)"
    by (cases "CreateFileA api path (mm_dev (b_priv (bindings w b)))")
  then have hv: "hv \<noteq> 0" "hv \<noteq> INVALID_HANDLE_VALUE" using cf [of "mm_dev (b_priv (bindings w b))"] by simp_all
  have al: "mctp_alloc default_alloc_ops (MCTP_PKTBUF_SIZE 65536) (heap w) = Inr (None, (heap w)\<lparr>h_next := Suc (h_next (heap w))\<rparr>)"
    using Suc.prems(2) by (simp add: mctp_alloc_def default_alloc_ops_def libc_malloc_def Let_def)
  obtain w1 where w1: "mctp_mmbi_init_device api b path w = Inr (- ENOMEM, w1)" "ops w1 = default_alloc_ops"
    "h_ok (heap w1) = h_ok (heap w)" "b_tx_storage (bindings w1 b) = None" "device_handle (b_priv (bindings w1 b)) = hv"
    "n_busses w1 = n_busses w"
    using c hv(2) al Suc.prems(1) by (simp add: mctp_mmbi_init_device_def mmbi_install_def Let_def)
  have "\<exists>w'. open_retry api b path n w1 = Inr w' \<and> device_handle (b_priv (bindings w' b)) \<noteq> 0 \<and>
     b_tx_storage (bindings w' b) = None \<and> n_busses w' = n_busses w1"
    by (rule Suc.IH) (use w1 hv Suc.prems(2) in simp_all)
  then show ?case using w1 by simp
qed

lemma default_alloc_yes:
  "h_ok h (h_next h) n \<Longrightarrow> mctp_alloc default_alloc_ops n h =
     Inr (Some (h_next h), h\<lparr>h_next := Suc (h_next h), h_live := insert (h_next h) (h_live h)\<rparr>)"
  by (simp add: mctp_alloc_def default_alloc_ops_def libc_malloc_def Let_def)

lemma context_init_asserts:
  assumes ops: "ops w = default_alloc_ops" and mem: "h_ok (heap w) = (\<lambda>k n. n \<noteq> MCTP_PKTBUF_SIZE 65536)"
    and cf: "\<And>d. fst (CreateFileA api path d) \<noteq> 0 \<and> fst (CreateFileA api path d) \<noteq> INVALID_HANDLE_VALUE"
  shows "mctp_mmbi_context_init api path eid w = Inl Assert_failed"
proof -
  let ?c = "h_next (heap w)"
  let ?h1 = "(heap w)\<lparr>h_next := Suc (Suc ?c), h_live := insert (Suc ?c) (insert ?c (h_live (heap w)))\<rparr>"
  let ?w1 = "fresh_mctp (w\<lparr>heap := ?h1\<rparr>)"
  let ?b = "Suc (Suc ?c)"
  let ?w2 = "set_binding ?b (mmbi_fresh (mm_dev (b_priv (bindings w ?b))))
    (?w1\<lparr>heap := ?h1\<lparr>h_next := Suc ?b, h_live := insert ?b (h_live ?h1)\<rparr>\<rparr>)"
  have i1: "mctp_init (w\<lparr>heap := (heap w)\<lparr>h_next := Suc ?c, h_live := insert ?c (h_live (heap w))\<rparr>\<rparr>) = Inr (Some (Suc ?c), ?w1)"
    using ops mem by (simp add: mctp_init_def default_alloc_yes mctp_setup_eq)
  have i2: "mctp_mmbi_init ?w1 = Inr (Some ?b, ?w2)"
    using ops mem by (simp add: mctp_mmbi_init_def default_alloc_yes mmbi_fresh_def)
  have "\<exists>w'. open_retry api ?b path 5 ?w2 = Inr w' \<and> device_handle (b_priv (bindings w' ?b)) \<noteq> 0 \<and>
     b_tx_storage (bindings w' ?b) = None \<and> n_busses w' = n_busses ?w2"
    by (rule open_retry_nomem) (use ops mem cf in \<open>simp_all add: mmbi_fresh_def\<close>)
  then obtain w' where o: "open_retry api ?b path 5 ?w2 = Inr w'" "device_handle (b_priv (bindings w' ?b)) \<noteq> 0"
    "b_tx_storage (bindings w' ?b) = None" "n_busses w' = 0" by auto
  then have "mctp_register_bus ?b eid w' = Inl Assert_failed" by (simp add: mctp_register_bus_def)
  then show ?thesis using ops mem i1 i2 o by (simp add: mctp_mmbi_context_init_def default_alloc_yes)
qed

end
