(* ===== verification/Mctp_Transport.thy ===== *)
theory Mctp_Transport
  imports Mmbi_Context
begin

text \<open>
  The transport layer of \<^verbatim>\<open>src/transport.c\<close>: a second user-level API over the MMBI binding. It
  differs from the context API of \<^verbatim>\<open>src/mmbi.c\<close> in that it allocates its own structure with the C
  library directly, opens the device once, and gives up when that fails.
\<close>

section \<open>Operations\<close>

record mctp_transport =
  tp_blk :: nat
  tp_mctp :: "nat option"
  tp_mmbi :: "nat option"
  tp_rx_cb :: fnptr
  tp_user_context :: ptr

definition SIZEOF_TRANSPORT :: u64 where [simp]: "SIZEOF_TRANSPORT = 32"

text \<open>The code pointer of \<open>transport_rx_handler\<close>, and what a call of it does.\<close>

definition transport_rx_handler_fn :: fnptr where "transport_rx_handler_fn = Some 2"

definition transport_rx_handler ::
    "mctp_transport option \<Rightarrow> u8 \<Rightarrow> bool \<Rightarrow> u8 \<Rightarrow> bytes \<Rightarrow> u64 \<Rightarrow> (nat \<times> u8 \<times> bytes \<times> u64 \<times> ptr) option" where
  "transport_rx_handler ctx eid tag_owner msg_tag msg len =
     (case ctx of None \<Rightarrow> None
      | Some c \<Rightarrow> map_option (\<lambda>cb. (cb, eid, msg, len, tp_user_context c)) (tp_rx_cb c))"

definition c_free :: "nat \<Rightarrow> 'd mmbi_world \<Rightarrow> 'd mmbi_world res" where
  "c_free blk w = rbind (libc_free (Some blk) (heap w)) (\<lambda>h. Inr (w\<lparr>heap := h\<rparr>))"

definition mctp_transport_init ::
    "'d win_api \<Rightarrow> string \<Rightarrow> u8 \<Rightarrow> 'd mmbi_world \<Rightarrow> (mctp_transport option \<times> 'd mmbi_world) res" where
  "mctp_transport_init api device_path local_eid w =
     (let (p, h) = libc_malloc SIZEOF_TRANSPORT (heap w); w = w\<lparr>heap := h\<rparr>
      in case p of None \<Rightarrow> Inr (None, w)
      | Some tblk \<Rightarrow>
          rbind (mctp_init w) (\<lambda>(mctp, w).
          if mctp = None then rbind (c_free tblk w) (\<lambda>w. Inr (None, w))
          else rbind (mctp_mmbi_init w) (\<lambda>(mmbi, w).
            case mmbi of
              None \<Rightarrow> rbind (mctp_destroy mctp w) (\<lambda>w. rbind (c_free tblk w) (\<lambda>w. Inr (None, w)))
            | Some b \<Rightarrow>
                rbind (mctp_mmbi_init_device api b device_path w) (\<lambda>(rc, w).
                if rc \<noteq> 0
                then rbind (mctp_mmbi_destroy mmbi w) (\<lambda>w.
                     rbind (mctp_destroy mctp w) (\<lambda>w.
                     rbind (c_free tblk w) (\<lambda>w. Inr (None, w))))
                else rbind (mctp_register_bus b local_eid w) (\<lambda>(rc, w).
                     rbind (mctp_binding_set_tx_enabled b True w) (\<lambda>w.
                     let (rc, w) = mctp_set_rx_all transport_rx_handler_fn tblk w
                     in Inr (Some \<lparr>tp_blk = tblk, tp_mctp = mctp, tp_mmbi = mmbi, tp_rx_cb = None,
                                   tp_user_context = 0\<rparr>, w)))))))"

definition mctp_transport_destroy :: "mctp_transport option \<Rightarrow> 'd mmbi_world \<Rightarrow> 'd mmbi_world res" where
  "mctp_transport_destroy ctx w =
     (case ctx of None \<Rightarrow> Inr w
      | Some c \<Rightarrow>
          let w = (case (tp_mctp c, tp_mmbi c) of (Some _, Some b) \<Rightarrow> mctp_unregister_bus b w | _ \<Rightarrow> w)
          in rbind (mctp_mmbi_destroy (tp_mmbi c) w) (\<lambda>w.
             rbind (if tp_mctp c = None then Inr w else mctp_destroy (tp_mctp c) w) (\<lambda>w.
               c_free (tp_blk c) w)))"

definition mctp_transport_set_rx_callback ::
    "fnptr \<Rightarrow> ptr \<Rightarrow> mctp_transport option \<Rightarrow> mctp_transport option" where
  "mctp_transport_set_rx_callback cb user_context ctx =
     map_option (\<lambda>c. c\<lparr>tp_rx_cb := cb, tp_user_context := user_context\<rparr>) ctx"

definition mctp_transport_send ::
    "mctp_transport option \<Rightarrow> u8 \<Rightarrow> bytes \<Rightarrow> u64 \<Rightarrow> 'd mmbi_world \<Rightarrow> (int \<times> 'd mmbi_world) res" where
  "mctp_transport_send ctx dst_eid data len w =
     (case ctx of None \<Rightarrow> Inr (-1, w)
      | Some c \<Rightarrow> if tp_mctp c = None then Inr (-1, w) else mctp_message_tx dst_eid False 0 data len w)"

definition mctp_transport_poll ::
    "'d win_api \<Rightarrow> mctp_transport option \<Rightarrow> 'd mmbi_world \<Rightarrow> (int \<times> 'd mmbi_world) res" where
  "mctp_transport_poll api ctx w =
     (case ctx of None \<Rightarrow> Inr (-1, w)
      | Some c \<Rightarrow> (case tp_mmbi c of None \<Rightarrow> Inr (-1, w) | Some b \<Rightarrow> mctp_mmbi_poll api b w))"

section \<open>Opening a transport\<close>

lemma c_free_default: "ops w = default_alloc_ops \<Longrightarrow> c_free blk w = free_block blk w"
  by (simp add: c_free_def free_block_def mctp_free_def default_alloc_ops_def)

definition transport_ready :: "'d win_api \<Rightarrow> u8 \<Rightarrow> nat multiset \<Rightarrow> mctp_transport \<Rightarrow> 'd mmbi_world \<Rightarrow> bool" where
  "transport_ready api eid F c w \<longleftrightarrow> (\<exists>m b pb. tp_mctp c = Some m \<and> tp_mmbi c = Some b \<and> tp_rx_cb c = None \<and>
     endpoint_ok (mctp_mmbi_tx api) mmbi_ok 65540 b ({#pb, b, m, tp_blk c#} + F) w \<and>
     has_device (b_priv (bindings w b)) \<and> bus_eid (bus_at w 0) = eid \<and>
     bus_state (bus_at w 0) = mctp_bus_state_tx_enabled \<and> message_rx w = transport_rx_handler_fn \<and> message_rx_data w = tp_blk c)"

lemma transport_init_cases:
  assumes ops: "ops w = default_alloc_ops" and h: "heap_owns F (heap w)" "h_ok (heap w) = (\<lambda>b n. True)"
    and nz: "\<And>d. fst (CreateFileA api path d) \<noteq> 0"
  shows "(\<exists>w'. mctp_transport_init api path eid w = Inr (None, w') \<and> heap_owns F (heap w') \<and>
        (\<exists>d. fst (CreateFileA api path d) = INVALID_HANDLE_VALUE)) \<or>
     (\<exists>c w'. mctp_transport_init api path eid w = Inr (Some c, w') \<and> transport_ready api eid F c w' \<and>
        (\<exists>d. fst (CreateFileA api path d) \<noteq> INVALID_HANDLE_VALUE))"
proof -
  obtain cb h0 m b d w1 h2 where a0: "mctp_alloc default_alloc_ops SIZEOF_TRANSPORT (heap w) = Inr (Some cb, h0)"
    and i: "mctp_init (w\<lparr>heap := h0\<rparr>) = Inr (Some m, w1)"
      "mctp_mmbi_init w1 = Inr (Some b, set_binding b (mmbi_fresh d) (fresh_mctp (w\<lparr>heap := h2\<rparr>)))"
      "heap_owns (add_mset b (add_mset m (add_mset cb F))) h2" "h_ok h2 = (\<lambda>b n. True)"
    by (rule start_parts [OF ops h])
  have lm: "libc_malloc SIZEOF_TRANSPORT (heap w) = (Some cb, h0)"
    using a0 by (simp add: mctp_alloc_def default_alloc_ops_def)
  let ?M = "add_mset b (add_mset m (add_mset cb F))"
  let ?w2 = "set_binding b (mmbi_fresh d) (fresh_mctp (w\<lparr>heap := h2\<rparr>))"
  have w2: "ops ?w2 = default_alloc_ops" "heap_owns ?M (heap ?w2)" "h_ok (heap ?w2) = (\<lambda>b n. True)"
    "bindings ?w2 b = mmbi_fresh d" using ops i by simp_all
  have run: "mctp_transport_init api path eid w = rbind (mctp_mmbi_init_device api b path ?w2) (\<lambda>(rc, w).
      if rc \<noteq> 0
      then rbind (mctp_mmbi_destroy (Some b) w) (\<lambda>w. rbind (mctp_destroy (Some m) w) (\<lambda>w.
             rbind (c_free cb w) (\<lambda>w. Inr (None, w))))
      else rbind (mctp_register_bus b eid w) (\<lambda>(rc, w). rbind (mctp_binding_set_tx_enabled b True w) (\<lambda>w.
             let (rc, w) = mctp_set_rx_all transport_rx_handler_fn cb w
             in Inr (Some \<lparr>tp_blk = cb, tp_mctp = Some m, tp_mmbi = Some b, tp_rx_cb = None, tp_user_context = 0\<rparr>, w))))"
    using lm ops i(1,2) by (simp add: mctp_transport_init_def)
  from w2 nz show ?thesis
  proof (cases rule: init_device_cases)
    case (closed d')
    let ?w3 = "set_binding b (mmbi_fresh d') ?w2"
    obtain w4 w5 w6 where "mctp_mmbi_destroy (Some b) ?w3 = Inr w4" "mctp_destroy (Some m) w4 = Inr w5"
      "ops w5 = default_alloc_ops" "free_block cb w5 = Inr w6" "heap_owns F (heap w6)"
      by (rule context_undo [of ?w3 b m cb F]) (use ops i(3) in auto)
    then show ?thesis using run closed by (auto simp: c_free_default)
  next
    case (opened hv pb d' h')
    obtain w4 where r: "mctp_register_bus b eid (set_binding b (mmbi_open api hv pb d') (?w2\<lparr>heap := h'\<rparr>)) = Inr (0, w4)"
      "mctp_binding_set_tx_enabled b True w4 = Inr w4"
      "endpoint_ok (mctp_mmbi_tx api) mmbi_ok 65540 b (add_mset pb ?M) (snd (mctp_set_rx_all transport_rx_handler_fn cb w4))"
      "bus_eid (bus_at w4 0) = eid" "bus_state (bus_at w4 0) = mctp_bus_state_tx_enabled" "has_device (b_priv (bindings w4 b))"
      by (rule open_registers [OF ops]) (use opened in auto)
    let ?c = "\<lparr>tp_blk = cb, tp_mctp = Some m, tp_mmbi = Some b, tp_rx_cb = None, tp_user_context = 0\<rparr>"
    let ?w5 = "snd (mctp_set_rx_all transport_rx_handler_fn cb w4)"
    have "mctp_transport_init api path eid w = Inr (Some ?c, ?w5)"
      using run opened(1) r(1,2) by (simp add: mctp_set_rx_all_def)
    moreover have "transport_ready api eid F ?c ?w5"
      using r(3-6)
      by (auto simp: transport_ready_def mctp_set_rx_all_def bus_at_def)
    ultimately show ?thesis using opened(6) by blast
  qed
qed

end
