(* ===== verification/Mmbi_Driver.thy ===== *)
theory Mmbi_Driver
  imports Mctp_Prelude
begin

text \<open>
  The kernel driver that connects the two sides: \<^verbatim>\<open>windows_driver/MmbiDriver.c\<close>. Two ring buffers
  of one megabyte, one per direction, and the read and write handlers of the two devices. \<open>ULONG\<close>
  is \<open>32 word\<close>; the array is a function from index to byte, and \<open>RtlCopyMemory\<close> is checked against
  its size. The framework calls that hand over the request buffer are parameters: the handlers take
  their status and the buffer.

  The locale \<open>byte_fifo\<close> is what the users of a ring rely on: a queue of bytes with a capacity,
  writes that take what fits, reads that return what is there. It is interpreted for the ring. The relation
  \<open>drv_run\<close> holds the histories of requests of both devices, in any order.
\<close>

section \<open>Ring buffers\<close>

definition RING_BUFFER_SIZE :: u32 where "RING_BUFFER_SIZE = 1024 * 1024"

record mmbi_ring =
  Buffer :: "nat \<Rightarrow> u8"
  WriteIdx :: u32
  ReadIdx :: u32
  DataAvailable :: u32

text \<open>\<open>RtlCopyMemory\<close> into and out of the array.\<close>

definition copy_in :: "nat \<Rightarrow> bytes \<Rightarrow> mmbi_ring \<Rightarrow> mmbi_ring res" where
  "copy_in off bs r =
     rbind (check Out_of_bounds (off + length bs \<le> unat RING_BUFFER_SIZE)) (\<lambda>_.
       Inr (r\<lparr>Buffer := (\<lambda>i. if off \<le> i \<and> i < off + length bs then bs ! (i - off) else Buffer r i)\<rparr>))"

definition copy_out :: "nat \<Rightarrow> nat \<Rightarrow> mmbi_ring \<Rightarrow> bytes res" where
  "copy_out off n r =
     rbind (check Out_of_bounds (off + n \<le> unat RING_BUFFER_SIZE)) (\<lambda>_.
       Inr (map (Buffer r) [off..<off + n]))"

definition RingBufferWrite :: "bytes \<Rightarrow> u32 \<Rightarrow> mmbi_ring \<Rightarrow> (u32 \<times> mmbi_ring) res" where
  "RingBufferWrite Data Length r =
     (let spaceFree = RING_BUFFER_SIZE - DataAvailable r;
          toWrite = (if Length > spaceFree then spaceFree else Length)
      in if toWrite = 0 then Inr (0, r)
         else let firstChunk = RING_BUFFER_SIZE - WriteIdx r in
           rbind
             (if toWrite \<le> firstChunk
              then rbind (mem_read Data 0 (unat toWrite)) (\<lambda>bs.
                   rbind (copy_in (unat (WriteIdx r)) bs r) (\<lambda>r.
                     Inr (r\<lparr>WriteIdx := (WriteIdx r + toWrite) mod RING_BUFFER_SIZE\<rparr>)))
              else rbind (mem_read Data 0 (unat firstChunk)) (\<lambda>bs.
                   rbind (copy_in (unat (WriteIdx r)) bs r) (\<lambda>r.
                   let secondChunk = toWrite - firstChunk in
                   rbind (mem_read Data (unat firstChunk) (unat secondChunk)) (\<lambda>bs2.
                   rbind (copy_in 0 bs2 r) (\<lambda>r. Inr (r\<lparr>WriteIdx := secondChunk\<rparr>)))))) (\<lambda>r.
           Inr (toWrite, r\<lparr>DataAvailable := DataAvailable r + toWrite\<rparr>)))"

definition RingBufferRead :: "u32 \<Rightarrow> mmbi_ring \<Rightarrow> (bytes \<times> mmbi_ring) res" where
  "RingBufferRead Length r =
     (let toRead = (if Length > DataAvailable r then DataAvailable r else Length)
      in if toRead = 0 then Inr ([], r)
         else let firstChunk = RING_BUFFER_SIZE - ReadIdx r in
           rbind
             (if toRead \<le> firstChunk
              then rbind (copy_out (unat (ReadIdx r)) (unat toRead) r) (\<lambda>bs.
                     Inr (bs, r\<lparr>ReadIdx := (ReadIdx r + toRead) mod RING_BUFFER_SIZE\<rparr>))
              else rbind (copy_out (unat (ReadIdx r)) (unat firstChunk) r) (\<lambda>bs.
                   let secondChunk = toRead - firstChunk in
                   rbind (copy_out 0 (unat secondChunk) r) (\<lambda>bs2.
                     Inr (bs @ bs2, r\<lparr>ReadIdx := secondChunk\<rparr>)))) (\<lambda>(bs, r).
           Inr (bs, r\<lparr>DataAvailable := DataAvailable r - toRead\<rparr>)))"

section \<open>The devices\<close>

datatype ntstatus = STATUS_SUCCESS | STATUS_DEVICE_BUSY | Status_error nat

text \<open>Of the statuses of the driver, \<open>STATUS_SUCCESS\<close> is the only one that is not negative: the others are error codes.\<close>

definition NT_SUCCESS :: "ntstatus \<Rightarrow> bool" where
  "NT_SUCCESS s \<longleftrightarrow> s = STATUS_SUCCESS"

record mmbi_shared =
  HostToBmc :: mmbi_ring
  BmcToHost :: mmbi_ring

text \<open>\<open>MmbiEvtIoWrite\<close> and \<open>MmbiEvtIoRead\<close> with the result of retrieving the request's buffer; they
  return how the request is completed: its status and its information field.\<close>

definition MmbiEvtIoWrite ::
    "nat \<Rightarrow> ntstatus \<Rightarrow> bytes \<Rightarrow> u64 \<Rightarrow> mmbi_shared \<Rightarrow> ((ntstatus \<times> u32) \<times> mmbi_shared) res" where
  "MmbiEvtIoWrite DeviceID status buffer Length g =
     (if \<not> NT_SUCCESS status then Inr ((status, 0), g)
      else rbind
        (if DeviceID = 0
         then rbind (RingBufferWrite buffer (ucast Length) (HostToBmc g)) (\<lambda>(n, r). Inr (n, g\<lparr>HostToBmc := r\<rparr>))
         else rbind (RingBufferWrite buffer (ucast Length) (BmcToHost g)) (\<lambda>(n, r). Inr (n, g\<lparr>BmcToHost := r\<rparr>)))
        (\<lambda>(bytesWritten, g).
          if bytesWritten = 0 \<and> Length > 0 then Inr ((STATUS_DEVICE_BUSY, 0), g)
          else Inr ((STATUS_SUCCESS, bytesWritten), g)))"

definition MmbiEvtIoRead ::
    "nat \<Rightarrow> ntstatus \<Rightarrow> u64 \<Rightarrow> mmbi_shared \<Rightarrow> ((ntstatus \<times> bytes) \<times> mmbi_shared) res" where
  "MmbiEvtIoRead DeviceID status Length g =
     (if \<not> NT_SUCCESS status then Inr ((status, []), g)
      else rbind
        (if DeviceID = 0
         then rbind (RingBufferRead (ucast Length) (BmcToHost g)) (\<lambda>(bs, r). Inr (bs, g\<lparr>BmcToHost := r\<rparr>))
         else rbind (RingBufferRead (ucast Length) (HostToBmc g)) (\<lambda>(bs, r). Inr (bs, g\<lparr>HostToBmc := r\<rparr>)))
        (\<lambda>(bs, g). Inr ((STATUS_SUCCESS, bs), g)))"

section \<open>The queue a ring stands for\<close>

definition ring_size :: nat where "ring_size = 1048576"

definition ring_ok :: "mmbi_ring \<Rightarrow> bool" where
  "ring_ok r \<longleftrightarrow> unat (ReadIdx r) < ring_size \<and> unat (DataAvailable r) \<le> ring_size \<and>
     unat (WriteIdx r) = (unat (ReadIdx r) + unat (DataAvailable r)) mod ring_size"

definition ring_contents :: "mmbi_ring \<Rightarrow> bytes" where
  "ring_contents r =
     map (\<lambda>i. Buffer r ((unat (ReadIdx r) + i) mod ring_size)) [0..<unat (DataAvailable r)]"

text \<open>\<open>B'\<close> is the array \<open>B\<close> with \<open>bs\<close> written from index \<open>W\<close> on, around the end.\<close>

definition ring_patch :: "nat \<Rightarrow> bytes \<Rightarrow> (nat \<Rightarrow> u8) \<Rightarrow> (nat \<Rightarrow> u8) \<Rightarrow> bool" where
  "ring_patch W bs B B' \<longleftrightarrow> (\<forall>j<length bs. B' ((W + j) mod ring_size) = bs ! j) \<and>
     (\<forall>i<ring_size. (\<forall>j<length bs. i \<noteq> (W + j) mod ring_size) \<longrightarrow> B' i = B i)"

text \<open>A zeroed ring.\<close>

definition ring_empty :: mmbi_ring where
  "ring_empty = \<lparr>Buffer = (\<lambda>_. 0), WriteIdx = 0, ReadIdx = 0, DataAvailable = 0\<rparr>"

text \<open>The two operations with plain numbers.\<close>

definition ring_write :: "bytes \<Rightarrow> mmbi_ring \<Rightarrow> (nat \<times> mmbi_ring) res" where
  "ring_write bs r = rbind (RingBufferWrite bs (of_nat (length bs)) r) (\<lambda>(n, r). Inr (unat n, r))"

definition ring_read :: "nat \<Rightarrow> mmbi_ring \<Rightarrow> (bytes \<times> mmbi_ring) res" where
  "ring_read n r = RingBufferRead (of_nat n) r"

subsection \<open>The contract\<close>

locale byte_fifo =
  fixes wr :: "bytes \<Rightarrow> 'q \<Rightarrow> (nat \<times> 'q) res" and rd :: "nat \<Rightarrow> 'q \<Rightarrow> (bytes \<times> 'q) res"
    and invar :: "'q \<Rightarrow> bool" and contents :: "'q \<Rightarrow> bytes" and capacity :: nat and max_req :: nat
  assumes write_ok: "invar q \<Longrightarrow> length bs < max_req \<Longrightarrow>
      \<exists>q'. wr bs q = Inr (min (length bs) (capacity - length (contents q)), q') \<and> invar q' \<and>
        contents q' = contents q @ take (capacity - length (contents q)) bs"
    and read_ok: "invar q \<Longrightarrow> n < max_req \<Longrightarrow>
      \<exists>q'. rd n q = Inr (take n (contents q), q') \<and> invar q' \<and> contents q' = drop n (contents q)"
begin

lemma write_all:
  assumes "invar q" and "length bs < max_req" and "length (contents q) + length bs \<le> capacity"
  shows "\<exists>q'. wr bs q = Inr (length bs, q') \<and> invar q' \<and> contents q' = contents q @ bs"
  using write_ok [OF assms(1,2)] assms(3) by (auto simp: min_def)

lemma write_read:
  assumes "invar q" and "contents q = []" and "length bs < max_req" and "length bs \<le> capacity" and "length bs \<le> n" and "n < max_req"
  shows "\<exists>q1 q2. wr bs q = Inr (length bs, q1) \<and> rd n q1 = Inr (bs, q2) \<and> contents q2 = []"
proof -
  from write_all [OF assms(1,3)] assms(2,4) obtain q1 where
    "wr bs q = Inr (length bs, q1)" "invar q1" "contents q1 = bs" by auto
  with read_ok [of q1 n] assms(5,6) show ?thesis by auto
qed

text \<open>Two writes that fit are one byte stream: a read may return parts of both.\<close>

lemma writes_merge:
  assumes "invar q" and "contents q = []" and "length (a @ b) \<le> capacity"
    and "length (a @ b) \<le> n" and "n < max_req"
  shows "\<exists>q1 q2 q3. wr a q = Inr (length a, q1) \<and> wr b q1 = Inr (length b, q2) \<and>
     rd n q2 = Inr (a @ b, q3) \<and> contents q3 = []"
proof -
  from write_all [OF assms(1), of a] assms(2-5) obtain q1 where
    1: "wr a q = Inr (length a, q1)" "invar q1" "contents q1 = a" by auto
  from write_all [OF 1(2), of b] 1(3) assms(3-5) obtain q2 where
    2: "wr b q1 = Inr (length b, q2)" "invar q2" "contents q2 = a @ b" by auto
  from read_ok [OF 2(2) assms(5)] 2(3) assms(4) show ?thesis using 1 2 by auto
qed

end

section \<open>Lemmas\<close>

lemma ring_size_word [simp]: "unat RING_BUFFER_SIZE = ring_size"
  by (simp add: RING_BUFFER_SIZE_def ring_size_def)

lemma length_ring_contents [simp]: "length (ring_contents r) = unat (DataAvailable r)"
  by (simp add: ring_contents_def)

lemma ring_empty_ok [simp]: "ring_ok ring_empty" "ring_contents ring_empty = []"
  by (simp_all add: ring_ok_def ring_empty_def ring_contents_def ring_size_def)

lemma ring_contents_upd:
  "ring_contents (r\<lparr>Buffer := B, WriteIdx := x, DataAvailable := d\<rparr>) =
     map (\<lambda>i. B ((unat (ReadIdx r) + i) mod ring_size)) [0..<unat d]"
  by (simp add: ring_contents_def)

lemma ring_ok_write_idx: "ring_ok r \<Longrightarrow> unat (WriteIdx r) < ring_size"
  by (simp add: ring_ok_def ring_size_def)


lemma mod_shift_inj:
  fixes i j :: nat
  assumes "(a + i) mod s = (a + j) mod s" and "i < s" and "j < s"
  shows "i = j"
proof -
  have le: "x = y" if "(a + x) mod s = (a + y) mod s" "x \<le> y" "y < s" for x y :: nat
  proof -
    have "s dvd (a + y) - (a + x)" using that by (intro iffD1 [OF mod_eq_dvd_iff_nat]) auto
    then show ?thesis using that by (auto dest: dvd_imp_le)
  qed
  show ?thesis using le [of i j] le [of j i] assms by (cases "i \<le> j") auto
qed

text \<open>Writing behind the contents, wherever the write position wraps.\<close>

lemma ring_append:
  assumes D: "D + length bs \<le> s" and W: "W = (R + D) mod s"
    and new: "\<And>j. j < length bs \<Longrightarrow> B' ((W + j) mod s) = bs ! j"
    and old: "\<And>i. i < s \<Longrightarrow> (\<And>j. j < length bs \<Longrightarrow> i \<noteq> (W + j) mod s) \<Longrightarrow> B' i = B i"
  shows "map (\<lambda>i. B' ((R + i) mod s)) [0..<D + length bs] = map (\<lambda>i. B ((R + i) mod s)) [0..<D] @ bs"
proof (rule nth_equalityI)
  fix i assume "i < length (map (\<lambda>i. B' ((R + i) mod s)) [0..<D + length bs])"
  then have i: "i < D + length bs" by simp
  have Wj: "(W + j) mod s = (R + (D + j)) mod s" for j using W by (simp add: mod_add_left_eq add.assoc)
  show "map (\<lambda>i. B' ((R + i) mod s)) [0..<D + length bs] ! i = (map (\<lambda>i. B ((R + i) mod s)) [0..<D] @ bs) ! i"
  proof (cases "i < D")
    case True
    have "(R + i) mod s \<noteq> (W + j) mod s" if "j < length bs" for j
      using mod_shift_inj [of R i s "D + j"] True that D Wj by auto
    moreover have "(R + i) mod s < s" using i D by (intro mod_less_divisor) linarith
    ultimately have "B' ((R + i) mod s) = B ((R + i) mod s)" by (intro old) auto
    then show ?thesis using True by (simp add: nth_append)
  next
    case False
    then have "B' ((R + i) mod s) = bs ! (i - D)" using new [of "i - D"] Wj [of "i - D"] i by simp
    then show ?thesis using False i by (simp add: nth_append)
  qed
qed simp

text \<open>The array after a write of one or two chunks.\<close>

lemma copy_in_Inr:
  "off + length bs \<le> ring_size \<Longrightarrow>
   copy_in off bs r = Inr (r\<lparr>Buffer := (\<lambda>i. if off \<le> i \<and> i < off + length bs then bs ! (i - off) else Buffer r i)\<rparr>)"
  by (simp add: copy_in_def)

lemma word_min:
  fixes a b :: "'a::len word"
  shows "unat (if a > b then b else a) = min (unat a) (unat b)"
  by (auto simp: word_less_nat_alt)

lemma ring_put:
  assumes ok: "ring_ok r" and rng: "unat (DataAvailable r) + length bs \<le> ring_size"
    and t: "unat t = length bs" and x: "unat x = (unat (WriteIdx r) + length bs) mod ring_size"
    and patch: "ring_patch (unat (WriteIdx r)) bs (Buffer r) B"
  shows "ring_ok (r\<lparr>Buffer := B, WriteIdx := x, DataAvailable := DataAvailable r + t\<rparr>)"
    and "ring_contents (r\<lparr>Buffer := B, WriteIdx := x, DataAvailable := DataAvailable r + t\<rparr>) = ring_contents r @ bs"
proof -
  let ?D = "unat (DataAvailable r)" and ?R = "unat (ReadIdx r)"
  from ok have W: "unat (WriteIdx r) = (?R + ?D) mod ring_size" and R: "?R < ring_size"
    by (simp_all add: ring_ok_def)
  have dn: "unat (DataAvailable r + t) = ?D + length bs"
    using rng t by (intro trans [OF unat_add_no_wrap]) (simp_all add: ring_size_def)
  show "ring_ok (r\<lparr>Buffer := B, WriteIdx := x, DataAvailable := DataAvailable r + t\<rparr>)"
    using R rng dn x W by (simp add: ring_ok_def mod_add_left_eq add.assoc)
  have "map (\<lambda>i. B ((?R + i) mod ring_size)) [0..<?D + length bs] =
      map (\<lambda>i. Buffer r ((?R + i) mod ring_size)) [0..<?D] @ bs"
    by (rule ring_append [OF rng W]) (use patch in \<open>simp_all add: ring_patch_def\<close>)
  then show "ring_contents (r\<lparr>Buffer := B, WriteIdx := x, DataAvailable := DataAvailable r + t\<rparr>) = ring_contents r @ bs"
    unfolding ring_contents_upd dn by (simp only: ring_contents_def)
qed

lemma one_chunk:
  fixes bs :: bytes
  assumes "W < ring_size" and "W + length bs \<le> ring_size"
  shows "ring_patch W bs B (\<lambda>i. if W \<le> i \<and> i < W + length bs then bs ! (i - W) else B i)"
proof -
  have "(if W \<le> i \<and> i < W + length bs then bs ! (i - W) else B i) = B i"
    if i: "i < ring_size" and no: "\<And>j. j < length bs \<Longrightarrow> i \<noteq> (W + j) mod ring_size" for i
  proof (cases "W \<le> i \<and> i < W + length bs")
    case True
    then have "i - W < length bs" "W + (i - W) = i" by linarith+
    then show ?thesis using no [of "i - W"] i by simp
  qed auto
  then show ?thesis using assms by (simp add: ring_patch_def)
qed

lemma two_chunks:
  fixes bs :: bytes
  assumes W: "W < ring_size" and f: "ring_size - W < length bs" and len: "length bs \<le> ring_size"
  shows "ring_patch W bs B (\<lambda>i. if i < length bs - (ring_size - W) then bs ! (ring_size - W + i)
       else if W \<le> i \<and> i < W + (ring_size - W) then bs ! (i - W) else B i)" (is "ring_patch W bs B ?B")
proof -
  let ?f = "ring_size - W"
  have lo: "(W + j) mod ring_size = W + j" if "j < ?f" for j using that by simp
  have hi: "(W + j) mod ring_size = j - ?f" if "?f \<le> j" "j < length bs" for j
    using that W len by (subst le_mod_geq) auto
  have "?B ((W + j) mod ring_size) = bs ! j" if "j < length bs" for j
    using that len lo [of j] hi [of j] by (cases "j < ?f") auto
  moreover have "?B i = B i"
    if i: "i < ring_size" and no: "\<And>j. j < length bs \<Longrightarrow> i \<noteq> (W + j) mod ring_size" for i
  proof -
    have "\<not> i < length bs - ?f" using no [of "?f + i"] hi [of "?f + i"] by force
    moreover have "\<not> W \<le> i" using i no [of "i - W"] lo [of "i - W"] f by force
    ultimately show ?thesis by simp
  qed
  ultimately show ?thesis unfolding ring_patch_def by blast
qed

text \<open>The second copy of a wrapped write, on top of the first.\<close>

lemma copy_in_wrapped:
  fixes bs :: bytes
  assumes "unat (WriteIdx r) < ring_size" and "f = ring_size - unat (WriteIdx r)" and "f < length bs" and "length bs \<le> ring_size"
  shows "rbind (copy_in (unat (WriteIdx r)) (take f bs) r) (copy_in 0 (drop f bs)) =
     Inr (r\<lparr>Buffer := (\<lambda>i. if i < length bs - f then bs ! (f + i)
       else if unat (WriteIdx r) \<le> i \<and> i < unat (WriteIdx r) + f then bs ! (i - unat (WriteIdx r)) else Buffer r i)\<rparr>)"
proof -
  let ?W = "unat (WriteIdx r)"
  let ?B1 = "\<lambda>i. if ?W \<le> i \<and> i < ?W + length (take f bs) then take f bs ! (i - ?W) else Buffer r i"
  have c1: "copy_in ?W (take f bs) r = Inr (r\<lparr>Buffer := ?B1\<rparr>)" using assms by (intro copy_in_Inr) simp
  have BB: "(\<lambda>i. if 0 \<le> i \<and> i < 0 + length (drop f bs) then drop f bs ! (i - 0) else Buffer (r\<lparr>Buffer := ?B1\<rparr>) i) =
     (\<lambda>i. if i < length bs - f then bs ! (f + i)
       else if ?W \<le> i \<and> i < ?W + f then bs ! (i - ?W) else Buffer r i)"
    by (rule ext) (use assms in auto)
  have "0 + length (drop f bs) \<le> ring_size" using assms by simp
  from copy_in_Inr [OF this, of "r\<lparr>Buffer := ?B1\<rparr>"] show ?thesis unfolding BB c1 rbind_Inr by simp
qed

lemma RingBufferWrite_ok:
  assumes ok: "ring_ok r" and len: "unat len \<le> length bs"
    and n: "n = min (unat len) (ring_size - unat (DataAvailable r))"
  obtains r' where "RingBufferWrite bs len r = Inr (of_nat n, r')" and "ring_ok r'"
    and "ring_contents r' = ring_contents r @ take n bs"
proof -
  let ?D = "unat (DataAvailable r)" and ?W = "unat (WriteIdx r)" and ?bs = "take n bs"
  have D: "?D \<le> ring_size" using ok by (simp add: ring_ok_def)
  have Wlt: "?W < ring_size" using ok by (rule ring_ok_write_idx)
  have free: "unat (RING_BUFFER_SIZE - DataAvailable r) = ring_size - ?D"
    and first: "unat (RING_BUFFER_SIZE - WriteIdx r) = ring_size - ?W"
    using D Wlt by (simp_all add: unat_diff_le word_le_nat_alt)
  define t where "t = (if len > RING_BUFFER_SIZE - DataAvailable r then RING_BUFFER_SIZE - DataAvailable r else len)"
  have t: "unat t = n" unfolding t_def word_min n free ..
  then have tn: "t = of_nat n" by (metis of_nat_unat ucast_id)
  have nb: "n \<le> length bs" using n len by simp
  then have lb: "length ?bs = n" by simp
  have rng: "?D + length ?bs \<le> ring_size" and ns: "n \<le> ring_size" using lb n D by simp_all
  note run = RingBufferWrite_def [of bs len r, folded t_def, unfolded Let_def, folded t_def]
  have put: "ring_ok (r\<lparr>Buffer := B, WriteIdx := x, DataAvailable := DataAvailable r + t\<rparr>)"
    "ring_contents (r\<lparr>Buffer := B, WriteIdx := x, DataAvailable := DataAvailable r + t\<rparr>) = ring_contents r @ ?bs"
    if "unat x = (?W + n) mod ring_size" "ring_patch ?W ?bs (Buffer r) B" for x B
    by (rule ring_put [OF ok rng]; use that t lb in simp)+
  consider "n = 0" | "0 < n" "n \<le> ring_size - ?W" | "ring_size - ?W < n" by linarith
  then show ?thesis
  proof cases
    case 1
    then have "t = 0" using t by (simp add: unat_eq_zero)
    then show ?thesis using 1 that [of r] ok by (simp add: run)
  next
    case 2
    then have t0: "t \<noteq> 0" "t \<le> RING_BUFFER_SIZE - WriteIdx r" using t first by (auto simp: word_le_nat_alt)
    have x: "unat ((WriteIdx r + t) mod RING_BUFFER_SIZE) = (?W + n) mod ring_size"
      using t Wlt 2 by (simp add: unat_mod_distrib) (subst unat_add_no_wrap, simp_all add: ring_size_def)
    have w: "?W + length ?bs \<le> ring_size" using 2 lb Wlt by simp
    have "mem_read bs 0 (unat t) = Inr ?bs" using t nb by (simp add: mem_read_def)
    then have "RingBufferWrite bs len r = Inr (of_nat n, r\<lparr>Buffer := (\<lambda>i. if ?W \<le> i \<and> i < ?W + length ?bs
        then ?bs ! (i - ?W) else Buffer r i), WriteIdx := (WriteIdx r + t) mod RING_BUFFER_SIZE,
        DataAvailable := DataAvailable r + t\<rparr>)"
      using t0 copy_in_Inr [OF w, of r] by (simp add: run tn [symmetric])
    from that [OF this put [OF x one_chunk [OF Wlt w]]] show ?thesis .
  next
    case 3
    let ?f = "ring_size - ?W"
    have t0: "t \<noteq> 0" "\<not> t \<le> RING_BUFFER_SIZE - WriteIdx r" using t first 3 by (auto simp: word_le_nat_alt)
    have sec: "unat (t - (RING_BUFFER_SIZE - WriteIdx r)) = n - ?f"
      using t0 t first by (subst unat_diff_le) (auto simp: word_le_nat_alt)
    have x: "unat (t - (RING_BUFFER_SIZE - WriteIdx r)) = (?W + n) mod ring_size"
      using sec 3 Wlt ns by (subst le_mod_geq) auto
    have w: "?f < length ?bs" "length ?bs \<le> ring_size" using 3 lb ns by simp_all
    have rd: "mem_read bs 0 ?f = Inr (take ?f ?bs)" "mem_read bs ?f (n - ?f) = Inr (drop ?f ?bs)"
      using nb 3 by (simp_all add: mem_read_def drop_take)
    obtain r1 where c: "copy_in ?W (take ?f ?bs) r = Inr r1" and c2: "copy_in 0 (drop ?f ?bs) r1 =
       Inr (r\<lparr>Buffer := (\<lambda>i. if i < length ?bs - ?f then ?bs ! (?f + i)
         else if ?W \<le> i \<and> i < ?W + ?f then ?bs ! (i - ?W) else Buffer r i)\<rparr>)"
      using copy_in_wrapped [OF Wlt refl w] by blast
    have "RingBufferWrite bs len r = Inr (of_nat n, r\<lparr>Buffer := (\<lambda>i. if i < length ?bs - ?f then ?bs ! (?f + i)
         else if ?W \<le> i \<and> i < ?W + ?f then ?bs ! (i - ?W) else Buffer r i),
        WriteIdx := t - (RING_BUFFER_SIZE - WriteIdx r), DataAvailable := DataAvailable r + t\<rparr>)"
      using t0 rd c c2 first sec by (simp add: run tn [symmetric])
    from that [OF this put [OF x two_chunks [OF Wlt w]]] show ?thesis .
  qed
qed

text \<open>Reading from the front.\<close>

lemma copy_out_Inr: "off + n \<le> ring_size \<Longrightarrow> copy_out off n r = Inr (map (Buffer r) [off..<off + n])"
  by (simp add: copy_out_def)

lemma ring_segment:
  assumes "R + n \<le> s"
  shows "map B [R..<R + n] = map (\<lambda>i. B ((R + i) mod s)) [0..<n]"
  by (rule nth_equalityI) (use assms in auto)

lemma ring_drop:
  assumes "R' = (R + n) mod s" and "n \<le> D"
  shows "map (\<lambda>i. B ((R' + i) mod s)) [0..<D - n] = drop n (map (\<lambda>i. B ((R + i) mod s)) [0..<D])"
  by (rule nth_equalityI) (use assms in \<open>auto simp: mod_add_left_eq add.assoc\<close>)

lemma ring_two_segments:
  assumes "R < s" and "s - R < n" and "n \<le> s"
  shows "map B [R..<R + (s - R)] @ map B [0..<n - (s - R)] = map (\<lambda>i. B ((R + i) mod s)) [0..<n]"
proof (rule nth_equalityI)
  fix i assume "i < length (map B [R..<R + (s - R)] @ map B [0..<n - (s - R)])"
  then have i: "i < n" using assms by simp
  then have "(R + i) mod s = i - (s - R)" if "\<not> i < s - R" using that assms by (subst le_mod_geq) auto
  then show "(map B [R..<R + (s - R)] @ map B [0..<n - (s - R)]) ! i = map (\<lambda>i. B ((R + i) mod s)) [0..<n] ! i"
    using i assms(1) by (cases "i < s - R") (simp_all add: nth_append)
qed (use assms in simp)

lemma ring_get:
  assumes "ring_ok r" and n: "n \<le> unat (DataAvailable r)" "unat t = n" and x: "unat x = (unat (ReadIdx r) + n) mod ring_size"
  shows "ring_ok (r\<lparr>ReadIdx := x, DataAvailable := DataAvailable r - t\<rparr>)"
    and "ring_contents (r\<lparr>ReadIdx := x, DataAvailable := DataAvailable r - t\<rparr>) = drop n (ring_contents r)"
proof -
  let ?D = "unat (DataAvailable r)" and ?R = "unat (ReadIdx r)"
  have D: "unat (DataAvailable r - t) = ?D - n" using n by (subst unat_diff_le) (simp_all add: word_le_nat_alt)
  have "((?R + n) mod ring_size + (?D - n)) mod ring_size = (?R + ?D) mod ring_size" using n(1) unfolding mod_add_left_eq by simp
  moreover have "unat x < ring_size" using x by (simp add: ring_size_def)
  ultimately show "ring_ok (r\<lparr>ReadIdx := x, DataAvailable := DataAvailable r - t\<rparr>)" using assms(1) D x by (auto simp: ring_ok_def)
  show "ring_contents (r\<lparr>ReadIdx := x, DataAvailable := DataAvailable r - t\<rparr>) = drop n (ring_contents r)"
    using ring_drop [OF x n(1), of "Buffer r"] D x by (simp add: ring_contents_def)
qed

lemma RingBufferRead_ok:
  assumes ok: "ring_ok r"
  obtains r' where "RingBufferRead len r = Inr (take (unat len) (ring_contents r), r')" and "ring_ok r'"
    and "ring_contents r' = drop (unat len) (ring_contents r)"
proof -
  let ?D = "unat (DataAvailable r)" and ?R = "unat (ReadIdx r)"
  from ok have D: "?D \<le> ring_size" and R: "?R < ring_size" by (simp_all add: ring_ok_def)
  define t where "t = (if len > DataAvailable r then DataAvailable r else len)"
  define n where "n = min (unat len) ?D"
  have t: "unat t = n" unfolding t_def n_def word_min ..
  have tk: "take (unat len) (ring_contents r) = take n (ring_contents r)"
    "drop (unat len) (ring_contents r) = drop n (ring_contents r)" by (auto simp: n_def min_def)
  have nD: "n \<le> ?D" by (simp add: n_def)
  have first: "unat (RING_BUFFER_SIZE - ReadIdx r) = ring_size - ?R"
    using R by (subst unat_diff_le) (simp_all add: word_le_nat_alt)
  have tkn: "take n (ring_contents r) = map (\<lambda>i. Buffer r ((?R + i) mod ring_size)) [0..<n]"
    using nD by (simp add: ring_contents_def take_map)
  note that' = that
  have got: thesis
    if "RingBufferRead len r = Inr (take n (ring_contents r), r\<lparr>ReadIdx := x, DataAvailable := DataAvailable r - t\<rparr>)"
      and "unat x = (?R + n) mod ring_size" for x
    by (rule that' [OF _ ring_get [OF ok nD t that(2), folded tk(2)]]) (unfold tk, rule that)
  note run = RingBufferRead_def [of len r, folded t_def, unfolded Let_def, folded t_def]
  consider "n = 0" | "0 < n" "n \<le> ring_size - ?R" | "ring_size - ?R < n" by linarith
  then show ?thesis
  proof cases
    case 1
    then have "t = 0" using t by (simp add: unat_eq_zero)
    then show ?thesis using 1 that [of r] ok tk by (simp add: run)
  next
    case 2
    then have t0: "t \<noteq> 0" "t \<le> RING_BUFFER_SIZE - ReadIdx r" using t first by (auto simp: word_le_nat_alt)
    have x: "unat ((ReadIdx r + t) mod RING_BUFFER_SIZE) = (?R + n) mod ring_size"
      using t R 2 by (simp add: unat_mod_distrib) (subst unat_add_no_wrap, simp_all add: ring_size_def)
    have "copy_out ?R (unat t) r = Inr (take n (ring_contents r))"
      unfolding tkn t using 2 R by (subst copy_out_Inr) (simp_all add: ring_segment)
    then show ?thesis by (rule_tac got [OF _ x]) (use t0 in \<open>simp add: run\<close>)
  next
    case 3
    let ?f = "ring_size - ?R"
    have t0: "t \<noteq> 0" "\<not> t \<le> RING_BUFFER_SIZE - ReadIdx r" using t first 3 by (auto simp: word_le_nat_alt)
    have sec: "unat (t - (RING_BUFFER_SIZE - ReadIdx r)) = n - ?f"
      using t0 t first by (subst unat_diff_le) (auto simp: word_le_nat_alt)
    have x: "unat (t - (RING_BUFFER_SIZE - ReadIdx r)) = (?R + n) mod ring_size"
      using sec 3 R nD D by (subst le_mod_geq) auto
    have c: "copy_out ?R ?f r = Inr (map (Buffer r) [?R..<?R + ?f])"
      "copy_out 0 (n - ?f) r = Inr (map (Buffer r) [0..<n - ?f])"
      using R nD D by (auto simp: copy_out_Inr)
    have bs: "map (Buffer r) [?R..<?R + ?f] @ map (Buffer r) [0..<n - ?f] = take n (ring_contents r)"
      unfolding tkn by (rule ring_two_segments) (use R 3 nD D in simp_all)
    have "RingBufferRead len r = Inr (take n (ring_contents r), r\<lparr>ReadIdx := t - (RING_BUFFER_SIZE - ReadIdx r), DataAvailable := DataAvailable r - t\<rparr>)"
      using t0 c first sec by (simp add: run bs)
    then show ?thesis by (rule got [OF _ x])
  qed
qed

text \<open>The ring keeps the contract of a byte queue, for requests a \<open>ULONG\<close> can express.\<close>

interpretation ring: byte_fifo ring_write ring_read ring_ok ring_contents ring_size "2 ^ 32"
proof unfold_locales
  fix r and bs :: bytes
  assume ok: "ring_ok r" and len: "length bs < 2 ^ 32"
  then have u: "unat (of_nat (length bs) :: u32) = length bs" by (simp add: unat_of_nat)
  let ?n = "min (length bs) (ring_size - unat (DataAvailable r))"
  have un: "unat (of_nat ?n :: u32) = ?n" by (simp add: unat_of_nat) (simp add: ring_size_def)
  obtain r' where "RingBufferWrite bs (of_nat (length bs)) r = Inr (of_nat ?n, r')" "ring_ok r'"
    "ring_contents r' = ring_contents r @ take ?n bs"
    by (rule RingBufferWrite_ok [OF ok, of "of_nat (length bs)" bs ?n]) (use u in simp_all)
  then show "\<exists>q'. ring_write bs r = Inr (min (length bs) (ring_size - length (ring_contents r)), q') \<and> ring_ok q' \<and>
      ring_contents q' = ring_contents r @ take (ring_size - length (ring_contents r)) bs"
    using un by (auto simp: ring_write_def min_def)
next
  fix r and n :: nat
  assume ok: "ring_ok r" and "n < 2 ^ 32"
  then have u: "unat (of_nat n :: u32) = n" by (simp add: unat_of_nat)
  show "\<exists>q'. ring_read n r = Inr (take n (ring_contents r), q') \<and> ring_ok q' \<and> ring_contents q' = drop n (ring_contents r)"
    using RingBufferRead_ok [OF ok, of "of_nat n"] u unfolding ring_read_def by metis
qed

section \<open>The two devices\<close>

definition drv_ok :: "mmbi_shared \<Rightarrow> bool" where
  "drv_ok g \<longleftrightarrow> ring_ok (HostToBmc g) \<and> ring_ok (BmcToHost g)"

text \<open>The queue a device writes to and the one it reads from.\<close>

definition dev_out :: "nat \<Rightarrow> mmbi_shared \<Rightarrow> bytes" where
  "dev_out i g = ring_contents (if i = 0 then HostToBmc g else BmcToHost g)"

definition dev_in :: "nat \<Rightarrow> mmbi_shared \<Rightarrow> bytes" where
  "dev_in i g = ring_contents (if i = 0 then BmcToHost g else HostToBmc g)"

lemma driver_write:
  assumes "drv_ok g" and "unat (ucast len :: u32) \<le> length bs"
    and "n = min (unat (ucast len :: u32)) (ring_size - length (dev_out i g))"
  obtains g' where "MmbiEvtIoWrite i STATUS_SUCCESS bs len g =
        Inr (if n = 0 \<and> len > 0 then (STATUS_DEVICE_BUSY, 0) else (STATUS_SUCCESS, of_nat n), g')"
    and "drv_ok g'" and "dev_out i g' = dev_out i g @ take n bs" and "dev_in i g' = dev_in i g"
proof -
  let ?r = "if i = 0 then HostToBmc g else BmcToHost g"
  have ok: "ring_ok ?r" using assms(1) by (simp add: drv_ok_def)
  have n: "n = min (unat (ucast len :: u32)) (ring_size - unat (DataAvailable ?r))" using assms(3) by (simp add: dev_out_def)
  obtain r' where r: "RingBufferWrite bs (ucast len) ?r = Inr (of_nat n, r')" "ring_ok r'" "ring_contents r' = ring_contents ?r @ take n bs"
    by (rule RingBufferWrite_ok [OF ok assms(2) n])
  let ?g = "if i = 0 then g\<lparr>HostToBmc := r'\<rparr> else g\<lparr>BmcToHost := r'\<rparr>"
  have "n \<le> ring_size" using n by simp
  then have z: "(of_nat n :: u32) = 0 \<longleftrightarrow> n = 0" by (simp add: word_unat_eq_iff unat_of_nat ring_size_def)
  show ?thesis
    by (rule that [of ?g]) (use r z assms(1) in \<open>auto simp: MmbiEvtIoWrite_def NT_SUCCESS_def drv_ok_def dev_out_def dev_in_def\<close>)
qed

lemma driver_read:
  assumes "drv_ok g"
  obtains g' where "MmbiEvtIoRead i STATUS_SUCCESS len g = Inr ((STATUS_SUCCESS, take (unat (ucast len :: u32)) (dev_in i g)), g')"
    and "drv_ok g'" and "dev_in i g' = drop (unat (ucast len :: u32)) (dev_in i g)" and "dev_out i g' = dev_out i g"
proof -
  let ?r = "if i = 0 then BmcToHost g else HostToBmc g"
  have ok: "ring_ok ?r" using assms(1) by (simp add: drv_ok_def)
  obtain r' where r: "RingBufferRead (ucast len) ?r = Inr (take (unat (ucast len :: u32)) (ring_contents ?r), r')" "ring_ok r'"
    "ring_contents r' = drop (unat (ucast len :: u32)) (ring_contents ?r)"
    by (rule RingBufferRead_ok [OF ok])
  let ?g = "if i = 0 then g\<lparr>BmcToHost := r'\<rparr> else g\<lparr>HostToBmc := r'\<rparr>"
  show ?thesis
    by (rule that [of ?g]) (use r assms(1) in \<open>auto simp: MmbiEvtIoRead_def NT_SUCCESS_def drv_ok_def dev_out_def dev_in_def\<close>)
qed

section \<open>Runs of the driver\<close>

text \<open>
  Two processes drive the devices, in any order. A run is the history of the requests that were completed,
  each with the bytes it moved: those of a write request that the driver accepted, by its information
  field, and those a read request returned. The framework guarantees that the buffer of a write request holds
  the bytes its length says.
\<close>

datatype drv_io = Wrote nat bytes | Got nat bytes

inductive drv_run :: "mmbi_shared \<Rightarrow> drv_io list \<Rightarrow> mmbi_shared \<Rightarrow> bool" for g where
  run_start: "drv_run g [] g"
| run_write: "drv_run g h g1 \<Longrightarrow> unat (ucast len :: u32) \<le> length bs \<Longrightarrow>
    MmbiEvtIoWrite i st bs len g1 = Inr ((s, k), g2) \<Longrightarrow> drv_run g (h @ [Wrote i (take (unat k) bs)]) g2"
| run_read: "drv_run g h g1 \<Longrightarrow>
    MmbiEvtIoRead i st len g1 = Inr ((s, bs), g2) \<Longrightarrow> drv_run g (h @ [Got i bs]) g2"

text \<open>The bytes the host side put in, or the other side; and those each of them got.\<close>

fun io_written :: "bool \<Rightarrow> drv_io \<Rightarrow> bytes" where
  "io_written host (Wrote i bs) = (if (i = 0) = host then bs else [])"
| "io_written host (Got i bs) = []"

fun io_got :: "bool \<Rightarrow> drv_io \<Rightarrow> bytes" where
  "io_got host (Wrote i bs) = []"
| "io_got host (Got i bs) = (if (i = 0) = host then bs else [])"

definition all_written :: "bool \<Rightarrow> drv_io list \<Rightarrow> bytes" where
  "all_written host h = concat (map (io_written host) h)"

definition all_got :: "bool \<Rightarrow> drv_io list \<Rightarrow> bytes" where
  "all_got host h = concat (map (io_got host) h)"

text \<open>What is under way from one side to the other.\<close>

definition waiting :: "bool \<Rightarrow> mmbi_shared \<Rightarrow> bytes" where
  "waiting host g = ring_contents (if host then HostToBmc g else BmcToHost g)"

lemma all_snoc [simp]:
  "all_written host [] = []" "all_got host [] = []"
  "all_written host (h @ [e]) = all_written host h @ io_written host e"
  "all_got host (h @ [e]) = all_got host h @ io_got host e"
  by (simp_all add: all_written_def all_got_def)

lemma dev_waiting: "dev_out i g = waiting (i = 0) g" "dev_in i g = waiting (i \<noteq> 0) g"
  by (simp_all add: dev_out_def dev_in_def waiting_def)

lemma waiting_bounded: "drv_ok g \<Longrightarrow> length (waiting host g) \<le> ring_size"
  by (simp add: drv_ok_def waiting_def ring_ok_def)

lemma drv_empty: "drv_ok \<lparr>HostToBmc = ring_empty, BmcToHost = ring_empty\<rparr>" "waiting host \<lparr>HostToBmc = ring_empty, BmcToHost = ring_empty\<rparr> = []"
  by (simp_all add: drv_ok_def waiting_def)

text \<open>Both kinds of request return, whatever the framework answers.\<close>

lemma driver_write_any:
  assumes "drv_ok g" and "unat (ucast len :: u32) \<le> length bs"
  obtains s n g' where "MmbiEvtIoWrite i st bs len g = Inr ((s, of_nat n), g')" and "n \<le> ring_size" and "drv_ok g'"
    and "waiting (i = 0) g' = waiting (i = 0) g @ take n bs" and "waiting (i \<noteq> 0) g' = waiting (i \<noteq> 0) g"
proof (cases "st = STATUS_SUCCESS")
  case True
  define n where "n = min (unat (ucast len :: u32)) (ring_size - length (dev_out i g))"
  obtain g' where g': "MmbiEvtIoWrite i st bs len g =
        Inr (if n = 0 \<and> len > 0 then (STATUS_DEVICE_BUSY, 0) else (STATUS_SUCCESS, of_nat n), g')"
    "drv_ok g'" "dev_out i g' = dev_out i g @ take n bs" "dev_in i g' = dev_in i g"
    unfolding True by (rule driver_write [OF assms n_def])
  have "n \<le> ring_size" by (simp add: n_def)
  then show ?thesis using g' by (intro that [of "if n = 0 \<and> len > 0 then STATUS_DEVICE_BUSY else STATUS_SUCCESS" n g']) (simp_all add: dev_waiting)
next
  case False
  then show ?thesis using assms(1) by (intro that [of st 0 g]) (simp_all add: MmbiEvtIoWrite_def NT_SUCCESS_def)
qed

lemma driver_read_any:
  assumes "drv_ok g"
  obtains s n g' where "MmbiEvtIoRead i st len g = Inr ((s, take n (waiting (i \<noteq> 0) g)), g')" and "drv_ok g'"
    and "waiting (i \<noteq> 0) g' = drop n (waiting (i \<noteq> 0) g)" and "waiting (i = 0) g' = waiting (i = 0) g"
proof (cases "st = STATUS_SUCCESS")
  case True
  obtain g' where "MmbiEvtIoRead i st len g = Inr ((STATUS_SUCCESS, take (unat (ucast len :: u32)) (dev_in i g)), g')"
    "drv_ok g'" "dev_in i g' = drop (unat (ucast len :: u32)) (dev_in i g)" "dev_out i g' = dev_out i g"
    unfolding True by (rule driver_read [OF assms])
  then show ?thesis by (intro that [of STATUS_SUCCESS "unat (ucast len :: u32)" g']) (simp_all only: dev_waiting)
next
  case False
  then show ?thesis using assms by (intro that [of st 0 g]) (simp_all add: MmbiEvtIoRead_def NT_SUCCESS_def)
qed

text \<open>The stream of each direction: what was in the ring and what was put in is what came out and what is left.\<close>

lemma drv_run_streams:
  assumes "drv_run g0 h g" and "drv_ok g0"
  shows "drv_ok g \<and> waiting host g0 @ all_written host h = all_got (\<not> host) h @ waiting host g"
  using assms(1)
proof (induction rule: drv_run.induct)
  case run_start
  then show ?case using assms(2) by simp
next
  case (run_write h g1 len bs i st s k g2)
  obtain s' n g' where g': "MmbiEvtIoWrite i st bs len g1 = Inr ((s', of_nat n), g')" "n \<le> ring_size" "drv_ok g'"
    "waiting (i = 0) g' = waiting (i = 0) g1 @ take n bs" "waiting (i \<noteq> 0) g' = waiting (i \<noteq> 0) g1"
    by (rule driver_write_any [OF conjunct1 [OF run_write.IH] run_write.hyps(2)])
  then have "g2 = g'" "unat k = n" using run_write.hyps(3) by (simp_all add: unat_of_nat ring_size_def)
  then show ?case using g'(3-5) run_write.IH by (cases "host = (i = 0)") auto
next
  case (run_read h g1 i st len s bs g2)
  obtain s' n g' where g': "MmbiEvtIoRead i st len g1 = Inr ((s', take n (waiting (i \<noteq> 0) g1)), g')" "drv_ok g'"
    "waiting (i \<noteq> 0) g' = drop n (waiting (i \<noteq> 0) g1)" "waiting (i = 0) g' = waiting (i = 0) g1"
    by (rule driver_read_any [OF conjunct1 [OF run_read.IH]])
  then have "g2 = g'" "bs = take n (waiting (i \<noteq> 0) g1)" using run_read.hyps(2) by simp_all
  then show ?case using g'(2-4) run_read.IH by (cases "host = (i = 0)") auto
qed

section \<open>Properties\<close>

text \<open>
  C11: the ring buffer refines a bounded queue of bytes. From every state that satisfies the index
  invariant, \<open>RingBufferWrite\<close> appends as many of the given bytes as there is room for and reports
  their number, and \<open>RingBufferRead\<close> returns and removes the oldest bytes, at most as many as asked
  for; wherever the positions wrap, both copy inside the array and keep the invariant.
\<close>

theorem ring_refines_queue:
  assumes "ring_ok r" and "unat len \<le> length bs"
  shows "(\<exists>r' n. RingBufferWrite bs len r = Inr (of_nat n, r') \<and> n = min (unat len) (ring_size - length (ring_contents r)) \<and>
       ring_ok r' \<and> ring_contents r' = ring_contents r @ take n bs) \<and>
     (\<exists>r'. RingBufferRead len r = Inr (take (unat len) (ring_contents r), r') \<and> ring_ok r' \<and>
       ring_contents r' = drop (unat len) (ring_contents r))"
proof
  obtain r' where "RingBufferWrite bs len r = Inr (of_nat (min (unat len) (ring_size - unat (DataAvailable r))), r')" "ring_ok r'"
    "ring_contents r' = ring_contents r @ take (min (unat len) (ring_size - unat (DataAvailable r))) bs"
    by (rule RingBufferWrite_ok [OF assms refl])
  then show "\<exists>r' n. RingBufferWrite bs len r = Inr (of_nat n, r') \<and> n = min (unat len) (ring_size - length (ring_contents r)) \<and>
       ring_ok r' \<and> ring_contents r' = ring_contents r @ take n bs" by (intro exI conjI) simp_all
  show "\<exists>r'. RingBufferRead len r = Inr (take (unat len) (ring_contents r), r') \<and> ring_ok r' \<and>
       ring_contents r' = drop (unat len) (ring_contents r)" by (rule RingBufferRead_ok [OF assms(1), of len]) blast
qed

theorem ring_refines_queue_witness:
  "\<exists>r'. RingBufferWrite [7, 8] 2 (ring_empty\<lparr>WriteIdx := 1048575, ReadIdx := 1048575\<rparr>) = Inr (2, r') \<and> ring_contents r' = [7, 8]"
proof -
  have "ring_ok (ring_empty\<lparr>WriteIdx := 1048575, ReadIdx := 1048575\<rparr>)"
    "ring_contents (ring_empty\<lparr>WriteIdx := 1048575, ReadIdx := 1048575\<rparr>) = []"
    by (simp_all add: ring_ok_def ring_empty_def ring_size_def ring_contents_def)
  then show ?thesis using ring_refines_queue [of "ring_empty\<lparr>WriteIdx := 1048575, ReadIdx := 1048575\<rparr>" 2 "[7, 8]"]
    by (auto simp: ring_size_def)
qed

text \<open>A write request that fits, then a read request of the other device, with nothing waiting before.\<close>

lemma driver_crossover:
  assumes "drv_ok g" and "i < 2" and "dev_out i g = []" and "length bs \<le> ring_size" and "bs \<noteq> []"
    and "length bs \<le> unat n" and "n < 2 ^ 32"
  shows "\<exists>g1 g2. MmbiEvtIoWrite i STATUS_SUCCESS bs (of_nat (length bs)) g = Inr ((STATUS_SUCCESS, of_nat (length bs)), g1) \<and>
     MmbiEvtIoRead (1 - i) STATUS_SUCCESS n g1 = Inr ((STATUS_SUCCESS, bs), g2) \<and>
     drv_ok g2 \<and> dev_out i g2 = [] \<and> dev_in i g2 = dev_in i g"
proof -
  have l: "unat (ucast (of_nat (length bs) :: u64) :: u32) = length bs"
    using assms(4) by (simp add: ring_size_def unsigned_ucast_eq unat_of_nat take_bit_nat_eq_self)
  have u: "unat (ucast n :: u32) = unat n"
    using assms(7) by (simp add: unsigned_ucast_eq take_bit_nat_eq_self word_less_nat_alt)
  obtain g1 where w: "MmbiEvtIoWrite i STATUS_SUCCESS bs (of_nat (length bs)) g = Inr ((STATUS_SUCCESS, of_nat (length bs)), g1)"
    "drv_ok g1" "dev_out i g1 = bs" "dev_in i g1 = dev_in i g"
    by (rule driver_write [OF assms(1), of "of_nat (length bs)" bs "length bs" i]) (use l assms in auto)
  have x: "dev_in (1 - i) g' = dev_out i g'" "dev_out (1 - i) g' = dev_in i g'" for g'
    using assms(2) by (auto simp: dev_in_def dev_out_def)
  obtain g2 where r: "MmbiEvtIoRead (1 - i) STATUS_SUCCESS n g1 = Inr ((STATUS_SUCCESS, bs), g2)" "drv_ok g2"
    "dev_out i g2 = []" "dev_in i g2 = dev_in i g"
    by (rule driver_read [OF w(2), of "1 - i" n]) (use u w assms(6) x in auto)
  then show ?thesis using w(1) by blast
qed

text \<open>The driver does not keep packets apart: two write requests that fit are answered as complete,
  and one read request returns both of them in one piece.\<close>

lemma driver_merges_writes:
  assumes "ring_ok r" and "ring_contents r = []" and "length (a @ b) \<le> ring_size" and "length (a @ b) \<le> n" and "n < 2 ^ 32"
  shows "\<exists>r1 r2 r3. RingBufferWrite a (of_nat (length a)) r = Inr (of_nat (length a), r1) \<and>
     RingBufferWrite b (of_nat (length b)) r1 = Inr (of_nat (length b), r2) \<and>
     RingBufferRead (of_nat n) r2 = Inr (a @ b, r3)"
proof -
  have e: "x = of_nat k \<longleftrightarrow> unat x = k" if "k \<le> ring_size" for x :: u32 and k
    using that by (simp add: word_unat_eq_iff unat_of_nat ring_size_def)
  show ?thesis using ring.writes_merge [OF assms] e [of "length a"] e [of "length b"] assms(3)
    by (auto simp: ring_write_def ring_read_def)
qed

text \<open>
  C12: each direction of the driver is a lossless stream. Whatever requests the two devices complete, in any order
  and of any length, from the empty rings on: the bytes accepted from one device are those the other
  device got, in order, followed by those still in the ring; at most one mebibyte is under way; and the next
  request of either kind returns without a fault, a read request with the oldest bytes under way.
\<close>

theorem driver_streams:
  assumes "drv_run \<lparr>HostToBmc = ring_empty, BmcToHost = ring_empty\<rparr> h g"
  shows "all_written host h = all_got (\<not> host) h @ waiting host g \<and> length (waiting host g) \<le> ring_size \<and>
     (\<forall>i st bs len. unat (ucast len :: u32) \<le> length bs \<longrightarrow> (\<exists>s k g'. MmbiEvtIoWrite i st bs len g = Inr ((s, k), g'))) \<and>
     (\<forall>i len. \<exists>g'. MmbiEvtIoRead i STATUS_SUCCESS len g =
        Inr ((STATUS_SUCCESS, take (unat (ucast len :: u32)) (waiting (i \<noteq> 0) g)), g'))"
proof -
  note s = drv_run_streams [OF assms drv_empty(1), of host, unfolded drv_empty(2) append_Nil]
  then have ok: "drv_ok g" ..
  have "\<exists>s k g'. MmbiEvtIoWrite i st bs len g = Inr ((s, k), g')" if "unat (ucast len :: u32) \<le> length bs" for i st bs len
    by (rule driver_write_any [OF ok that, of i st]) blast
  moreover have "\<exists>g'. MmbiEvtIoRead i STATUS_SUCCESS len g =
        Inr ((STATUS_SUCCESS, take (unat (ucast len :: u32)) (waiting (i \<noteq> 0) g)), g')" for i len
    by (rule driver_read [OF ok, of i len, unfolded dev_waiting]) blast
  ultimately show ?thesis using s waiting_bounded [OF ok] by simp
qed

theorem driver_streams_witness:
  "\<exists>g. drv_run \<lparr>HostToBmc = ring_empty, BmcToHost = ring_empty\<rparr> [Wrote 0 [5, 6, 7], Got 1 [5, 6]] g \<and>
     all_got False [Wrote 0 [5, 6, 7], Got 1 [5, 6]] = [5, 6] \<and> waiting True g = [7]"
proof -
  let ?e = "\<lparr>HostToBmc = ring_empty, BmcToHost = ring_empty\<rparr>"
  obtain g1 where w: "MmbiEvtIoWrite 0 STATUS_SUCCESS [5, 6, 7] 3 ?e = Inr ((STATUS_SUCCESS, 3), g1)" "drv_ok g1" "waiting True g1 = [5, 6, 7]"
    by (rule driver_write [OF drv_empty(1), of 3 "[5, 6, 7]" 3 0]) (auto simp: dev_waiting drv_empty ring_size_def)
  obtain g2 where r: "MmbiEvtIoRead 1 STATUS_SUCCESS 2 g1 = Inr ((STATUS_SUCCESS, [5, 6]), g2)"
    by (rule driver_read [OF w(2), of 1 2]) (auto simp: dev_waiting w(3))
  have "drv_run ?e ([] @ [Wrote 0 (take (unat (3 :: u32)) [5, 6, 7])]) g1"
    by (rule run_write [OF run_start _ w(1)]) simp
  then have "drv_run ?e ([Wrote 0 [5, 6, 7]] @ [Got 1 [5, 6]]) g2" by (intro run_read [OF _ r]) simp
  then show ?thesis using driver_streams [of "[Wrote 0 [5, 6, 7], Got 1 [5, 6]]" g2 True]
    by (intro exI [of _ g2]) (simp add: all_written_def all_got_def)
qed

end
