(* ===== verification/Mctp_Example.thy ===== *)
theory Mctp_Example
  imports Mctp_Lifecycle
begin

text \<open>
  One concrete endpoint: an instance set up on the default allocator with every allocation
  succeeding, with an MMBI binding in memory mode registered under EID 9 and message handler 7.
  The instances of the properties are evaluated on it, on the same endpoint with its binding disabled,
  with a message or a request waiting, or with two messages under way, and on a peer with EID 8.
\<close>

definition ex_api :: "unit win_api" where
  "ex_api = \<lparr>CreateFileA = (\<lambda>path d. (1, d)), WriteFile = (\<lambda>buf d. ((True, of_nat (length buf)), d)),
     PeekNamedPipe = (\<lambda>d. (True, 0)), ReadFile = (\<lambda>n d. ((True, [], 0), d))\<rparr>"

definition ex_mmbi :: "unit mmbi" where
  "ex_mmbi = \<lparr>rx_storage = Some (replicate 65540 0), tx_storage = Some (replicate 65540 0), memory_size = 65540,
     device_handle = 0, mm_dev = ()\<rparr>"

definition ex_binding :: "unit mmbi mctp_binding" where
  "ex_binding = \<lparr>b_name = BINDING_NAME, b_version = 1, b_bus = None, b_mctp = False,
     b_pkt_size = 65540, b_pkt_header = 0, b_pkt_trailer = 0,
     b_tx_storage = Some (fresh_pktbuf 0 65540), b_start = Some Mctp_mmbi_start,
     b_tx = Some (mctp_mmbi_tx ex_api), b_control_rx = None, b_control_rx_data = 0, b_priv = ex_mmbi\<rparr>"

text \<open>The state before anything is set up, with one binding, and the endpoint after setting up,
  registering the binding under an EID and installing message handler 7.\<close>

definition start_with :: "'e mctp_binding \<Rightarrow> 'e world" where
  "start_with bnd = \<lparr>n_busses = 0, busses = [], message_rx = None, message_rx_data = 0, capture = None, capture_data = 0,
     msg_ctxs = [], req_tags = [], tag_round_robin = 0, route_policy = ROUTE_ENDPOINT, max_message_size = 0,
     control = zero_control, alloc_ctx = 0, platform_now = None, platform_now_ctx = 0,
     bindings = (\<lambda>_. bnd),
     heap = \<lparr>h_next = 1, h_live = {0}, h_ok = (\<lambda>b n. True)\<rparr>, ops = default_alloc_ops,
     clock = (\<lambda>f u. 5), trace = []\<rparr>"

definition endpoint_with :: "'e mctp_binding \<Rightarrow> u8 \<Rightarrow> 'e world" where
  "endpoint_with bnd eid = snd (mctp_set_rx_all (Some 7) 3
     (snd (projr (mctp_register_bus 0 eid (snd (projr (mctp_setup SIZEOF_MCTP (start_with bnd))))))))"

definition ex_start :: "unit mmbi_world" where "ex_start = start_with ex_binding"

definition ex_endpoint :: "unit mmbi_world" where "ex_endpoint = endpoint_with ex_binding 9"

text \<open>A packet in a buffer of its own.\<close>

definition ex_pkt :: "bytes \<Rightarrow> mctp_pktbuf" where
  "ex_pkt bs = \<lparr>pk_start = 0, pk_end = of_nat (length bs), pk_size = of_nat (length bs), mctp_hdr_off = 0,
     pk_alloc = False, pk_data = bs, pk_blk = None\<rparr>"

lemma ex_binding_new: "binding_new (mctp_mmbi_tx ex_api) (mmbi_mem_ok 65540) 65540 ex_binding"
  by (simp add: binding_new_def binding_ok_def ex_binding_def ex_mmbi_def mmbi_mem_ok_def mmbi_ok_def
      has_device_def fresh_pktbuf_def pktbuf_storage_size_def)

lemma start_with_sel [simp]:
  "bindings (start_with bnd) b = bnd" "trace (start_with bnd) = []" "ops (start_with bnd) = default_alloc_ops"
  "heap (start_with bnd) = \<lparr>h_next = 1, h_live = {0}, h_ok = (\<lambda>b n. True)\<rparr>"
  by (simp_all add: start_with_def)

lemma start_with_heap: "good_ops (ops (start_with bnd))" "heap_owns {#0#} (heap (start_with bnd))"
  by (simp_all add: heap_owns_def heap_ok_def)

lemmas ex_start_heap = start_with_heap [of ex_binding, folded ex_start_def]

lemma ex_start_binding: "bindings ex_start 0 = ex_binding" "trace ex_start = []"
  by (simp_all add: ex_start_def)

lemma endpoint_with_ok:
  assumes "binding_new tx P mtu bnd"
  shows "endpoint_ok tx P mtu 0 {#0#} (endpoint_with bnd eid)"
    "bus_at (endpoint_with bnd eid) 0 = zero_bus\<lparr>bus_mctp := True, bus_binding := Some 0, bus_eid := eid,
           bus_state := mctp_bus_state_tx_enabled\<rparr>"
    "msg_ctxs (endpoint_with bnd eid) = replicate 16 zero_ctx" "trace (endpoint_with bnd eid) = []"
    "message_rx (endpoint_with bnd eid) = Some 7" "message_rx_data (endpoint_with bnd eid) = 3" "capture (endpoint_with bnd eid) = None"
    "heap (endpoint_with bnd eid) = heap (start_with bnd)" "ops (endpoint_with bnd eid) = default_alloc_ops"
    "max_message_size (endpoint_with bnd eid) = MCTP_MAX_MESSAGE_SIZE" "req_tags (endpoint_with bnd eid) = replicate 16 zero_req_tag"
    "bindings (endpoint_with bnd eid) 0 = bnd\<lparr>b_bus := Some 0, b_mctp := True\<rparr>" "type_list (control (endpoint_with bnd eid)) = [0]"
    "mctp_now (endpoint_with bnd eid) = Inr 5" "tag_round_robin (endpoint_with bnd eid) = 0"
proof -
  have new: "binding_new tx P mtu (bindings (start_with bnd) 0)" using assms by simp
  obtain w where r: "mctp_register_bus 0 eid (fresh_mctp (start_with bnd)) = Inr (0, w)"
    and w: "endpoint_ok tx P mtu 0 {#0#} w"
      "bus_at w 0 = zero_bus\<lparr>bus_mctp := True, bus_binding := Some 0, bus_eid := eid, bus_state := mctp_bus_state_tx_enabled\<rparr>"
      "msg_ctxs w = replicate 16 zero_ctx" "trace w = trace (start_with bnd)"
      "heap w = heap (start_with bnd)" "ops w = ops (start_with bnd)" "capture w = None"
      "max_message_size w = MCTP_MAX_MESSAGE_SIZE" "req_tags w = replicate 16 zero_req_tag"
      "type_list (control w) = [0]"
      "bindings w = (bindings (start_with bnd))(0 := (bindings (start_with bnd) 0)\<lparr>b_bus := Some 0, b_mctp := True\<rparr>)"
      "clock w = clock (start_with bnd)" "platform_now w = Some 0" "tag_round_robin w = 0"
    by (rule register_ok [OF new start_with_heap, of eid]) (rule that)
  have e: "endpoint_with bnd eid = snd (mctp_set_rx_all (Some 7) 3 w)"
    using r by (simp add: endpoint_with_def mctp_setup_eq)
  show "endpoint_ok tx P mtu 0 {#0#} (endpoint_with bnd eid)"
    unfolding e by (rule endpoint_ok_config(3) [OF w(1)])
  show "bus_at (endpoint_with bnd eid) 0 = zero_bus\<lparr>bus_mctp := True, bus_binding := Some 0, bus_eid := eid,
           bus_state := mctp_bus_state_tx_enabled\<rparr>"
    using w(2) by (simp add: e mctp_set_rx_all_def bus_at_def)
  show "msg_ctxs (endpoint_with bnd eid) = replicate 16 zero_ctx" "trace (endpoint_with bnd eid) = []"
    "message_rx (endpoint_with bnd eid) = Some 7" "message_rx_data (endpoint_with bnd eid) = 3" "capture (endpoint_with bnd eid) = None"
    "heap (endpoint_with bnd eid) = heap (start_with bnd)" "ops (endpoint_with bnd eid) = default_alloc_ops"
    "max_message_size (endpoint_with bnd eid) = MCTP_MAX_MESSAGE_SIZE" "req_tags (endpoint_with bnd eid) = replicate 16 zero_req_tag"
    "bindings (endpoint_with bnd eid) 0 = bnd\<lparr>b_bus := Some 0, b_mctp := True\<rparr>" "type_list (control (endpoint_with bnd eid)) = [0]"
    "mctp_now (endpoint_with bnd eid) = Inr 5" "tag_round_robin (endpoint_with bnd eid) = 0"
    using w(3-) by (simp_all add: e mctp_set_rx_all_def mctp_now_def start_with_def)
qed

lemmas ex_endpoint_mem = endpoint_with_ok [OF ex_binding_new, of 9, folded ex_endpoint_def ex_start_def]

lemma endpoint_ok_weaken:
  "endpoint_ok tx P mtu b F w \<Longrightarrow> (\<And>e. P e \<Longrightarrow> Q e) \<Longrightarrow> endpoint_ok tx Q mtu b F w"
  by (simp add: endpoint_defs)

lemma ex_endpoint_ok: "endpoint_ok (mctp_mmbi_tx ex_api) mmbi_ok 65540 0 {#0#} ex_endpoint"
  by (rule endpoint_ok_weaken [OF ex_endpoint_mem(1)]) (simp add: mmbi_mem_ok_def)

lemma ex_pkt_ok:
  assumes "length bs < 2 ^ 64"
  shows "pktbuf_wf (ex_pkt bs)" and "mctp_hdr_off (ex_pkt bs) = pk_start (ex_pkt bs)"
    and "pktbuf_bytes (ex_pkt bs) = bs"
  using assms by (simp_all add: pktbuf_wf_def ex_pkt_def pktbuf_bytes_def unat_of_nat word_le_nat_alt)

lemma ex_pkt_rx: "length bs < 2 ^ 64 \<Longrightarrow> 4 \<le> length bs \<Longrightarrow> rx_pkt (ex_pkt bs)"
  using ex_pkt_ok [of bs] by (simp add: rx_pkt_def)

lemma ex_plenty: "plenty ex_endpoint"
  by (simp add: plenty_def ex_endpoint_mem ex_start_def)

section \<open>A message that waits\<close>

definition ex_disabled :: "unit mmbi_world" where
  "ex_disabled = projr (mctp_binding_set_tx_enabled 0 False ex_endpoint)"

definition ex_pending :: "unit mmbi_world" where
  "ex_pending = snd (projr (mctp_message_tx 8 True 3 [0x7e, 5] 2 ex_disabled))"

lemma ex_busses: "0 < length (busses ex_endpoint)" "n_busses ex_endpoint = 1"
  using ex_endpoint_ok by (simp_all add: endpoint_defs)

lemma ex_disabled_ok:
  "endpoint_ok (mctp_mmbi_tx ex_api) (mmbi_mem_ok 65540) 65540 0 {#0#} ex_disabled"
  "ex_disabled = set_bus 0 ((bus_at ex_endpoint 0)\<lparr>bus_state := mctp_bus_state_tx_disabled\<rparr>) ex_endpoint"
proof -
  have r: "mctp_binding_set_tx_enabled 0 False ex_endpoint =
      Inr (set_bus 0 ((bus_at ex_endpoint 0)\<lparr>bus_state := mctp_bus_state_tx_disabled\<rparr>) ex_endpoint)"
    by (simp add: mctp_binding_set_tx_enabled_def ex_endpoint_mem)
  then show e: "ex_disabled = set_bus 0 ((bus_at ex_endpoint 0)\<lparr>bus_state := mctp_bus_state_tx_disabled\<rparr>) ex_endpoint"
    by (simp add: ex_disabled_def)
  show "endpoint_ok (mctp_mmbi_tx ex_api) (mmbi_mem_ok 65540) 65540 0 {#0#} ex_disabled"
    by (rule mmbi_mem.set_tx_enabled_ok [OF ex_endpoint_mem(1), of False]) (simp add: r e)
qed

lemma ex_pending_ok:
  "endpoint_ok (mctp_mmbi_tx ex_api) (mmbi_mem_ok 65540) 65540 0 {#0#} ex_pending"
  "bus_at ex_pending 0 = zero_bus\<lparr>bus_mctp := True, bus_binding := Some 0, bus_eid := 9,
     bus_state := mctp_bus_state_tx_disabled, tx_msg := Some \<lparr>mb_blk = 1, mb_size = 2, mb_data = [0x7e, 5]\<rparr>,
     tx_msglen := 2, tx_src := 9, tx_dest := 8, tx_to := True, tx_tag := 3\<rparr>"
  "bindings ex_pending 0 = bindings ex_endpoint 0" "trace ex_pending = []" "capture ex_pending = None"
proof -
  let ?mb = "\<lparr>mb_blk = 1, mb_size = 2, mb_data = [0x7e, 5]\<rparr>"
  let ?w = "ex_disabled\<lparr>heap := (heap ex_start)\<lparr>h_next := 2, h_live := {1, 0}\<rparr>\<rparr>"
  have d: "mctp_msg_dup [0x7e, 5] 0 2 True ex_disabled = Inr (Some ?mb, ?w)"
    by (simp add: ex_disabled_ok(2) ex_endpoint_mem ex_start_def mctp_msg_dup_def w_msg_alloc_def mctp_msg_alloc_def
        default_msg_malloc_def mctp_alloc_def default_alloc_ops_def libc_malloc_def Let_def mem_read_def buf_write_def)
  have at: "bus_at ex_disabled 0 = (bus_at ex_endpoint 0)\<lparr>bus_state := mctp_bus_state_tx_disabled\<rparr>"
    using ex_busses by (simp add: ex_disabled_ok(2) bus_at_def)
  have s: "n_busses ex_disabled = 1" "bindings ex_disabled 0 = ex_binding\<lparr>b_bus := Some 0, b_mctp := True\<rparr>" "busses ex_disabled \<noteq> []"
    using ex_busses by (simp_all add: ex_disabled_ok(2) ex_endpoint_mem(12))
  have r: "mctp_message_tx 8 True 3 [0x7e, 5] 2 ex_disabled = Inr (0, set_bus 0 ((bus_at ex_disabled 0)\<lparr>tx_msg := Some ?mb,
      tx_msglen := 2, tx_msgpos := 0, tx_src := 9, tx_dest := 8, tx_to := True, tx_tag := 3\<rparr>) ?w)"
    using ex_busses s
    by (simp add: mctp_message_tx_def d mctp_message_tx_alloced_def find_bus_for_eid_def mctp_message_tx_on_bus_def at Let_def
        ex_endpoint_mem(2) ex_binding_def zero_bus_def mctp_send_tx_queue_def send_tx_queue.simps)
  note e = ex_pending_def [unfolded r, simplified]
  show "endpoint_ok (mctp_mmbi_tx ex_api) (mmbi_mem_ok 65540) 65540 0 {#0#} ex_pending"
    by (rule mmbi_mem.message_tx_ok [OF ex_disabled_ok(1), of 2 "[0x7e, 5]" 8 True 3]) (simp_all add: r ex_pending_def)
  show "bus_at ex_pending 0 = zero_bus\<lparr>bus_mctp := True, bus_binding := Some 0, bus_eid := 9,
     bus_state := mctp_bus_state_tx_disabled, tx_msg := Some ?mb, tx_msglen := 2, tx_src := 9, tx_dest := 8,
     tx_to := True, tx_tag := 3\<rparr>"
    using s(3) at by (simp add: e ex_endpoint_mem(2) zero_bus_def)
  show "bindings ex_pending 0 = bindings ex_endpoint 0" "trace ex_pending = []" "capture ex_pending = None"
    by (simp_all add: e ex_disabled_ok(2) ex_endpoint_mem)
qed

section \<open>A request\<close>

text \<open>A second endpoint, with EID 8.\<close>

definition ex_peer :: "unit mmbi_world" where "ex_peer = endpoint_with ex_binding 8"

lemmas ex_peer_mem = endpoint_with_ok [OF ex_binding_new, of 8, folded ex_peer_def]

text \<open>The first request of the endpoint while its binding is disabled: it takes tag 0 and waits.\<close>

definition ex_request_msg :: msgbuf where
  "ex_request_msg = \<lparr>mb_blk = 0, mb_size = 1, mb_data = [0x7e]\<rparr>"

definition ex_asked :: "unit mmbi_world" where
  "ex_asked = snd (projr (mctp_message_tx_request 8 ex_request_msg 1 ex_disabled))"

lemma scan_tags_zero:
  "scan_tags now l r (replicate n zero_req_tag) i used spare = (used, if n = 0 then spare else Some (i + n - 1))"
  by (induction n arbitrary: i spare) (auto simp: zero_req_tag_def)

lemma ex_asked_ok:
  "mctp_message_tx_request 8 ex_request_msg 1 ex_disabled = Inr ((0, Some 0), ex_asked)"
  "msg_ctxs ex_asked = replicate 16 zero_ctx" "max_message_size ex_asked = MCTP_MAX_MESSAGE_SIZE" "plenty ex_asked"
  "message_rx ex_asked = Some 7" "message_rx_data ex_asked = 3" "capture ex_asked = None" "trace ex_asked = []"
proof -
  let ?r = "\<lparr>rt_local = 9, rt_remote = 8, rt_tag = 0, rt_expiry = 6005\<rparr>"
  let ?w = "ex_disabled\<lparr>req_tags := (replicate 16 zero_req_tag)[15 := ?r], tag_round_robin := 1\<rparr>"
  have now: "mctp_now ex_disabled = Inr 5" using ex_endpoint_mem(14) by (simp add: ex_disabled_ok(2) mctp_now_def set_bus_def split: option.splits)
  have tag: "mctp_alloc_tag 9 8 ex_disabled = Inr ((0, Some 0), ?w)"
    by (simp add: mctp_alloc_tag_def now [unfolded ex_disabled_ok(2)] ex_disabled_ok(2) ex_endpoint_mem(11,15) scan_tags_zero next_tag_def upt_rec)
  have at: "bus_at ex_disabled 0 = (bus_at ex_endpoint 0)\<lparr>bus_state := mctp_bus_state_tx_disabled\<rparr>"
    using ex_busses by (simp add: ex_disabled_ok(2) bus_at_def)
  have at': "bus_at ?w 0 = bus_at ex_disabled 0" by (simp add: bus_at_def)
  have s: "n_busses ex_disabled = 1" "bindings ex_disabled 0 = ex_binding\<lparr>b_bus := Some 0, b_mctp := True\<rparr>" "busses ex_disabled \<noteq> []"
    using ex_busses by (simp_all add: ex_disabled_ok(2) ex_endpoint_mem(12))
  have r: "mctp_message_tx_request 8 ex_request_msg 1 ex_disabled = Inr ((0, Some 0), set_bus 0 ((bus_at ex_disabled 0)\<lparr>tx_msg := Some ex_request_msg,
      tx_msglen := 1, tx_msgpos := 0, tx_src := 9, tx_dest := 8, tx_to := True, tx_tag := 0\<rparr>) ?w)"
    using s tag
    by (simp add: mctp_message_tx_request_def mctp_message_tx_alloced_def find_bus_for_eid_def mctp_message_tx_on_bus_def at at' Let_def
        ex_endpoint_mem(2) ex_binding_def zero_bus_def mctp_send_tx_queue_def send_tx_queue.simps)
  note e = ex_asked_def [unfolded r, simplified]
  show "mctp_message_tx_request 8 ex_request_msg 1 ex_disabled = Inr ((0, Some 0), ex_asked)" by (simp add: ex_asked_def r)
  show "msg_ctxs ex_asked = replicate 16 zero_ctx" "max_message_size ex_asked = MCTP_MAX_MESSAGE_SIZE" "plenty ex_asked"
    "message_rx ex_asked = Some 7" "message_rx_data ex_asked = 3" "capture ex_asked = None" "trace ex_asked = []"
    by (simp_all add: e ex_disabled_ok(2) ex_endpoint_mem plenty_def ex_start_def)
qed

section \<open>Two messages under way\<close>

definition ex_ctx :: "nat \<Rightarrow> u8 \<Rightarrow> u8 \<Rightarrow> mctp_msg_ctx" where
  "ex_ctx blk src tag = \<lparr>ctx_buf = Some \<lparr>mb_blk = blk, mb_size = 100, mb_data = [0x7e]\<rparr>, ctx_src = src, ctx_dest = 9,
     ctx_tag = tag, ctx_last_seq = 0, ctx_buf_size = 1, ctx_buf_alloc_size = 100, ctx_fragment_size = 68\<rparr>"

definition ex_two :: "unit mmbi_world" where
  "ex_two = ex_endpoint\<lparr>msg_ctxs := [ex_ctx 1 8 1, ex_ctx 2 10 2] @ replicate 14 zero_ctx,
     heap := (heap ex_endpoint)\<lparr>h_next := 3, h_live := {0, 1, 2}\<rparr>\<rparr>"

lemma ex_two_table:
  "asm_table (msg_ctxs ex_two) (8, 9, 1) = Some \<lparr>asm_msg = [0x7e], asm_seq = 0, asm_frag = 68, asm_limit = 100\<rparr>"
  "asm_table (msg_ctxs ex_two) (10, 9, 2) = Some \<lparr>asm_msg = [0x7e], asm_seq = 0, asm_frag = 68, asm_limit = 100\<rparr>"
  by (simp_all add: ex_two_def asm_table_def slot_map_def slot_find_def ex_ctx_def ctx_key_def asm_of_def ctx_msg_def ctx_used_def)

lemma ex_two_unique: "ctxs_unique (msg_ctxs ex_two)"
proof -
  have "i = 0 \<or> i = 1" if "i < 16" "ctx_used (msg_ctxs ex_two ! i)" for i
    using that by (auto simp: ex_two_def ctx_used_def zero_ctx_def nth_Cons split: nat.splits)
  moreover have "ctx_key (msg_ctxs ex_two ! 0) \<noteq> ctx_key (msg_ctxs ex_two ! 1)"
    by (simp add: ex_two_def ex_ctx_def ctx_key_def)
  moreover have "length (msg_ctxs ex_two) = 16" by (simp add: ex_two_def)
  ultimately show ?thesis unfolding slots_unique_def by metis
qed

lemma ex_two_ok: "endpoint_ok (mctp_mmbi_tx ex_api) mmbi_ok 65540 0 {#0#} ex_two"
proof -
  have wf: "ctx_wf zero_ctx" "ctx_wf (ex_ctx blk src tag)" for blk src tag
    by (simp_all add: ctx_wf_def zero_ctx_def ex_ctx_def)
  have "ctxs_ok (msg_ctxs ex_two)"
    unfolding ctxs_ok_def using ex_two_unique wf by (auto simp: ex_two_def)
  moreover have "owned ex_two = {#1, 2#}"
    by (simp add: owned_def ctx_own_def ex_two_def ex_ctx_def zero_ctx_def ex_endpoint_mem(2) zero_bus_def bus_at_def [symmetric] numeral_eq_Suc)
  moreover have "heap_owns {#0, 1, 2#} (heap ex_two)"
    by (simp add: heap_owns_def heap_ok_def ex_two_def)
  ultimately show ?thesis using ex_endpoint_ok
    by (auto simp: endpoint_defs ex_two_def bus_at_def add_mset_commute)
qed

text \<open>A binding whose memory is smaller than a packet.\<close>

definition ex_small_binding :: "unit mmbi mctp_binding" where
  "ex_small_binding = ex_binding\<lparr>b_priv := ex_mmbi\<lparr>tx_storage := Some (replicate 64 0), memory_size := 64\<rparr>\<rparr>"

section \<open>A bridge\<close>

definition ex_bridge :: "unit mmbi_world" where
  "ex_bridge = snd (projr (mctp_bridge_busses 0 1 (snd (projr (mctp_setup SIZEOF_MCTP ex_start)))))"

lemma ex_bridge_ok:
  "bridge_ok (mctp_mmbi_tx ex_api) (mmbi_mem_ok 65540) 65540 [0, 1] ex_bridge" "plenty ex_bridge"
  "b_bus (bindings ex_bridge 0) = Some 0" "b_mctp (bindings ex_bridge 0)" "0 < length (busses ex_bridge)" "\<not> bus_mctp (bus_at ex_bridge 0)"
  "route_policy ex_bridge = ROUTE_BRIDGE" "msg_ctxs ex_bridge = replicate 16 zero_ctx" "trace ex_bridge = []" "capture ex_bridge = None"
  "max_message_size ex_bridge = MCTP_MAX_MESSAGE_SIZE" "bindings ex_bridge 1 = ex_binding\<lparr>b_bus := Some 1, b_mctp := True\<rparr>"
  "bus_at ex_bridge 1 = zero_bus\<lparr>bus_binding := Some 1, bus_state := mctp_bus_state_tx_enabled\<rparr>"
  "bindings ex_bridge 0 = ex_binding\<lparr>b_bus := Some 0, b_mctp := True\<rparr>"
  "bus_at ex_bridge 0 = zero_bus\<lparr>bus_binding := Some 0, bus_state := mctp_bus_state_tx_enabled\<rparr>"
  "bus_idle 0 ex_bridge" "bus_idle 1 ex_bridge"
proof -
  have new: "binding_new (mctp_mmbi_tx ex_api) (mmbi_mem_ok 65540) 65540 (bindings ex_start b)" for b
    using ex_binding_new by (simp add: ex_start_def)
  have hk: "heap_ok (heap ex_start)" using ex_start_heap by (simp add: heap_owns_def)
  obtain w where r: "mctp_bridge_busses 0 1 (fresh_mctp ex_start) = Inr (0, w)"
    and w: "bridge_ok (mctp_mmbi_tx ex_api) (mmbi_mem_ok 65540) 65540 [0, 1] w"
    "\<not> bus_mctp (bus_at w 0)" "msg_ctxs w = replicate 16 zero_ctx"
    "heap w = heap ex_start" "ops w = ops ex_start" "trace w = trace ex_start" "capture w = None"
    "max_message_size w = MCTP_MAX_MESSAGE_SIZE"
    "bindings w = (bindings ex_start)(0 := (bindings ex_start 0)\<lparr>b_bus := Some 0, b_mctp := True\<rparr>,
           1 := (bindings ex_start 1)\<lparr>b_bus := Some 1, b_mctp := True\<rparr>)"
    "bus_at w 0 = zero_bus\<lparr>bus_binding := Some 0, bus_state := mctp_bus_state_tx_enabled\<rparr>"
    "bus_at w 1 = zero_bus\<lparr>bus_binding := Some 1, bus_state := mctp_bus_state_tx_enabled\<rparr>"
    "bus_idle 0 w" "bus_idle 1 w"
    by (rule bridge_busses_ok [OF new new zero_neq_one ex_start_heap(1) hk]) (rule that)
  have e: "ex_bridge = w" using r by (simp add: ex_bridge_def mctp_setup_eq)
  show "bridge_ok (mctp_mmbi_tx ex_api) (mmbi_mem_ok 65540) 65540 [0, 1] ex_bridge" unfolding e by (rule w(1))
  show "plenty ex_bridge" using w(4,5) by (simp add: e plenty_def ex_start_def)
  show "b_bus (bindings ex_bridge 0) = Some 0" "b_mctp (bindings ex_bridge 0)" "0 < length (busses ex_bridge)"
    "route_policy ex_bridge = ROUTE_BRIDGE" using w(1) by (auto simp: e bridge_ok_def all_less_two tx_ready_def binding_ok_def)
  show "\<not> bus_mctp (bus_at ex_bridge 0)" "msg_ctxs ex_bridge = replicate 16 zero_ctx" "trace ex_bridge = []" "capture ex_bridge = None"
    "max_message_size ex_bridge = MCTP_MAX_MESSAGE_SIZE" "bindings ex_bridge 1 = ex_binding\<lparr>b_bus := Some 1, b_mctp := True\<rparr>"
    "bus_at ex_bridge 1 = zero_bus\<lparr>bus_binding := Some 1, bus_state := mctp_bus_state_tx_enabled\<rparr>"
    "bindings ex_bridge 0 = ex_binding\<lparr>b_bus := Some 0, b_mctp := True\<rparr>"
    "bus_at ex_bridge 0 = zero_bus\<lparr>bus_binding := Some 0, bus_state := mctp_bus_state_tx_enabled\<rparr>"
    "bus_idle 0 ex_bridge" "bus_idle 1 ex_bridge"
    using w(2-) by (simp_all add: e ex_start_def)
qed

end
