(* ===== verification/Mmbi_System.thy ===== *)
theory Mmbi_System
  imports Mctp_Transport Mmbi_Driver Mctp_Example
begin

unbundle bit_operations_syntax

text \<open>
  The system put together: two endpoints with an MMBI binding in device mode (\<^verbatim>\<open>src/mmbi.c\<close>) on the two
  devices of the ring buffer driver (\<^verbatim>\<open>windows_driver/MmbiDriver.c\<close>). The operating system between
  \<open>WriteFile\<close>/\<open>ReadFile\<close> and the driver's handlers is the hypothesis \<open>driver_calls\<close>; \<open>on_driver\<close> is an
  endpoint with one of the devices open. A message in one packet arrives; what happens when a packet meets
  a full ring or a second packet behind it is shown as well.
\<close>

section \<open>The Windows calls on the driver's devices\<close>

text \<open>What the user-mode calls do on a handle of device \<open>i\<close>: \<open>WriteFile\<close> and \<open>ReadFile\<close> run the
  driver's handlers on the request's buffer, succeed when the request is completed with success and
  return its information field and data; \<open>PeekNamedPipe\<close> fails, since the handle is no pipe.\<close>

definition driver_calls :: "nat \<Rightarrow> mmbi_shared win_api \<Rightarrow> bool" where
  "driver_calls i api \<longleftrightarrow>
     (\<forall>buf g st n g'. MmbiEvtIoWrite i STATUS_SUCCESS buf (of_nat (length buf)) g = Inr ((st, n), g') \<longrightarrow>
        WriteFile api buf g = ((NT_SUCCESS st, n), g')) \<and>
     (\<forall>n g st bs g'. MmbiEvtIoRead i STATUS_SUCCESS (ucast n) g = Inr ((st, bs), g') \<longrightarrow>
        (\<exists>err. ReadFile api n g = ((NT_SUCCESS st, bs, err), g'))) \<and>
     (\<forall>g. \<not> fst (PeekNamedPipe api g))"

lemma driver_WriteFile:
  assumes "driver_calls i api" and "drv_ok g" and "length bs < 2 ^ 32"
    and "n = min (length bs) (ring_size - length (dev_out i g))"
  obtains g' where "WriteFile api bs g = ((bs = [] \<or> 0 < n, of_nat n), g')"
    and "drv_ok g'" and "dev_out i g' = dev_out i g @ take n bs" and "dev_in i g' = dev_in i g"
proof -
  have l: "unat (ucast (of_nat (length bs) :: u64) :: u32) = length bs"
    using assms(3) by (simp add: unsigned_ucast_eq unat_of_nat take_bit_nat_eq_self)
  have z: "(of_nat (length bs) :: u64) > 0 \<longleftrightarrow> bs \<noteq> []"
    using assms(3) by (simp add: word_less_nat_alt unat_of_nat)
  obtain g' where g: "MmbiEvtIoWrite i STATUS_SUCCESS bs (of_nat (length bs)) g =
        Inr (if n = 0 \<and> (of_nat (length bs) :: u64) > 0 then (STATUS_DEVICE_BUSY, 0) else (STATUS_SUCCESS, of_nat n), g')"
    "drv_ok g'" "dev_out i g' = dev_out i g @ take n bs" "dev_in i g' = dev_in i g"
    by (rule driver_write [OF assms(2), of "of_nat (length bs)" bs n i]) (use l assms(4) that in auto)
  have "WriteFile api bs g = ((bs = [] \<or> 0 < n, of_nat n), g')"
    using assms(1) g(1) z unfolding driver_calls_def by (auto simp: NT_SUCCESS_def split: if_splits)
  then show ?thesis using g(2-4) by (rule that)
qed

lemma unat_u32_u64: "unat (ucast (ucast (n :: u32) :: u64) :: u32) = unat n"
proof -
  have a: "unat (ucast n :: u64) = unat n" by (simp add: unsigned_ucast_eq take_bit_nat_eq_self [OF less_trans [OF unsigned_less]])
  have "unat (ucast y :: u32) = take_bit 32 (unat y)" for y :: u64 by (simp add: unsigned_ucast_eq)
  from this [of "ucast n"] show ?thesis
    unfolding a using unsigned_less [of n, where ?'a = nat] by (simp add: take_bit_nat_eq_self)
qed

lemma driver_ReadFile:
  assumes "driver_calls i api" and "drv_ok g"
  obtains g' err where "ReadFile api n g = ((True, take (unat n) (dev_in i g), err), g')"
    and "drv_ok g'" and "dev_in i g' = drop (unat n) (dev_in i g)" and "dev_out i g' = dev_out i g"
proof -
  note u = unat_u32_u64 [of n]
  obtain g' where g: "MmbiEvtIoRead i STATUS_SUCCESS (ucast n) g = Inr ((STATUS_SUCCESS, take (unat n) (dev_in i g)), g')"
    "drv_ok g'" "dev_in i g' = drop (unat n) (dev_in i g)" "dev_out i g' = dev_out i g"
    using u by (metis driver_read [OF assms(2), of i "ucast n"])
  have "\<exists>err. ReadFile api n g = ((NT_SUCCESS STATUS_SUCCESS, take (unat n) (dev_in i g), err), g')"
    using assms(1) g(1) unfolding driver_calls_def by blast
  then obtain err where "ReadFile api n g = ((True, take (unat n) (dev_in i g), err), g')" by (auto simp: NT_SUCCESS_def)
  then show ?thesis using g(2-4) by (rule that)
qed

section \<open>One packet into the driver\<close>

lemma driver_tx:
  assumes dev: "has_device m" and calls: "driver_calls i api" and ok: "drv_ok (mm_dev m)" and pkt: "rx_pkt pkt"
    and room: "length (dev_out i (mm_dev m)) + length (pktbuf_bytes pkt) \<le> ring_size"
  obtains g' where "mctp_mmbi_tx api m pkt = Inr (0, m\<lparr>mm_dev := g'\<rparr>)" and "drv_ok g'"
    and "dev_out i g' = dev_out i (mm_dev m) @ pktbuf_bytes pkt" and "dev_in i g' = dev_in i (mm_dev m)"
proof -
  let ?bs = "pktbuf_bytes pkt"
  have l: "length ?bs < 2 ^ 32" and n: "length ?bs = min (length ?bs) (ring_size - length (dev_out i (mm_dev m)))"
    using room by (auto simp: ring_size_def)
  obtain g' where g: "WriteFile api ?bs (mm_dev m) = ((?bs = [] \<or> 0 < length ?bs, of_nat (length ?bs)), g')" "drv_ok g'"
    "dev_out i g' = dev_out i (mm_dev m) @ take (length ?bs) ?bs" "dev_in i g' = dev_in i (mm_dev m)"
    by (rule driver_WriteFile [OF calls ok l n])
  have t: "took_all ?bs (attempt api ?bs 0 (mm_dev m))" using g(1) l by (auto simp: took_all_def unat_of_nat)
  then have run: "mctp_mmbi_tx api m pkt = Inr (0, m\<lparr>mm_dev := g'\<rparr>)"
    using mctp_mmbi_tx_attempts [OF dev pkt l, of api] g(1) by (metis attempt.simps(1) gr_zeroI snd_conv zero_less_numeral)
  show ?thesis by (rule that [OF run g(2)]) (use g(3,4) in simp_all)
qed


text \<open>A message in one packet, through a binding that takes this packet.\<close>

lemma message_tx_one:
  assumes ok: "endpoint_ok (mctp_mmbi_tx api) mmbi_ok mtu b F w" and can: "can_send w" and tag: "tag AND 7 = tag"
    and len: "unat n = length msg" "length msg \<le> mtu - 4"
    and fr: "frame = hdr_bytes (frag_hdr (bindings w b) ((tx_params (bus_at w 0) eid to tag)\<lparr>tx_seq := tx_seq (bus_at w 0)\<rparr>) True True) @ msg"
    and acc: "\<And>pkt. rx_pkt pkt \<Longrightarrow> pktbuf_bytes pkt = frame \<Longrightarrow>
       \<exists>m'. mctp_mmbi_tx api (b_priv (bindings w b)) pkt = Inr (0, m') \<and> Q m'"
  shows "\<exists>w'. mctp_message_tx eid to tag msg n w = Inr (0, w') \<and> endpoint_ok (mctp_mmbi_tx api) mmbi_ok mtu b F w' \<and>
     Q (b_priv (bindings w' b)) \<and> tx_msg (bus_at w' 0) = None"
proof -
  have pl: "plenty w" and idle: "tx_msg (bus_at w 0) = None" "bus_state (bus_at w 0) = mctp_bus_state_tx_enabled"
    using can by (simp_all add: can_send_def)
  obtain p h where d: "mctp_msg_dup msg 0 n True w = Inr (p, w\<lparr>heap := h\<rparr>)"
    "endpoint_ok (mctp_mmbi_tx api) mmbi_ok mtu b (own p + F) (w\<lparr>heap := h\<rparr>)"
    "\<And>mb. p = Some mb \<Longrightarrow> mb_data mb = take (unat n) (drop 0 msg)"
    by (rule mctp_msg_dup_ok [OF ok, of 0 n msg]) (use len in simp, rule that)
  then obtain mb where p: "p = Some mb" using plenty_dup [OF pl] by blast
  have mb: "mb_data mb = msg" using d(3) [OF p] len by simp
  let ?bus = "(bus_at w 0)\<lparr>tx_msg := Some mb, tx_msglen := n, tx_msgpos := 0, tx_src := bus_eid (bus_at w 0), tx_dest := eid,
     tx_to := to, tx_tag := tag\<rparr>"
  let ?w1 = "set_bus 0 ?bus (w\<lparr>heap := h\<rparr>)"
  have l2: "length (busses w) = 2" and bb: "bus_binding (bus_at w 0) = Some b" and bo: "binding_ok (bindings w b)"
    and mtu: "mtu = unat (b_pkt_size (bindings w b))" and fb: "find_bus_for_eid (w\<lparr>heap := h\<rparr>) eid = Some 0"
    using ok by (simp_all add: endpoint_defs find_bus_for_eid_def)
  have ok1: "endpoint_ok (mctp_mmbi_tx api) mmbi_ok mtu b F ?w1"
    using d(2) p l2 tag len mb idle by (simp add: endpoint_defs tx_pending_ok_def owned_def)
  note r = endpoint_ok_tx_ready [OF ok1]
  have at: "bus_at ?w1 0 = ?bus" using l2 by simp
  have fl: "frag_len (bindings w b) ?bus = length msg" using len mtu by (simp add: frag_len_def)
  obtain pkt w2 rc e' where o: "mctp_next_tx_pkt 0 ?w1 = Inr (Some pkt, w2)"
    "mctp_packet_tx 0 pkt w2 = Inr (rc, tx_upd 0 b (Some mb) (tx_msgpos ?bus)
           (of_nat (frag_len (bindings ?w1 b) ?bus)) (tx_seq ?bus) pkt e' (heap ?w1)
           (capture_events pkt True ?w1 @ [Ev_tx b pkt rc]) ?w1)"
    "mctp_mmbi_tx api (b_priv (bindings ?w1 b)) pkt = Inr (rc, e')" "mmbi_ok e'" "rx_pkt pkt"
    "pktbuf_bytes pkt = hdr_bytes (frag_hdr (bindings ?w1 b) ?bus (tx_msgpos ?bus = 0)
            (unat (tx_msgpos ?bus) + frag_len (bindings ?w1 b) ?bus = unat (tx_msglen ?bus))) @
          take (frag_len (bindings ?w1 b) ?bus) (drop (unat (tx_msgpos ?bus)) (mb_data mb))"
    by (rule mmbi.one_packet [OF r at, of mb]) (use idle in simp, use idle in simp, rule that)
  have "pktbuf_bytes pkt = frame" using o(6) fr fl len mb by (simp add: tx_params_def frag_hdr_def)
  then have rc: "rc = 0" and Q: "Q e'" using acc [OF o(5)] o(3) by auto
  obtain h2 where c: "mctp_tx_complete 0 (tx_upd 0 b (Some mb) (tx_msgpos ?bus)
           (of_nat (frag_len (bindings ?w1 b) ?bus)) (tx_seq ?bus) pkt e' (heap ?w1) (capture_events pkt True ?w1 @ [Ev_tx b pkt 0]) ?w1) =
         Inr (tx_upd 0 b None (tx_msgpos ?bus + of_nat (frag_len (bindings ?w1 b) ?bus))
           (of_nat (frag_len (bindings ?w1 b) ?bus)) ((tx_seq ?bus + 1) AND 3) pkt e' h2 (capture_events pkt True ?w1 @ [Ev_tx b pkt 0]) ?w1)"
    by (rule complete_done [OF r _ at, of mb pkt e' "capture_events pkt True ?w1 @ [Ev_tx b pkt 0]"]) (use fl len in simp, simp, rule that)
  let ?w' = "tx_upd 0 b None (tx_msgpos ?bus + of_nat (frag_len (bindings ?w1 b) ?bus))
           (of_nat (frag_len (bindings ?w1 b) ?bus)) ((tx_seq ?bus + 1) AND 3) pkt e' h2 (capture_events pkt True ?w1 @ [Ev_tx b pkt 0]) ?w1"
  have none: "tx_msg (bus_at ?w' 0) = None" using l2 by simp
  have "send_tx_queue (Suc (unat n)) 0 ?w1 = send_tx_queue (unat n) 0 ?w'"
    using at idle o(1,2) c rc by (subst send_tx_queue.simps) simp
  also have "\<dots> = Inr ?w'" using none by (subst send_tx_queue.simps) simp
  finally have q: "mctp_send_tx_queue 0 ?w1 = Inr ?w'" using at by (simp add: mctp_send_tx_queue_def)
  have "68 \<le> unat (b_pkt_size (bindings w b))" using bo by (simp add: binding_ok_def)
  then have "MCTP_BODY_SIZE (b_pkt_size (bindings w b)) \<ge> MCTP_BTU" by (simp add: word_le_nat_alt unat_diff_le)
  then have run: "mctp_message_tx eid to tag msg n w = Inr (0, ?w')"
    using d(1) p tag fb idle bb q by (simp add: mctp_message_tx_def mctp_message_tx_alloced_def mctp_message_tx_on_bus_def Let_def
        del: MCTP_BODY_SIZE_def MCTP_BTU_def)
  obtain w3 where "mctp_send_tx_queue 0 ?w1 = Inr w3" "endpoint_ok (mctp_mmbi_tx api) mmbi_ok mtu b F w3" by (rule mmbi.queue_ok [OF ok1])
  then have "endpoint_ok (mctp_mmbi_tx api) mmbi_ok mtu b F ?w'" using q by simp
  moreover have "Q (b_priv (bindings ?w' b))" using Q by simp
  ultimately show ?thesis using run none by blast
qed

text \<open>The sizes \<open>mctp_mmbi_init\<close> gives a binding.\<close>

definition mmbi_sized :: "'e mctp_binding \<Rightarrow> bool" where
  "mmbi_sized bnd \<longleftrightarrow> b_pkt_size bnd = 65540 \<and> b_pkt_header bnd = 0 \<and> b_pkt_trailer bnd = 0"

lemma mmbi_sized_eq:
  assumes "mmbi_sized bnd"
  shows "pktbuf_storage_size bnd = 65540" and "unat (poll_limit bnd) = 65544" and "unat (b_pkt_size bnd) = 65540"
  using assms by (simp_all add: mmbi_sized_def pktbuf_storage_size_def poll_limit_def)

section \<open>Polling the driver\<close>

text \<open>An endpoint whose binding has device \<open>i\<close> open.\<close>

definition on_driver :: "nat \<Rightarrow> mmbi_shared win_api \<Rightarrow> nat \<Rightarrow> nat multiset \<Rightarrow> mmbi_shared mmbi_world \<Rightarrow> bool" where
  "on_driver i api b F w \<longleftrightarrow> endpoint_ok (mctp_mmbi_tx api) mmbi_ok 65540 b F w \<and> plenty w \<and> mmbi_sized (bindings w b) \<and>
     has_device (b_priv (bindings w b)) \<and> driver_calls i api \<and> reads_bounded api \<and> drv_ok (mm_dev (b_priv (bindings w b)))"

abbreviation dev_of :: "nat \<Rightarrow> 'd mmbi_world \<Rightarrow> 'd" where
  "dev_of b w \<equiv> mm_dev (b_priv (bindings w b))"

lemma poll_driver_packet:
  assumes on: "on_driver i api b F w" and bs: "dev_in i (dev_of b w) = bs" "bs \<noteq> []" "length bs \<le> 65540"
  obtains pkt blk g h w' where "mctp_mmbi_poll api b w = Inr (0, w')" and "mctp_bus_rx b pkt (set_dev b g w\<lparr>heap := h\<rparr>) = Inr w'"
    and "pktbuf_bytes pkt = bs" and "pktbuf_wf pkt" and "mctp_hdr_off pkt = pk_start pkt" and "plenty (set_dev b g w\<lparr>heap := h\<rparr>)"
    and "endpoint_ok (mctp_mmbi_tx api) mmbi_ok 65540 b (add_mset blk F) (set_dev b g w\<lparr>heap := h\<rparr>)"
    and "dev_in i g = []" and "drv_ok g" and "dev_out i g = dev_out i (dev_of b w)"
proof -
  have e: "endpoint_ok (mctp_mmbi_tx api) mmbi_ok 65540 b F w" "plenty w" "b_pkt_header (bindings w b) = 0" "reads_bounded api"
    "has_device (b_priv (bindings w b))" "mmbi_sized (bindings w b)" "driver_calls i api" "drv_ok (dev_of b w)"
    using on by (simp_all add: on_driver_def mmbi_sized_def)
  note sz = mmbi_sized_eq [OF e(6)]
  obtain g err where rd: "ReadFile api (poll_limit (bindings w b)) (dev_of b w) =
      ((True, take (unat (poll_limit (bindings w b))) (dev_in i (dev_of b w)), err), g)"
    "drv_ok g" "dev_in i g = drop (unat (poll_limit (bindings w b))) (dev_in i (dev_of b w))" "dev_out i g = dev_out i (dev_of b w)"
    by (rule driver_ReadFile [OF e(7,8)])
  have tk: "take (unat (poll_limit (bindings w b))) (dev_in i (dev_of b w)) = bs" using bs(1,3) sz(2) by simp
  have pk: "PeekNamedPipe api (dev_of b w) \<noteq> (True, 0)" using e(7) unfolding driver_calls_def by (metis fst_conv)
  have le: "of_nat (length bs) \<le> pktbuf_storage_size (bindings w b)" using bs(3) sz(1) by (simp add: word_le_nat_alt unat_of_nat)
  have ops: "ops w = default_alloc_ops" using e(2) by (simp add: plenty_def)
  from e(1) ops e(3,4) show ?thesis
  proof (cases rule: mctp_mmbi_poll_cases)
    case (packet pkt blk h bs' err' d' w2)
    then have x: "bs' = bs" "d' = g" using rd(1) tk by simp_all
    have "plenty (set_dev b g w\<lparr>heap := h\<rparr>)" using packet(7) e(2) by (simp add: plenty_def set_dev_def)
    then show ?thesis using packet rd(2-4) bs(1,3) sz(2) unfolding x by (intro that [where w' = w2 and pkt = pkt and g = g and h = h and blk = blk]) simp_all
  qed (use e(2,5) pk rd(1) tk bs(2) le in \<open>auto simp: not_less plenty_def\<close>)
qed

text \<open>More than a packet in the queue: the read takes 65544 bytes, and no packet buffer is that large.\<close>

lemma poll_driver_overrun:
  assumes on: "on_driver i api b F w" and bs: "65540 < length (dev_in i (dev_of b w))"
  shows "\<exists>w'. mctp_mmbi_poll api b w = Inr (- ENOMEM, w') \<and> dev_in i (dev_of b w') = drop 65544 (dev_in i (dev_of b w)) \<and>
     trace w' = trace w \<and> msg_ctxs w' = msg_ctxs w \<and> endpoint_ok (mctp_mmbi_tx api) mmbi_ok 65540 b F w'"
proof -
  have e: "endpoint_ok (mctp_mmbi_tx api) mmbi_ok 65540 b F w" "plenty w" "b_pkt_header (bindings w b) = 0" "reads_bounded api"
    "has_device (b_priv (bindings w b))" "mmbi_sized (bindings w b)" "driver_calls i api" "drv_ok (dev_of b w)"
    using on by (simp_all add: on_driver_def mmbi_sized_def)
  note sz = mmbi_sized_eq [OF e(6)]
  obtain g err where rd: "ReadFile api (poll_limit (bindings w b)) (dev_of b w) =
      ((True, take (unat (poll_limit (bindings w b))) (dev_in i (dev_of b w)), err), g)"
    "drv_ok g" "dev_in i g = drop (unat (poll_limit (bindings w b))) (dev_in i (dev_of b w))" "dev_out i g = dev_out i (dev_of b w)"
    by (rule driver_ReadFile [OF e(7,8)])
  let ?bs = "take 65544 (dev_in i (dev_of b w))"
  have len: "65540 < length ?bs" "length ?bs \<le> 65544" using bs by simp_all
  have pk: "PeekNamedPipe api (dev_of b w) \<noteq> (True, 0)" using e(7) unfolding driver_calls_def by (metis fst_conv)
  have ops: "ops w = default_alloc_ops" using e(2) by (simp add: plenty_def)
  from e(1) ops e(3,4) show ?thesis
  proof (cases rule: mctp_mmbi_poll_cases)
    case (packet pkt blk h bs' err' d' w2)
    then show ?thesis using rd(1) len sz by simp
  next
    case (nomem h bs' err' d')
    then show ?thesis using rd(1,3) sz(2) by (intro exI conjI) (simp_all add: set_dev_def)
  qed (use e(2,5) pk rd(1) len sz(2) in \<open>auto simp: not_less plenty_def\<close>)
qed

section \<open>From one endpoint to the other\<close>

lemma plenty_rx_memory:
  assumes "plenty w" and "fst_flags (flags_seq_tag hdr) = 0xc0"
  shows "rx_memory hdr pkt w"
  using plenty_alloc [OF assms(1), of "mctp_pktbuf_size pkt - SIZEOF_MCTP_HDR"] assms(2) by (auto simp: rx_memory_def)

lemma driver_send:
  assumes on: "on_driver i api b F w" and can: "can_send w" and tag: "tag AND 7 = tag"
    and len: "unat n = length msg" "length msg \<le> 65536"
    and room: "length (dev_out i (dev_of b w)) + length msg + 4 \<le> ring_size"
    and fr: "frame = hdr_bytes (frag_hdr (bindings w b) ((tx_params (bus_at w 0) eid to tag)\<lparr>tx_seq := tx_seq (bus_at w 0)\<rparr>) True True) @ msg"
  shows "\<exists>w'. mctp_message_tx eid to tag msg n w = Inr (0, w') \<and> endpoint_ok (mctp_mmbi_tx api) mmbi_ok 65540 b F w' \<and>
     drv_ok (dev_of b w') \<and> dev_out i (dev_of b w') = dev_out i (dev_of b w) @ frame \<and> dev_in i (dev_of b w') = dev_in i (dev_of b w)"
proof -
  have e: "endpoint_ok (mctp_mmbi_tx api) mmbi_ok 65540 b F w" "has_device (b_priv (bindings w b))" "driver_calls i api" "drv_ok (dev_of b w)"
    using on by (simp_all add: on_driver_def)
  let ?Q = "\<lambda>m. drv_ok (mm_dev m) \<and> dev_out i (mm_dev m) = dev_out i (dev_of b w) @ frame \<and> dev_in i (mm_dev m) = dev_in i (dev_of b w)"
  have "\<exists>m'. mctp_mmbi_tx api (b_priv (bindings w b)) pkt = Inr (0, m') \<and> ?Q m'" if pkt: "rx_pkt pkt" "pktbuf_bytes pkt = frame" for pkt
  proof -
    have "length (dev_out i (dev_of b w)) + length (pktbuf_bytes pkt) \<le> ring_size" using room fr pkt(2) by simp
    then show ?thesis using pkt(2) by (rule_tac driver_tx [OF e(2,3,4) pkt(1)]) auto
  qed
  then have "\<exists>w'. mctp_message_tx eid to tag msg n w = Inr (0, w') \<and> endpoint_ok (mctp_mmbi_tx api) mmbi_ok 65540 b F w' \<and>
     ?Q (b_priv (bindings w' b)) \<and> tx_msg (bus_at w' 0) = None"
    by (rule_tac message_tx_one [OF e(1) can tag len(1) _ fr]) (use len(2) in simp_all)
  then show ?thesis by blast
qed

lemma driver_delivers:
  assumes on: "on_driver i api b F v" and inq: "dev_in i (dev_of b v) = hdr_bytes (frag_hdr bnd (bus\<lparr>tx_seq := sq\<rparr>) True True) @ msg"
    and len: "length msg \<le> 65536" and bnd: "unat (b_pkt_size bnd) = 65540" and tag: "tx_tag bus AND 7 = tx_tag bus" and sq: "sq AND 3 = sq"
    and lim: "length msg \<le> unat (start_limit v (tx_src bus, tx_dest bus, tx_tag bus))"
    and dest: "mctp_rx_dest_is_local (bus_at v 0) (tx_dest bus)" and src: "tx_src bus \<noteq> MCTP_EID_BROADCAST" and user: "user_message msg"
  shows "\<exists>v' pkt. mctp_mmbi_poll api b v = Inr (0, v') \<and> trace v' = trace v @ capture_events pkt False v @ msg_event v bus msg"
proof -
  have ne: "hdr_bytes (frag_hdr bnd (bus\<lparr>tx_seq := sq\<rparr>) True True) @ msg \<noteq> []"
    "length (hdr_bytes (frag_hdr bnd (bus\<lparr>tx_seq := sq\<rparr>) True True) @ msg) \<le> 65540"
    using len by (simp_all add: hdr_bytes_def)
  obtain pkt blk g h w' where p: "mctp_mmbi_poll api b v = Inr (0, w')" "mctp_bus_rx b pkt (set_dev b g v\<lparr>heap := h\<rparr>) = Inr w'"
    "pktbuf_bytes pkt = hdr_bytes (frag_hdr bnd (bus\<lparr>tx_seq := sq\<rparr>) True True) @ msg" "pktbuf_wf pkt" "mctp_hdr_off pkt = pk_start pkt"
    "plenty (set_dev b g v\<lparr>heap := h\<rparr>)"
    "endpoint_ok (mctp_mmbi_tx api) mmbi_ok 65540 b (add_mset blk F) (set_dev b g v\<lparr>heap := h\<rparr>)"
    by (rule poll_driver_packet [OF on inq ne]) (rule that)
  let ?v = "set_dev b g v\<lparr>heap := h\<rparr>"
  have s: "bus_at ?v 0 = bus_at v 0" "start_limit ?v = start_limit v" "trace ?v = trace v" "capture ?v = capture v"
    "capture_data ?v = capture_data v" "message_rx ?v = message_rx v" "message_rx_data ?v = message_rx_data v"
    by (simp_all add: set_dev_def start_limit_def fun_eq_iff split: option.split)
  have rp: "rx_pkt pkt" using p(3-5) by (simp add: rx_pkt_def)
  have fr: "map pktbuf_bytes [pkt] = msg_frames bnd bus True sq msg" using p(3) bnd len by (simp add: msg_frames_last)
  have mem: "rx_memory hdr (hd [pkt]) ?v" if "read_hdr (hd [pkt]) = Inr hdr" for hdr
  proof (rule plenty_rx_memory [OF p(6)])
    have "flags_seq_tag hdr = encode_fst (tx_to bus) (tx_tag bus) sq True True"
      using that rx_pkt_hdr [OF rp] p(3) by (auto simp: hdr_bytes_def frag_hdr_def)
    then show "fst_flags (flags_seq_tag hdr) = 0xc0" using tag sq by simp
  qed
  have "\<exists>v'. rx_all b [pkt] ?v = Inr v' \<and> endpoint_ok (mctp_mmbi_tx api) mmbi_ok 65540 b (add_mset blk F) v' \<and>
     (\<forall>k. k \<noteq> (tx_src bus, tx_dest bus, tx_tag bus) \<longrightarrow> asm_table (msg_ctxs v') k = asm_table (msg_ctxs ?v) k) \<and>
     req_tags v' = msg_settled bus ?v \<and> trace v' = trace ?v @ rx_captures [pkt] ?v @ msg_event ?v bus msg"
    by (rule mmbi.rx_message [OF p(7) _ tag sq _ fr _ mem]) (use bnd lim s dest src user rp in simp_all)
  moreover have "capture_events pkt False ?v = capture_events pkt False v" "msg_event ?v bus msg = msg_event v bus msg"
    using s(4-7) by (simp_all add: capture_events_def msg_event_def split: option.split)
  ultimately have "trace w' = trace v @ capture_events pkt False v @ msg_event v bus msg"
    using p(2) s(3) by auto
  then show ?thesis using p(1) by blast
qed


section \<open>A write that does not fit\<close>

lemma driver_tx_short:
  assumes dev: "has_device m" and calls: "driver_calls i api" and ok: "drv_ok (mm_dev m)" and pkt: "rx_pkt pkt"
    and l: "length (pktbuf_bytes pkt) < 2 ^ 32"
    and f: "f = ring_size - length (dev_out i (mm_dev m))" "f < length (pktbuf_bytes pkt)" "length (dev_out i (mm_dev m)) \<le> ring_size"
  shows "\<exists>g'. mctp_mmbi_tx api m pkt = Inr (- EIO, m\<lparr>mm_dev := g'\<rparr>) \<and> drv_ok g' \<and>
     dev_out i g' = dev_out i (mm_dev m) @ take f (pktbuf_bytes pkt) \<and> dev_in i g' = dev_in i (mm_dev m)"
proof -
  let ?bs = "pktbuf_bytes pkt"
  have ne: "?bs \<noteq> []" using pkt by (auto simp: rx_pkt_def)
  obtain g1 where g1: "WriteFile api ?bs (mm_dev m) = ((?bs = [] \<or> 0 < f, of_nat f), g1)" "drv_ok g1"
    "dev_out i g1 = dev_out i (mm_dev m) @ take f ?bs" "dev_in i g1 = dev_in i (mm_dev m)"
    by (rule driver_WriteFile [OF calls ok l, of f]) (use f in simp, rule that)
  have full: "length (dev_out i g1) = ring_size" using g1(3) f by simp
  have stuck: "\<exists>g''. WriteFile api ?bs g = ((False, 0), g'') \<and> drv_ok g'' \<and> dev_out i g'' = dev_out i g \<and> dev_in i g'' = dev_in i g"
    if "drv_ok g" "length (dev_out i g) = ring_size" for g
    by (rule driver_WriteFile [OF calls that(1) l, of 0]) (use that ne in auto)
  obtain g2 where g2: "WriteFile api ?bs g1 = ((False, 0), g2)" "drv_ok g2" "dev_out i g2 = dev_out i g1" "dev_in i g2 = dev_in i g1"
    using stuck [OF g1(2) full] by blast
  obtain g3 where g3: "WriteFile api ?bs g2 = ((False, 0), g3)" "drv_ok g3" "dev_out i g3 = dev_out i g2" "dev_in i g3 = dev_in i g2"
    using stuck [OF g2(2)] full g2(3) by auto
  have a: "attempt api ?bs 0 (mm_dev m) = ((0 < f, of_nat f), g1)" "attempt api ?bs 1 (mm_dev m) = ((False, 0), g2)"
    "attempt api ?bs 2 (mm_dev m) = ((False, 0), g3)"
    using g1(1) g2(1) g3(1) ne by (simp_all add: numeral_2_eq_2)
  have "unat (of_nat f :: u32) = f" using f(2) l by (simp add: unat_of_nat)
  then have no: "\<not> took_all ?bs (attempt api ?bs k (mm_dev m))" if "k < 3" for k
  proof -
    from that consider "k = 0" | "k = 1" | "k = 2" by linarith
    then show ?thesis using a f(2) \<open>unat (of_nat f :: u32) = f\<close> by cases (simp_all add: took_all_def del: attempt.simps One_nat_def)
  qed
  then have "mctp_mmbi_tx api m pkt = Inr (- EIO, m\<lparr>mm_dev := g3\<rparr>)"
    using mctp_mmbi_tx_attempts [OF dev pkt l, of api] a(3) by (auto simp del: attempt.simps)
  then show ?thesis using g1 g2 g3 by auto
qed

section \<open>Two endpoints on the driver\<close>

lemma on_driver_set_dev:
  assumes "on_driver i api b F w" and "drv_ok g"
  shows "on_driver i api b F (set_dev b g w)" and "dev_of b (set_dev b g w) = g"
  using assms endpoint_ok_dev [of "mctp_mmbi_tx api" 65540 b F w g]
  by (auto simp: on_driver_def plenty_def mmbi_sized_def set_dev_def has_device_def)

definition ex_drv_api :: "nat \<Rightarrow> mmbi_shared win_api" where
  "ex_drv_api i = \<lparr>CreateFileA = (\<lambda>path g. (1, g)),
     WriteFile = (\<lambda>buf g. case MmbiEvtIoWrite i STATUS_SUCCESS buf (of_nat (length buf)) g of
        Inl e \<Rightarrow> ((False, 0), g) | Inr ((st, n), g') \<Rightarrow> ((NT_SUCCESS st, n), g')),
     PeekNamedPipe = (\<lambda>g. (False, 0)),
     ReadFile = (\<lambda>n g. case MmbiEvtIoRead i STATUS_SUCCESS (ucast n) g of
        Inl e \<Rightarrow> ((False, [], 1), g) | Inr ((st, bs), g') \<Rightarrow> ((NT_SUCCESS st, bs, 0), g'))\<rparr>"

definition ex_drv_binding :: "nat \<Rightarrow> mmbi_shared mmbi mctp_binding" where
  "ex_drv_binding i = mmbi_open (ex_drv_api i) 1 0 \<lparr>HostToBmc = ring_empty, BmcToHost = ring_empty\<rparr>"

definition ex_drv :: "nat \<Rightarrow> u8 \<Rightarrow> mmbi_shared mmbi_world" where
  "ex_drv i eid = endpoint_with (ex_drv_binding i) eid"

lemma ring_read_length:
  assumes "RingBufferRead len r = Inr (bs, r')"
  shows "length bs \<le> unat len"
proof -
  define t where "t = (if len > DataAvailable r then DataAvailable r else len)"
  have "unat t \<le> unat len" by (simp add: t_def word_less_nat_alt)
  moreover have "length bs \<le> unat t"
  proof (cases "t \<le> RING_BUFFER_SIZE - ReadIdx r")
    case True
    then show ?thesis using assms unfolding RingBufferRead_def t_def [symmetric] Let_def
      by (auto simp: copy_out_def split: if_splits)
  next
    case False
    then have "unat (t - (RING_BUFFER_SIZE - ReadIdx r)) = unat t - unat (RING_BUFFER_SIZE - ReadIdx r)"
      by (intro unat_diff_le) simp
    then show ?thesis using assms False unfolding RingBufferRead_def t_def [symmetric] Let_def
      by (auto simp: copy_out_def word_le_nat_alt split: if_splits)
  qed
  ultimately show ?thesis by linarith
qed

lemma ex_drv_api_ok: "driver_calls i (ex_drv_api i)" "reads_bounded (ex_drv_api i)"
proof -
  show "driver_calls i (ex_drv_api i)" by (simp add: driver_calls_def ex_drv_api_def)
  have "length bs \<le> unat n" if "MmbiEvtIoRead i STATUS_SUCCESS (ucast n) g = Inr ((st, bs), g')" for n :: u32 and g st bs g'
    using that ring_read_length [of "ucast (ucast n :: u64)"] unat_u32_u64 [of n]
    by (auto simp: MmbiEvtIoRead_def NT_SUCCESS_def split: if_splits)
  then show "reads_bounded (ex_drv_api i)"
    by (auto simp: reads_bounded_def ex_drv_api_def split: sum.split)
qed

lemma ex_drv_ok:
  "on_driver i (ex_drv_api i) 0 {#0#} (ex_drv i eid)" "can_send (ex_drv i eid)" "dev_out j (dev_of 0 (ex_drv i eid)) = []"
  "dev_in j (dev_of 0 (ex_drv i eid)) = []"
  "bus_eid (bus_at (ex_drv i eid) 0) = eid" "start_limit (ex_drv i eid) k = MCTP_MAX_MESSAGE_SIZE" "trace (ex_drv i eid) = []"
  "message_rx (ex_drv i eid) = Some 7" "message_rx_data (ex_drv i eid) = 3" "capture (ex_drv i eid) = None"
proof -
  have "binding_new (mctp_mmbi_tx (ex_drv_api i)) mmbi_ok 65540 (ex_drv_binding i)"
    unfolding ex_drv_binding_def by (rule mmbi_open_new)
  note e = endpoint_with_ok [OF this, of eid, folded ex_drv_def]
  show "on_driver i (ex_drv_api i) 0 {#0#} (ex_drv i eid)" "can_send (ex_drv i eid)" "dev_out j (dev_of 0 (ex_drv i eid)) = []"
    "dev_in j (dev_of 0 (ex_drv i eid)) = []"
    using e(1) ex_drv_api_ok
    by (simp_all add: on_driver_def can_send_def plenty_def e(2,8,9,12) zero_bus_def mmbi_sized_def ex_drv_binding_def mmbi_open_def
        mmbi_fresh_def has_device_def drv_ok_def dev_out_def dev_in_def)
  show "bus_eid (bus_at (ex_drv i eid) 0) = eid" "start_limit (ex_drv i eid) k = MCTP_MAX_MESSAGE_SIZE" "trace (ex_drv i eid) = []"
    "message_rx (ex_drv i eid) = Some 7" "message_rx_data (ex_drv i eid) = 3" "capture (ex_drv i eid) = None"
    by (simp_all add: e(2-10) zero_bus_def start_limit_def asm_table_def slot_map_replicate)
qed


section \<open>Properties\<close>

text \<open>
  C6: the whole system. Two contexts are open on the two devices of the driver, with nothing
  waiting from the first to the second. When the first sends a message of at most 65536 bytes with
  \<open>mctp_mmbi_send\<close> and the second one polls, the second endpoint's receive function is called with
  the first one's EID and exactly the bytes that were sent.
\<close>

theorem context_end_to_end:
  assumes "on_driver i api b F w" and "i < 2" and "can_send w" and "cx_mctp c \<noteq> None"
    and "unat n = length msg" and "length msg \<le> 65536" and "dev_out i (dev_of b w) = []"
    and "on_driver (1 - i) api' b' F' v" and "cx_mmbi c' = Some b'"
    and "mctp_rx_dest_is_local (bus_at v 0) eid" and "bus_eid (bus_at w 0) \<noteq> MCTP_EID_BROADCAST" and "user_message msg"
    and "length msg \<le> unat (start_limit v (bus_eid (bus_at w 0), eid, 0))"
  shows "\<exists>w' v' pkt. mctp_mmbi_send (Some c) eid msg n w = Inr (0, w') \<and>
     mctp_mmbi_context_poll api' (Some c') (set_dev b' (dev_of b w') v) = Inr (0, v') \<and>
     trace v' = trace v @ capture_events pkt False v @ (case message_rx v of None \<Rightarrow> []
       | Some f \<Rightarrow> [Ev_message_rx f (message_rx_data v) (bus_eid (bus_at w 0)) False 0 msg n])"
proof -
  let ?bus = "tx_params (bus_at w 0) eid False 0"
  let ?frame = "hdr_bytes (frag_hdr (bindings w b) (?bus\<lparr>tx_seq := tx_seq (bus_at w 0)\<rparr>) True True) @ msg"
  have room: "length (dev_out i (dev_of b w)) + length msg + 4 \<le> ring_size" using assms(6,7) by (simp add: ring_size_def)
  have ow: "endpoint_ok (mctp_mmbi_tx api) mmbi_ok 65540 b F w" "mmbi_sized (bindings w b)" using assms(1) by (simp_all add: on_driver_def)
  have sq: "tx_seq (bus_at w 0) AND 3 = tx_seq (bus_at w 0)" using ow(1) by (simp add: endpoint_defs tx_pending_ok_def)
  obtain w' where w': "mctp_message_tx eid False 0 msg n w = Inr (0, w')" "drv_ok (dev_of b w')" "dev_out i (dev_of b w') = ?frame"
    using driver_send [OF assms(1,3) _ assms(5,6) room refl, of 0 eid False] assms(7) by auto
  let ?v = "set_dev b' (dev_of b w') v"
  note on = on_driver_set_dev [OF assms(8) w'(2)]
  have inq: "dev_in (1 - i) (dev_of b' ?v) = ?frame"
    unfolding on(2) using w'(3) assms(2) by (auto simp: dev_in_def dev_out_def)
  have s: "bus_at ?v 0 = bus_at v 0" "start_limit ?v = start_limit v" "trace ?v = trace v" "capture ?v = capture v"
    "capture_data ?v = capture_data v" "message_rx ?v = message_rx v" "message_rx_data ?v = message_rx_data v"
    by (simp_all add: set_dev_def start_limit_def fun_eq_iff split: option.split)
  have "\<exists>v' pkt. mctp_mmbi_poll api' b' ?v = Inr (0, v') \<and> trace v' = trace ?v @ capture_events pkt False ?v @ msg_event ?v ?bus msg"
    by (rule driver_delivers [OF on(1) inq assms(6) mmbi_sized_eq(3) [OF ow(2)] _ sq]) (use assms s in \<open>simp_all add: tx_params_def\<close>)
  then obtain v' pkt where v': "mctp_mmbi_poll api' b' ?v = Inr (0, v')"
    "trace v' = trace v @ capture_events pkt False ?v @ msg_event ?v ?bus msg" using s(3) by auto
  have "capture_events pkt False ?v = capture_events pkt False v" using s(4,5) by (simp add: capture_events_def split: option.split)
  moreover have "of_nat (length msg) = n" using assms(5) by (metis of_nat_unat ucast_id)
  then have "msg_event ?v ?bus msg = (case message_rx v of None \<Rightarrow> []
       | Some f \<Rightarrow> [Ev_message_rx f (message_rx_data v) (bus_eid (bus_at w 0)) False 0 msg n])"
    using s(6,7) by (simp add: msg_event_def tx_params_def split: option.split)
  ultimately show ?thesis using w'(1) v' assms(4,9)
    by (intro exI [of _ w'] exI [of _ v'] exI [of _ pkt]) (simp add: mctp_mmbi_send_def mctp_mmbi_context_poll_def)
qed

theorem context_end_to_end_witness:
  "\<exists>w' v'. mctp_mmbi_send (Some \<lparr>cx_blk = 5, cx_mctp = Some 6, cx_mmbi = Some 0, cx_rx_cb = None, cx_user_ctx = 0, cx_debug = False\<rparr>)
       9 [0x7e, 1, 2] 3 (ex_drv 0 8) = Inr (0, w') \<and>
     mctp_mmbi_context_poll (ex_drv_api 1)
       (Some \<lparr>cx_blk = 5, cx_mctp = Some 6, cx_mmbi = Some 0, cx_rx_cb = None, cx_user_ctx = 0, cx_debug = False\<rparr>)
       (set_dev 0 (dev_of 0 w') (ex_drv 1 9)) = Inr (0, v') \<and>
     trace v' = [Ev_message_rx 7 3 8 False 0 [0x7e, 1, 2] 3]"
proof -
  have on: "on_driver (1 - 0) (ex_drv_api 1) 0 {#0#} (ex_drv 1 9)" using ex_drv_ok(1) by simp
  have len: "unat (3 :: u64) = length [0x7e, 1, 2 :: u8]" by simp
  show ?thesis
    using context_end_to_end [OF ex_drv_ok(1) _ ex_drv_ok(2) _ len _ ex_drv_ok(3) on,
        of "\<lparr>cx_blk = 5, cx_mctp = Some 6, cx_mmbi = Some 0, cx_rx_cb = None, cx_user_ctx = 0, cx_debug = False\<rparr>"
           "\<lparr>cx_blk = 5, cx_mctp = Some 6, cx_mmbi = Some 0, cx_rx_cb = None, cx_user_ctx = 0, cx_debug = False\<rparr>" 9]
    by (simp add: ex_drv_ok mctp_rx_dest_is_local_def user_message_def MCTP_MAX_MESSAGE_SIZE_def capture_events_def)
qed

text \<open>
  C36: a packet behind another one in the ring is lost. When more than 65540 bytes wait, which is the
  case as soon as a sender has written the first two packets of a long message, \<open>mctp_mmbi_poll\<close> reads
  65544 of them at once, cannot allocate a packet buffer of that size and returns \<open>-ENOMEM\<close>: the bytes
  are gone and the core has seen nothing.
\<close>

theorem poll_loses_merged_packets:
  assumes "on_driver i api b F w" and "65540 < length (dev_in i (dev_of b w))"
  shows "\<exists>w'. mctp_mmbi_poll api b w = Inr (- ENOMEM, w') \<and> dev_in i (dev_of b w') = drop 65544 (dev_in i (dev_of b w)) \<and>
     trace w' = trace w \<and> msg_ctxs w' = msg_ctxs w \<and> endpoint_ok (mctp_mmbi_tx api) mmbi_ok 65540 b F w'"
  by (rule poll_driver_overrun [OF assms])

theorem poll_loses_merged_packets_witness:
  "\<exists>g w'. mctp_mmbi_poll (ex_drv_api 1) 0 (set_dev 0 g (ex_drv 1 9)) = Inr (- ENOMEM, w') \<and> dev_in 1 (dev_of 0 w') = [] \<and> trace w' = []"
proof -
  have g0: "drv_ok (dev_of 0 (ex_drv 0 8))" using ex_drv_ok(1) by (simp add: on_driver_def)
  let ?bs = "replicate 65544 (1 :: u8)"
  obtain g where g: "drv_ok g" "dev_out 0 g = dev_out 0 (dev_of 0 (ex_drv 0 8)) @ take 65544 ?bs"
    by (rule driver_WriteFile [OF ex_drv_api_ok(1) g0, of ?bs 65544]) (simp_all add: ex_drv_ok(3) ring_size_def)
  have inq: "dev_in 1 g = ?bs" using g(2) by (simp add: ex_drv_ok(3)) (simp add: dev_in_def dev_out_def)
  note on = on_driver_set_dev [OF ex_drv_ok(1) g(1), of 1 9]
  have "65540 < length (dev_in 1 (dev_of 0 (set_dev 0 g (ex_drv 1 9))))" unfolding on(2) inq by simp
  from poll_loses_merged_packets [OF on(1) this] show ?thesis
    unfolding on(2) inq by (auto simp: set_dev_def ex_drv_ok(7))
qed

text \<open>
  C37: a packet that does not fit into the ring is torn. \<open>mctp_mmbi_tx\<close> reports \<open>-EIO\<close>, but the part of the
  packet that had room is in the queue and will be read as the beginning of the next packet.
\<close>

theorem mmbi_tx_tears_packet:
  assumes "has_device m" and "driver_calls i api" and "drv_ok (mm_dev m)" and "rx_pkt pkt" and "length (pktbuf_bytes pkt) < 2 ^ 32"
    and "f = ring_size - length (dev_out i (mm_dev m))" and "f < length (pktbuf_bytes pkt)"
  shows "\<exists>g'. mctp_mmbi_tx api m pkt = Inr (- EIO, m\<lparr>mm_dev := g'\<rparr>) \<and> drv_ok g' \<and>
     dev_out i g' = dev_out i (mm_dev m) @ take f (pktbuf_bytes pkt) \<and> dev_in i g' = dev_in i (mm_dev m)"
proof -
  have "length (dev_out i (mm_dev m)) \<le> ring_size" using assms(3) by (simp add: drv_ok_def ring_ok_def dev_out_def)
  then show ?thesis using driver_tx_short [OF assms] by blast
qed


theorem mmbi_tx_tears_packet_witness:
  "\<exists>g g'. mctp_mmbi_tx (ex_drv_api 0) \<lparr>rx_storage = None, tx_storage = None, memory_size = 0, device_handle = 1, mm_dev = g\<rparr>
       (ex_pkt [1, 9, 8, 0xc8, 1]) =
     Inr (- EIO, \<lparr>rx_storage = None, tx_storage = None, memory_size = 0, device_handle = 1, mm_dev = g'\<rparr>) \<and>
     dev_out 0 g' = dev_out 0 g @ [1, 9]"
proof -
  have g0: "drv_ok (dev_of 0 (ex_drv 0 8))" using ex_drv_ok(1) by (simp add: on_driver_def)
  let ?bs = "replicate 1048574 (1 :: u8)"
  obtain g where g: "drv_ok g" "dev_out 0 g = dev_out 0 (dev_of 0 (ex_drv 0 8)) @ take 1048574 ?bs"
    by (rule driver_WriteFile [OF ex_drv_api_ok(1) g0, of ?bs 1048574]) (simp_all add: ex_drv_ok(3) ring_size_def)
  let ?m = "\<lparr>rx_storage = None, tx_storage = None, memory_size = 0, device_handle = 1, mm_dev = g\<rparr>"
  have d: "has_device ?m" by (simp add: has_device_def)
  have p: "rx_pkt (ex_pkt [1, 9, 8, 0xc8, 1])" "pktbuf_bytes (ex_pkt [1, 9, 8, 0xc8, 1]) = [1, 9, 8, 0xc8, 1]"
    by (simp_all add: ex_pkt_rx ex_pkt_ok)
  have l: "length (dev_out 0 g) = 1048574" using g(2) by (simp add: ex_drv_ok(3))
  have f: "2 = ring_size - length (dev_out 0 (mm_dev ?m))" "2 < length (pktbuf_bytes (ex_pkt [1, 9, 8, 0xc8, 1]))"
    "length (pktbuf_bytes (ex_pkt [1, 9, 8, 0xc8, 1])) < 2 ^ 32" "drv_ok (mm_dev ?m)"
    using l g(1) by (simp_all add: p(2) ring_size_def)
  obtain g' where "mctp_mmbi_tx (ex_drv_api 0) ?m (ex_pkt [1, 9, 8, 0xc8, 1]) = Inr (- EIO, ?m\<lparr>mm_dev := g'\<rparr>)"
    "dev_out 0 g' = dev_out 0 (mm_dev ?m) @ take 2 (pktbuf_bytes (ex_pkt [1, 9, 8, 0xc8, 1]))"
    using mmbi_tx_tears_packet [OF d ex_drv_api_ok(1) f(4) p(1) f(3,1,2)] by (elim exE conjE)
  then show ?thesis by (intro exI [of _ g] exI [of _ g']) (simp add: p(2))
qed

end
