(* ===== verification/Mctp_Log.thy ===== *)
theory Mctp_Log
  imports Mctp_Prelude
begin

text \<open>
  Logging: \<^verbatim>\<open>src/log.c\<close>. The formatted text comes from the C library's formatter, so it is an
  argument; the result is what is written to standard error or handed to the custom handler.
  The other theories leave out the calls of \<open>mctp_prdebug\<close> and its siblings: they change
  nothing but this output.
\<close>

section \<open>State and operations\<close>

datatype log_kind = MCTP_LOG_NONE | MCTP_LOG_STDIO | MCTP_LOG_CUSTOM

record log_state =
  log_type :: log_kind
  log_stdio_level :: int
  log_custom_fn :: "nat option"

definition log_init :: log_state where
  "log_init = \<lparr>log_type = MCTP_LOG_NONE, log_stdio_level = 0, log_custom_fn = None\<rparr>"

definition MCTP_LOG_ERR :: int where [simp]: "MCTP_LOG_ERR = 3"
definition MCTP_LOG_WARNING :: int where [simp]: "MCTP_LOG_WARNING = 4"
definition MCTP_LOG_NOTICE :: int where [simp]: "MCTP_LOG_NOTICE = 5"
definition MCTP_LOG_INFO :: int where [simp]: "MCTP_LOG_INFO = 6"
definition MCTP_LOG_DEBUG :: int where [simp]: "MCTP_LOG_DEBUG = 7"

datatype log_out = Stderr_line string | Custom_call nat int string

definition mctp_prlog :: "int \<Rightarrow> string \<Rightarrow> log_state \<Rightarrow> log_out list res" where
  "mctp_prlog level txt st =
     (case log_type st of
        MCTP_LOG_NONE \<Rightarrow> Inr []
      | MCTP_LOG_STDIO \<Rightarrow> Inr (if level \<le> log_stdio_level st then [Stderr_line txt] else [])
      | MCTP_LOG_CUSTOM \<Rightarrow>
          rbind (deref (log_custom_fn st)) (\<lambda>f. Inr [Custom_call f level txt]))"

definition mctp_set_log_stdio :: "int \<Rightarrow> log_state \<Rightarrow> log_state" where
  "mctp_set_log_stdio level st = st\<lparr>log_type := MCTP_LOG_STDIO, log_stdio_level := level\<rparr>"

definition mctp_set_log_custom :: "nat option \<Rightarrow> log_state \<Rightarrow> log_state" where
  "mctp_set_log_custom f st = st\<lparr>log_type := MCTP_LOG_CUSTOM, log_custom_fn := f\<rparr>"

section \<open>Lemmas\<close>

text \<open>A log line reaches exactly one sink, and only when that sink was chosen.\<close>

lemma mctp_prlog_at_most_one: "mctp_prlog level txt st = Inr out \<Longrightarrow> length out \<le> 1"
  by (auto simp: mctp_prlog_def split: log_kind.splits if_splits)

lemma mctp_prlog_stdio_threshold:
  "mctp_prlog level txt (mctp_set_log_stdio t st) = Inr out \<Longrightarrow>
     out = (if level \<le> t then [Stderr_line txt] else [])"
  by (simp add: mctp_prlog_def mctp_set_log_stdio_def)

lemma mctp_prlog_init_silent: "mctp_prlog level txt log_init = Inr []"
  by (simp add: mctp_prlog_def log_init_def)

lemma mctp_prlog_custom:
  "mctp_prlog level txt (mctp_set_log_custom (Some f) st) = Inr [Custom_call f level txt]"
  by (simp add: mctp_prlog_def mctp_set_log_custom_def)

end
