(* ===== verification/Spec2Isabelle.thy ===== *)
theory Spec2Isabelle
  imports Mmbi_System Mctp_Log
begin

unbundle bit_operations_syntax

text \<open>
  A verification development for libmctp on Windows: the Management Component Transport Protocol core of
  \<^verbatim>\<open>src/src/\<close>, its MMBI binding, and the ring buffer driver of
  \<^verbatim>\<open>src/windows_driver/\<close> that connects two of them.

  \<^bold>\<open>The program.\<close> An MCTP instance (\<^verbatim>\<open>core.c\<close>,
  \<^verbatim>\<open>core-internal.h\<close>) holds one bus as an endpoint, or two as a bridge. A binding
  moves packets. To send, the core cuts a message into packets under four byte headers and calls the binding's
  \<open>tx\<close>; to receive, the binding hands every packet to \<open>mctp_bus_rx\<close>, which collects
  the fragments in a table of 16 contexts and calls the message handler, the control handler
  (\<^verbatim>\<open>control.c\<close>) or, on a bridge, sends the message on the other bus. Requests take
  one of eight tags per pair of endpoints from a table with expiry times. Message buffers come from
  replaceable allocation functions (\<^verbatim>\<open>alloc.c\<close>) and change owner with every call. The
  MMBI binding (\<^verbatim>\<open>mmbi.c\<close>) writes packets to a memory region or to a device handle and
  has two user level APIs (\<open>mctp_mmbi_context_\<close>*, and \<^verbatim>\<open>transport.c\<close>).
  The driver answers reads and writes of two devices from two byte queues.

  \<^bold>\<open>The model.\<close> C structures are records with the fields of the source
  (\<open>Mctp_Types\<close>, \<open>Mctp_Mmbi\<close>), enumerations are datatypes, \<open>uint8_t\<close>,
  \<open>size_t\<close>, \<open>DWORD\<close> and so on are words of their width and wrap. One record
  \<open>world\<close> holds the fields of \<open>struct mctp\<close>, the bindings, the heap and the trace of
  calls out of the library (message handler, capture handler, control handler, binding). Every operation takes
  it and returns it in \<open>res\<close>, a sum whose left side is a fault: a NULL dereference, an access out
  of bounds, a bad \<open>free\<close>, a failed \<open>assert\<close>, or a loop out of fuel. So a theorem
  that an operation returns \<open>Inr\<close> says that the C code has none of these. A pointer into the heap
  is the number of its block; the ledger of live blocks makes leaks and double frees visible.

  \<^bold>\<open>Theories and sources.\<close>
  \<^item> \<open>Mctp_Prelude\<close>: words, faults, bounds checked memory, partial correctness
    (\<open>ends\<close>), shared lemmas.
  \<^item> \<open>Mctp_Alloc\<close>: \<^verbatim>\<open>alloc.c\<close>. \<open>Mctp_Log\<close>: the log
    filter of \<^verbatim>\<open>log.c\<close>.
  \<^item> \<open>Mctp_Types\<close>: structures and constants of \<^verbatim>\<open>libmctp.h\<close> and
    \<^verbatim>\<open>core-internal.h\<close>.
  \<^item> \<open>Mctp_Pktbuf\<close>: \<open>mctp_pktbuf_\<close>* and the header bit field.
    \<open>Mctp_Slots\<close>: fixed tables as finite maps (locale \<open>slot_table\<close>).
  \<^item> \<open>Mctp_Reassembly\<close>: \<open>mctp_msg_ctx_\<close>*. \<open>Mctp_Tags\<close>: the clock,
    \<open>mctp_alloc_tag\<close>, \<open>mctp_dealloc_tag\<close>.
  \<^item> \<open>Mctp_Tx\<close>: \<open>mctp_next_tx_pkt\<close> to \<open>mctp_message_tx_request\<close>.
    \<open>Mctp_Frames\<close>: the frames of a message, as a reference.
  \<^item> \<open>Mctp_Control\<close>: \<^verbatim>\<open>control.c\<close> and
    \<^verbatim>\<open>libmctp-cmds.h\<close>. \<open>Mctp_Rx\<close>: \<open>mctp_rx\<close> and
    \<open>mctp_bus_rx\<close>. \<open>Mctp_Instance\<close>: set up, registration, cleaning up, bridging.
  \<^item> \<open>Mctp_Endpoint\<close>, \<open>Mctp_Endpoint_Rx\<close>, \<open>Mctp_Api\<close>: the
    endpoint invariant \<open>endpoint_ok\<close> and that every call keeps it.
  \<^item> \<open>Mctp_Assembly\<close>, \<open>Mctp_Receive\<close>, \<open>Mctp_Roundtrip\<close>: the
    reassembly specification, its refinement, and sending followed by receiving.
  \<^item> \<open>Mctp_Integrity\<close>: arbitrary packet sequences: what is delivered was sent as one message, and
    interleaved messages do not disturb each other.
  \<^item> \<open>Mctp_Type_Table\<close>, \<open>Mctp_Control_Spec\<close>, \<open>Mctp_Bridge\<close>: the
    bounded set of types, the table of control replies, forwarding.
  \<^item> \<open>Mctp_Mmbi\<close>, \<open>Mmbi_Endpoint\<close>, \<open>Mmbi_Context\<close>:
    \<^verbatim>\<open>mmbi.c\<close>. \<open>Mctp_Transport\<close>: \<^verbatim>\<open>transport.c\<close>.
    \<open>Mmbi_Driver\<close>: \<^verbatim>\<open>MmbiDriver.c\<close>.
  \<^item> \<open>Mctp_Lifecycle\<close>: from storage to a running endpoint. \<open>Mctp_Example\<close>: the
    concrete endpoints of the instances. \<open>Mmbi_System\<close>: two contexts over the driver.

  \<^bold>\<open>Interfaces.\<close> The core relies on a binding through the locales \<open>safe_tx\<close>
  (the transmit function returns and keeps the binding's invariant) and \<open>reliable_tx\<close> (it also
  takes every packet); the theorems on the core are proved in them and reach the code through the
  interpretations \<open>mmbi\<close> (any memory or device state) and \<open>mmbi_mem\<close> (memory mode
  with room for a packet) on \<open>mctp_mmbi_tx\<close>. The default allocator interprets
  \<open>msg_allocator\<close>, the tables of contexts and tags \<open>slot_table\<close>, the ring buffer
  \<open>byte_fifo\<close> and the type table \<open>bounded_set\<close>.

  \<^bold>\<open>What is shown.\<close> Safety and ownership: in every reachable state of an endpoint every call
  returns without a fault, frees nothing twice and leaks nothing, and cleaning up frees exactly what the
  endpoint owns. Sending: the packets are those of the reference, they fit, they carry the message, the loop
  ends, and every return code is accounted for, with and without a bus. Receiving: \<open>mctp_bus_rx\<close> refines the reassembly
  rules, and sending then receiving gives the message back, up to the whole system of two contexts and the
  driver, each direction of which is a lossless stream of bytes for any sequence of requests. Whatever packets
  arrive, no delivered message is made up of pieces of others, and messages under way at the same time are each
  delivered whole in any interleaving. A request takes a fresh tag and its response gives it back. Control
  requests get the specified replies; the registered message types are reported by the type query, and not by the
  version query as two comments have it. Tags and types behave as finite sets. A bridge forwards a message in one packet
  from either bus to the other. Several theorems state what the code does where that is a defect: a bridge faults on the
  second fragment, \<open>mctp_mmbi_rx\<close> puts zeros in front of the packet, so that the core drops it, polling leaks every packet buffer and loses packets that the driver merged, a refused packet leaves
  its message pending for good, an unregistered bus leaks its message.

  \<^bold>\<open>Fuel.\<close> Only the loop of \<open>mctp_send_tx_queue\<close> takes fuel, one more than
  the length of the pending message. Every packet but the last carries at least one byte, since a bus is
  enabled only with a packet size of at least 68, so this is enough (\<open>loop_safe\<close>), and more fuel
  gives the same result (\<open>more_fuel\<close>).

  \<^bold>\<open>Parameters.\<close> The Windows calls \<open>CreateFileA\<close>, \<open>WriteFile\<close>,
  \<open>PeekNamedPipe\<close> and \<open>ReadFile\<close> are the parameter \<open>win_api\<close>. What is
  assumed of them is stated where it is used: \<open>ReadFile\<close> returns at most the bytes asked for
  (\<open>reads_bounded\<close>), \<open>CreateFileA\<close> does not return 0, and, in
  \<open>Mmbi_System\<close>, they reach the driver's two handlers (\<open>driver_calls\<close>). The clock
  and the success of each allocation are arbitrary functions in the state.

  \<^bold>\<open>Not modelled.\<close> Log and debug output (the filter of \<^verbatim>\<open>log.c\<close>
  itself is modelled), the critical section and the sleeps of \<^verbatim>\<open>mmbi.c\<close> and the
  driver's spin lock (each handler is one step), the alignment assertion of \<open>mctp_pktbuf_init\<close>,
  the driver's set up with the Windows driver framework, the calls \<open>GetFileType\<close> and
  \<open>SetNamedPipeHandleState\<close> of \<open>mctp_mmbi_init_device\<close> (they set the mode of the
  device and change nothing in the library), and what a message handler does when the library
  calls it (the call is an event of the trace). Test programs, tools, the preprocessor helpers
  \<^verbatim>\<open>compiler.h\<close>, \<^verbatim>\<open>container_of.h\<close> and
  \<^verbatim>\<open>range.h\<close>, and the compiler probe that CMake generates under
  \<^verbatim>\<open>src/build/\<close> carry no protocol logic.
\<close>

section \<open>The endpoint: receiving\<close>

text \<open>
  C1: reception never faults. Whatever packet buffer a binding hands to \<open>mctp_bus_rx\<close> (the window
  lies inside the buffer and starts at the MCTP header; the bytes are arbitrary), in every state of
  a running endpoint the call returns without a NULL dereference, an access out of bounds, a failed
  assertion or a bad \<open>free\<close>, and the invariant holds again with the same foreign blocks \<open>F\<close>: no
  message buffer is leaked and none is freed twice.
\<close>

theorem mctp_bus_rx_safe:
  assumes "endpoint_ok (mctp_mmbi_tx api) mmbi_ok mtu b F w"
    and "pktbuf_wf pkt" and "mctp_hdr_off pkt = pk_start pkt"
  shows "\<exists>w'. mctp_bus_rx b pkt w = Inr w' \<and> endpoint_ok (mctp_mmbi_tx api) mmbi_ok mtu b F w'"
  using mmbi.bus_rx_safe [OF assms] by blast

theorem mctp_bus_rx_safe_witness:
  "\<exists>w'. mctp_bus_rx 0 (ex_pkt [1, 9, 8, 0x80, 0]) ex_endpoint = Inr w' \<and>
     endpoint_ok (mctp_mmbi_tx ex_api) mmbi_ok 65540 0 {#0#} w'"
  by (rule mctp_bus_rx_safe [OF ex_endpoint_ok ex_pkt_ok(1,2)]) simp_all

text \<open>
  C2: \<open>mctp_bus_rx\<close> implements the reassembly rules of the specification \<open>reassemble\<close>. For a packet
  addressed to this endpoint, the table of messages being assembled after the call is the one the rules
  give (start, expected sequence number modulo 4, fragment size, size limit); when the rules complete a
  message that is not a control request, exactly this message is handed to the message handler, with
  the source and tag of the packet, and when they complete none, no handler is called. A message
  without the tag owner bit releases the request tag it answers (\<open>hdr_settled\<close>). In both cases
  nothing else changes but the contexts, the heap and the trace (\<open>hands_over\<close>).
\<close>

theorem mctp_bus_rx_refines:
  assumes "endpoint_ok (mctp_mmbi_tx api) mmbi_ok mtu b F w" and "rx_pkt pkt" and "read_hdr pkt = Inr hdr"
    and "hdr_src hdr \<noteq> MCTP_EID_BROADCAST" and "mctp_rx_dest_is_local (bus_at w 0) (hdr_dest hdr)"
    and "reassemble (asm_table (msg_ctxs w)) (max_message_size w) (rx_memory hdr pkt w) hdr
           (mctp_pktbuf_size pkt) (drop 4 (pktbuf_bytes pkt)) = (T, r)"
  shows "\<exists>w'. mctp_bus_rx b pkt w = Inr w' \<and> endpoint_ok (mctp_mmbi_tx api) mmbi_ok mtu b F w' \<and>
     asm_table (msg_ctxs w') = T \<and>
     (r = None \<longrightarrow> hands_over w w' (req_tags w) (capture_events pkt False w)) \<and>
     (\<forall>m. r = Some m \<and> user_message m \<longrightarrow> hands_over w w' (hdr_settled hdr w) (capture_events pkt False w @ delivery w hdr m))"
proof -
  obtain w' where "mctp_bus_rx b pkt w = Inr w'" "endpoint_ok (mctp_mmbi_tx api) mmbi_ok mtu b F w'"
    "asm_table (msg_ctxs w') = T"
    "r = None \<Longrightarrow> \<exists>cs h. w' = w\<lparr>msg_ctxs := cs, heap := h, trace := trace w @ capture_events pkt False w\<rparr>"
    "\<And>m. r = Some m \<Longrightarrow> user_message m \<Longrightarrow> hands_over w w' (hdr_settled hdr w) (capture_events pkt False w @ delivery w hdr m)"
    by (rule mmbi.bus_rx_accepts [OF assms]) (rule that)
  then show ?thesis by (intro exI [of _ w']) (auto intro: hands_over_table)
qed

theorem mctp_bus_rx_refines_witness:
  "\<exists>w'. mctp_bus_rx 0 (ex_pkt [1, 9, 8, 0xc8, 0x7e]) ex_endpoint = Inr w' \<and>
     trace w' = [Ev_message_rx 7 3 8 True 0 [0x7e] 1]"
proof -
  let ?p = "ex_pkt [1, 9, 8, 0xc8, 0x7e]" and ?h = "\<lparr>hdr_ver = 1, hdr_dest = 9, hdr_src = 8, flags_seq_tag = 0xc8\<rparr>"
  have p: "rx_pkt ?p" "pktbuf_bytes ?p = [1, 9, 8, 0xc8, 0x7e]" by (simp_all add: ex_pkt_rx ex_pkt_ok)
  have h: "read_hdr ?p = Inr ?h" using rx_pkt_hdr [OF p(1)] p(2) by simp
  have mem: "rx_memory ?h ?p ex_endpoint"
    using plenty_alloc [OF ex_plenty, of "mctp_pktbuf_size ?p - SIZEOF_MCTP_HDR"] by (auto simp: rx_memory_def fst_flags_def)
  have r: "reassemble (asm_table (msg_ctxs ex_endpoint)) (max_message_size ex_endpoint) (rx_memory ?h ?p ex_endpoint) ?h
      (mctp_pktbuf_size ?p) (drop 4 (pktbuf_bytes ?p)) = (asm_table (msg_ctxs ex_endpoint), Some [0x7e])"
    using mem by (simp add: reassemble_def p(2) fst_flags_def)
  have d: "mctp_rx_dest_is_local (bus_at ex_endpoint 0) (hdr_dest ?h)" by (simp add: ex_endpoint_mem mctp_rx_dest_is_local_def)
  show ?thesis
    using mctp_bus_rx_refines [OF ex_endpoint_ok p(1) h _ d r]
    by (auto simp: user_message_def delivery_def capture_events_def ex_endpoint_mem fst_to_def fst_tag_def dest!: hands_over_frame(1))
qed

text \<open>
  C26: packets the endpoint must not accept change nothing: a packet shorter than a header, with the
  broadcast EID as its source, or for another endpoint leaves the whole state as it was, apart from the
  call of the capture handler.
\<close>

theorem mctp_bus_rx_ignores:
  assumes "endpoint_ok (mctp_mmbi_tx api) mmbi_ok mtu b F w" and "pktbuf_wf pkt" and "mctp_hdr_off pkt = pk_start pkt"
    and "length (pktbuf_bytes pkt) < 4 \<or> (\<exists>hdr. read_hdr pkt = Inr hdr \<and>
           (hdr_src hdr = MCTP_EID_BROADCAST \<or> \<not> mctp_rx_dest_is_local (bus_at w 0) (hdr_dest hdr)))"
  shows "mctp_bus_rx b pkt w = Inr w \<or>
     mctp_bus_rx b pkt w = Inr (w\<lparr>trace := trace w @ capture_events pkt False w\<rparr>)"
  by (rule mmbi.bus_rx_rejects [OF assms]) auto

theorem mctp_bus_rx_ignores_witness:
  "mctp_bus_rx 0 (ex_pkt [1, 12, 8, 0xc8, 0x7e]) ex_endpoint = Inr ex_endpoint"
proof -
  let ?p = "ex_pkt [1, 12, 8, 0xc8, 0x7e]"
  have p: "rx_pkt ?p" "pktbuf_bytes ?p = [1, 12, 8, 0xc8, 0x7e]" by (simp_all add: ex_pkt_rx ex_pkt_ok)
  have bad: "\<exists>hdr. read_hdr ?p = Inr hdr \<and> (hdr_src hdr = MCTP_EID_BROADCAST \<or>
      \<not> mctp_rx_dest_is_local (bus_at ex_endpoint 0) (hdr_dest hdr))"
    using rx_pkt_hdr [OF p(1)] p(2) by (simp add: mctp_rx_dest_is_local_def ex_endpoint_mem zero_bus_def)
  have "ex_endpoint\<lparr>trace := []\<rparr> = ex_endpoint\<lparr>trace := trace ex_endpoint\<rparr>" by (simp only: ex_endpoint_mem(4))
  also have "\<dots> = ex_endpoint" by simp
  finally have id: "ex_endpoint\<lparr>trace := []\<rparr> = ex_endpoint" .
  have "mctp_bus_rx 0 ?p ex_endpoint = Inr ex_endpoint \<or> mctp_bus_rx 0 ?p ex_endpoint = Inr (ex_endpoint\<lparr>trace := []\<rparr>)"
    using mctp_bus_rx_ignores [OF ex_endpoint_ok ex_pkt_ok(1,2) disjI2 [OF bad]]
    by (simp add: capture_events_def ex_endpoint_mem)
  then show ?thesis unfolding id by simp
qed

text \<open>
  C4: no message is made up. Whatever list of packets arrives at an endpoint that has nothing under way, with any
  bytes in any order, every call of the message handler is for a message whose bytes are the payloads of
  packets of that list, in their order: all with the source, tag and one destination of the call, the first and
  only the first with the start flag, the last and only the last with the end flag, and with sequence
  numbers that count up modulo 4. So lost, repeated or mixed fragments never end in a corrupted message.
\<close>

theorem received_messages_genuine:
  assumes "endpoint_ok (mctp_mmbi_tx api) mmbi_ok mtu b F w" and "\<forall>p\<in>set ps. pktbuf_wf p \<and> mctp_hdr_off p = pk_start p"
    and "asm_table (msg_ctxs w) = (\<lambda>k. None)"
  shows "\<exists>w' ms. rx_all b ps w = Inr w' \<and> endpoint_ok (mctp_mmbi_tx api) mmbi_ok mtu b F w' \<and> inbox w' = inbox w @ ms \<and>
     (\<forall>ev\<in>set ms. \<exists>f u src dest to tag m qs. ev = Ev_message_rx f u src to tag m (of_nat (length m)) \<and>
        subseq qs ps \<and> frag_run (src, dest, tag) True (map frag_of qs) \<and> m = concat (map (drop 4 \<circ> pktbuf_bytes) qs))"
proof -
  have "stems [] (asm_table (msg_ctxs w))" using assms(3) by (simp add: stems_def)
  from mmbi.rx_all_genuine [OF assms(1,2) this] obtain w' ms where w': "rx_all b ps w = Inr w'"
    "endpoint_ok (mctp_mmbi_tx api) mmbi_ok mtu b F w'" "inbox w' = inbox w @ ms"
    and ms: "\<forall>ev\<in>set ms. \<exists>f u src dest to tag m. ev = Ev_message_rx f u src to tag m (of_nat (length m)) \<and>
        genuine ps (src, dest, tag) m" by auto
  show ?thesis
    by (intro exI [of _ w'] exI [of _ ms] conjI w') (use ms in \<open>unfold genuine_def frags_in_def, blast\<close>)
qed

theorem received_messages_genuine_witness:
  "\<exists>w' ms. rx_all 0 [ex_pkt [1, 9, 8, 0x80, 0], ex_pkt [2], ex_pkt [1, 9, 8, 0x50, 7]] ex_endpoint = Inr w' \<and> inbox w' = ms \<and>
     (\<forall>ev\<in>set ms. \<exists>f u src dest to tag m qs. ev = Ev_message_rx f u src to tag m (of_nat (length m)) \<and>
        subseq qs [ex_pkt [1, 9, 8, 0x80, 0], ex_pkt [2], ex_pkt [1, 9, 8, 0x50, 7]] \<and>
        frag_run (src, dest, tag) True (map frag_of qs) \<and> m = concat (map (drop 4 \<circ> pktbuf_bytes) qs))"
proof -
  let ?ps = "[ex_pkt [1, 9, 8, 0x80, 0], ex_pkt [2], ex_pkt [1, 9, 8, 0x50, 7]]"
  have wf: "\<forall>p\<in>set ?ps. pktbuf_wf p \<and> mctp_hdr_off p = pk_start p" by (simp add: ex_pkt_ok)
  have "asm_table (msg_ctxs ex_endpoint) = (\<lambda>k. None)"
    by (simp add: fun_eq_iff ex_endpoint_mem asm_table_def slot_map_replicate)
  from received_messages_genuine [OF ex_endpoint_ok wf this] obtain w' ms where
    "rx_all 0 ?ps ex_endpoint = Inr w'" "inbox w' = inbox ex_endpoint @ ms"
    "\<forall>ev\<in>set ms. \<exists>f u src dest to tag m qs. ev = Ev_message_rx f u src to tag m (of_nat (length m)) \<and>
        subseq qs ?ps \<and> frag_run (src, dest, tag) True (map frag_of qs) \<and> m = concat (map (drop 4 \<circ> pktbuf_bytes) qs)" by blast
  moreover have "inbox ex_endpoint = []" by (simp add: inbox_def ex_endpoint_mem)
  ultimately show ?thesis by (intro exI [of _ w'] exI [of _ ms]) simp
qed

text \<open>
  C9: messages under way do not disturb each other. When the packets that arrive, taken apart by source,
  destination and tag, are for each of them the rest of the message the receiver is waiting for, then in every
  interleaving each message is delivered once, complete, when its last packet comes, and its context is released.
\<close>

theorem interleaved_messages:
  assumes "endpoint_ok (mctp_mmbi_tx api) mmbi_ok mtu b F w" and "\<forall>p\<in>set ps. rx_pkt p"
    and "\<forall>p\<in>set ps. msg_key (bu (pkt_key p)) = pkt_key p \<and>
       awaits w (bn (pkt_key p)) (bu (pkt_key p)) (map pktbuf_bytes (filter (\<lambda>q. pkt_key q = pkt_key p) ps)) (m (pkt_key p))"
  shows "\<exists>w'. rx_all b ps w = Inr w' \<and> endpoint_ok (mctp_mmbi_tx api) mmbi_ok mtu b F w' \<and>
     (\<forall>k. asm_table (msg_ctxs w') k = (if k \<in> pkt_key ` set ps then None else asm_table (msg_ctxs w) k)) \<and>
     trace w' = trace w @ concat (map (\<lambda>p. capture_events p False w @
       (if frag_eom (frag_of p) then msg_event w (bu (pkt_key p)) (m (pkt_key p)) else [])) ps)"
  by (rule mmbi.rx_interleaved [OF assms])

theorem interleaved_messages_witness:
  "\<exists>w'. rx_all 0 [ex_pkt (1 # 9 # 8 # 0x11 # replicate 64 1), ex_pkt [1, 9, 10, 0x52, 6], ex_pkt [1, 9, 8, 0x61, 5]] ex_two = Inr w' \<and>
     trace w' = [Ev_message_rx 7 3 10 False 2 [0x7e, 6] 2, Ev_message_rx 7 3 8 False 1 (0x7e # replicate 64 1 @ [5]) 66]"
proof -
  let ?p1 = "ex_pkt (1 # 9 # 8 # 0x11 # replicate 64 1)" and ?p2 = "ex_pkt [1, 9, 10, 0x52, 6]" and ?p3 = "ex_pkt [1, 9, 8, 0x61, 5]"
  let ?bn = "ex_binding\<lparr>b_pkt_size := 68\<rparr>"
  let ?bu = "\<lambda>k :: u8 \<times> u8 \<times> u8. zero_bus\<lparr>tx_src := fst k, tx_dest := 9, tx_to := False, tx_tag := snd (snd k)\<rparr>"
  let ?m = "\<lambda>k :: u8 \<times> u8 \<times> u8. if k = (8, 9, 1) then 0x7e # replicate 64 1 @ [5] else [0x7e, 6]"
  have pk: "rx_pkt ?p1" "rx_pkt ?p2" "rx_pkt ?p3" by (simp_all add: ex_pkt_rx)
  have bs: "pktbuf_bytes ?p1 = 1 # 9 # 8 # 0x11 # replicate 64 1" "pktbuf_bytes ?p2 = [1, 9, 10, 0x52, 6]" "pktbuf_bytes ?p3 = [1, 9, 8, 0x61, 5]"
    by (simp_all add: ex_pkt_ok)
  have key: "pkt_key ?p1 = (8, 9, 1)" "pkt_key ?p2 = (10, 9, 2)" "pkt_key ?p3 = (8, 9, 1)"
    and eom: "\<not> frag_eom (frag_of ?p1)" "frag_eom (frag_of ?p2)" "frag_eom (frag_of ?p3)"
    by (simp_all add: pkt_key_def frag_key_def frag_eom_def frag_of_def rx_pkt_hdr pk bs fst_tag_def fst_flags_def)
  have fr: "msg_frames ?bn (?bu (8, 9, 1)) False 1 (replicate 64 1 @ [5]) = [pktbuf_bytes ?p1, pktbuf_bytes ?p3]"
    "msg_frames ?bn (?bu (10, 9, 2)) False 1 [6] = [pktbuf_bytes ?p2]"
    by (simp_all add: bs msg_frames_more msg_frames_last wire_defs ex_binding_def zero_bus_def)
  have l: "mctp_rx_dest_is_local (bus_at ex_two 0) 9"
    using ex_endpoint_mem(2) by (simp add: mctp_rx_dest_is_local_def ex_two_def bus_at_def)
  let ?a = "\<lparr>asm_msg = [0x7e], asm_seq = 0, asm_frag = 68, asm_limit = 100\<rparr>"
  have a1: "awaits ex_two ?bn (?bu (8, 9, 1)) [pktbuf_bytes ?p1, pktbuf_bytes ?p3] (?m (8, 9, 1))"
    unfolding awaits_def
    by (intro exI [of _ ?a] exI [of _ 1] exI [of _ "replicate 64 1 @ [5]"]) (simp add: l fr [simplified] ex_two_table msg_key_def user_message_def)
  have a2: "awaits ex_two ?bn (?bu (10, 9, 2)) [pktbuf_bytes ?p2] (?m (10, 9, 2))"
    unfolding awaits_def
    by (intro exI [of _ ?a] exI [of _ 1] exI [of _ "[6]"]) (simp add: l fr [simplified] ex_two_table msg_key_def user_message_def)
  have tr: "trace ex_two = []" "message_rx ex_two = Some 7" "message_rx_data ex_two = 3" "capture ex_two = None"
    by (simp_all add: ex_two_def ex_endpoint_mem)
  have "\<exists>w'. rx_all 0 [?p1, ?p2, ?p3] ex_two = Inr w' \<and> endpoint_ok (mctp_mmbi_tx ex_api) mmbi_ok 65540 0 {#0#} w' \<and>
     (\<forall>k. asm_table (msg_ctxs w') k = (if k \<in> pkt_key ` set [?p1, ?p2, ?p3] then None else asm_table (msg_ctxs ex_two) k)) \<and>
     trace w' = trace ex_two @ concat (map (\<lambda>p. capture_events p False ex_two @
       (if frag_eom (frag_of p) then msg_event ex_two (?bu (pkt_key p)) (?m (pkt_key p)) else [])) [?p1, ?p2, ?p3])"
    by (rule interleaved_messages [OF ex_two_ok, where bn = "\<lambda>k. ?bn"])
      (use pk a1 a2 in \<open>simp_all add: key msg_key_def \<close>)
  then show ?thesis
    by (auto simp: key eom tr capture_events_def msg_event_def simp del: rx_all.simps)
qed

text \<open>
  C19: the memory reassembly takes is bounded. After every received packet at most 16 messages are
  being assembled, and none of them has collected more bytes than its buffer was allocated for.
\<close>

theorem reassembly_bounded:
  assumes "endpoint_ok (mctp_mmbi_tx api) mmbi_ok mtu b F w" and "pktbuf_wf pkt" and "mctp_hdr_off pkt = pk_start pkt"
  shows "\<exists>w'. mctp_bus_rx b pkt w = Inr w' \<and> card (dom (asm_table (msg_ctxs w'))) \<le> MCTP_REASSEMBLY_CTXS \<and>
     (\<forall>k a. asm_table (msg_ctxs w') k = Some a \<longrightarrow> length (asm_msg a) \<le> unat (asm_limit a))"
proof -
  obtain w' where w': "mctp_bus_rx b pkt w = Inr w'" "endpoint_ok (mctp_mmbi_tx api) mmbi_ok mtu b F w'"
    by (rule mmbi.bus_rx_safe [OF assms])
  then have c: "length (msg_ctxs w') = 16" "\<forall>c\<in>set (msg_ctxs w'). ctx_wf c" "ctxs_unique (msg_ctxs w')"
    by (simp_all add: endpoint_defs ctxs_ok_def)
  have sub: "dom (asm_table (msg_ctxs w')) \<subseteq> ctx_key ` set (msg_ctxs w')"
    by (auto simp: asm_table_def slot_map_Some_iff [OF c(3)]) (metis image_eqI nth_mem)
  have "card (ctx_key ` set (msg_ctxs w')) \<le> 16"
    using card_image_le [of "set (msg_ctxs w')" ctx_key] card_length [of "msg_ctxs w'"] c(1) by simp
  then have "card (dom (asm_table (msg_ctxs w'))) \<le> 16"
    using card_mono [OF _ sub] by (meson List.finite_set finite_imageI le_trans)
  moreover have "length (asm_msg a) \<le> unat (asm_limit a)" if k: "asm_table (msg_ctxs w') k = Some a" for k a
  proof -
    obtain x where x: "x \<in> set (msg_ctxs w')" "ctx_used x" "a = asm_of x"
      using k by (auto simp: asm_table_def slot_map_Some_iff [OF c(3)] in_set_conv_nth)
    then obtain mb where mb: "ctx_buf x = Some mb" by (auto simp: ctx_used_def)
    have wf: "ctx_wf x" using c(2) x(1) by blast
    then show ?thesis using ctx_msg_length [OF wf mb] x(3) mb by (simp add: asm_of_def ctx_wf_def word_le_nat_alt)
  qed
  ultimately show ?thesis using w'(1) by auto
qed

theorem reassembly_bounded_witness:
  "\<exists>w'. mctp_bus_rx 0 (ex_pkt [1, 9, 8, 0x80, 0]) ex_endpoint = Inr w' \<and> card (dom (asm_table (msg_ctxs w'))) \<le> 16"
  using reassembly_bounded [OF ex_endpoint_ok ex_pkt_ok(1,2), of "[1, 9, 8, 0x80, 0]"] by auto

section \<open>The endpoint: sending\<close>

text \<open>
  C7: on an idle, enabled endpoint whose binding takes every packet, \<open>mctp_message_tx\<close> returns 0 and
  hands the binding exactly the frames of the specification \<open>msg_frames\<close>, in order: the message cut at
  the transmission unit, each fragment under a header with the endpoint's EID, the destination, the
  tag, the right start and end flags and consecutive sequence numbers.
\<close>

theorem mctp_message_tx_sends_frames:
  assumes "endpoint_ok (mctp_mmbi_tx api) (mmbi_mem_ok mtu) mtu b F w" and "unat n \<le> length msg"
    and "tx_msg (bus_at w 0) = None" and "bus_state (bus_at w 0) = mctp_bus_state_tx_enabled"
    and "tag AND 7 = tag" and "w_msg_alloc n True w = Inr (Some mb, w1)"
  shows "\<exists>w' evs. mctp_message_tx eid to tag msg n w = Inr (0, w') \<and>
     endpoint_ok (mctp_mmbi_tx api) (mmbi_mem_ok mtu) mtu b F w' \<and> tx_msg (bus_at w' 0) = None \<and>
     trace w' = trace w @ evs \<and>
     sent_frames b evs = msg_frames (bindings w b) (tx_params (bus_at w 0) eid to tag) True
       (tx_seq (bus_at w 0)) (take (unat n) msg)"
  by (rule mmbi_mem.message_tx_sends [OF assms, of eid to]) blast

theorem mctp_message_tx_sends_frames_witness:
  "\<exists>w' evs. mctp_message_tx 8 True 3 [0x7e, 5] 2 ex_endpoint = Inr (0, w') \<and>
     sent_frames 0 (trace w') = [[1, 8, 9, 0xcb, 0x7e, 5]]"
proof -
  obtain mb w1 where a: "w_msg_alloc 2 True ex_endpoint = Inr (Some mb, w1)"
    using plenty_alloc [OF ex_plenty, of 2] by blast
  have "msg_frames (bindings ex_endpoint 0) (tx_params (bus_at ex_endpoint 0) 8 True 3) True (tx_seq (bus_at ex_endpoint 0))
     (take (unat (2 :: u64)) [0x7e, 5]) = [[1, 8, 9, 0xcb, 0x7e, 5]]"
    by (subst msg_frames_last)
      (simp_all add: ex_endpoint_mem ex_binding_def tx_params_def zero_bus_def wire_defs)
  then show ?thesis
    using mctp_message_tx_sends_frames [OF ex_endpoint_mem(1) _ _ _ _ a, of "[0x7e, 5]" 3 8 True]
    by (auto simp: ex_endpoint_mem zero_bus_def)
qed

text \<open>
  C18: the packets of a message fit and carry it completely: each is at least a header and at most the
  packet size of the binding, their payloads concatenated are the message, and there are as many as
  the length divided by the payload size, rounded up (one for the empty message).
\<close>

theorem message_tx_fragments:
  assumes "endpoint_ok (mctp_mmbi_tx api) (mmbi_mem_ok mtu) mtu b F w" and "unat n \<le> length msg"
    and "tx_msg (bus_at w 0) = None" and "bus_state (bus_at w 0) = mctp_bus_state_tx_enabled"
    and "tag AND 7 = tag" and "w_msg_alloc n True w = Inr (Some mb, w1)"
  shows "\<exists>w' evs. mctp_message_tx eid to tag msg n w = Inr (0, w') \<and> trace w' = trace w @ evs \<and>
     concat (map (drop 4) (sent_frames b evs)) = take (unat n) msg \<and>
     (\<forall>f\<in>set (sent_frames b evs). 4 \<le> length f \<and> length f \<le> mtu) \<and>
     length (sent_frames b evs) = max 1 ((unat n + (mtu - 4) - 1) div (mtu - 4))"
proof -
  have m: "mtu = unat (b_pkt_size (bindings w b))" "4 < unat (b_pkt_size (bindings w b))"
    using assms(1) by (auto simp: endpoint_defs binding_ok_def)
  obtain w' evs where "mctp_message_tx eid to tag msg n w = Inr (0, w')" "trace w' = trace w @ evs"
    "sent_frames b evs = msg_frames (bindings w b) (tx_params (bus_at w 0) eid to tag) True (tx_seq (bus_at w 0)) (take (unat n) msg)"
    by (rule mmbi_mem.message_tx_sends [OF assms(1-6), of eid to]) (rule that)
  then show ?thesis using msg_frames_shape [OF m(2)] m(1) assms(2) by (intro exI conjI) auto
qed

theorem message_tx_fragments_witness:
  "\<exists>w' evs. mctp_message_tx 8 True 3 (replicate 70000 1) 70000 ex_endpoint = Inr (0, w') \<and> length (sent_frames 0 (trace w')) = 2"
proof -
  obtain mb w1 where a: "w_msg_alloc 70000 True ex_endpoint = Inr (Some mb, w1)"
    using plenty_alloc [OF ex_plenty, of 70000] by blast
  show ?thesis
    using message_tx_fragments [OF ex_endpoint_mem(1) _ _ _ _ a, of "replicate 70000 1" 3 8 True]
    by (auto simp: ex_endpoint_mem zero_bus_def)
qed

text \<open>A message from one endpoint to another, as the two properties below use it.\<close>

lemma message_carried:
  assumes snd_ok: "endpoint_ok (mctp_mmbi_tx api) (mmbi_mem_ok mtu) mtu b F w"
    and idle: "tx_msg (bus_at w 0) = None" "bus_state (bus_at w 0) = mctp_bus_state_tx_enabled"
    and tag: "tag AND 7 = tag" and len: "unat n = length msg" and alloc: "w_msg_alloc n True w = Inr (Some mb, w1)"
    and rcv_ok: "endpoint_ok (mctp_mmbi_tx api') mmbi_ok mtu' b' F' v"
    and dest: "mctp_rx_dest_is_local (bus_at v 0) eid" and src: "bus_eid (bus_at w 0) \<noteq> MCTP_EID_BROADCAST"
    and lim: "length msg \<le> unat (start_limit v (bus_eid (bus_at w 0), eid, tag))" and user: "user_message msg"
    and sent: "mctp_message_tx eid to tag msg n w = Inr (rc, w')"
    and ps: "map pktbuf_bytes ps = sent_frames b (drop (length (trace w)) (trace w'))" "\<forall>p\<in>set ps. rx_pkt p"
    and mem: "\<forall>hdr. read_hdr (hd ps) = Inr hdr \<longrightarrow> rx_memory hdr (hd ps) v"
  shows "rc = 0 \<and> (\<exists>v'. rx_all b' ps v = Inr v' \<and> endpoint_ok (mctp_mmbi_tx api') mmbi_ok mtu' b' F' v' \<and>
     req_tags v' = settled to eid (bus_eid (bus_at w 0)) tag (req_tags v) \<and>
     trace v' = trace v @ rx_captures ps v @ (case message_rx v of None \<Rightarrow> []
       | Some f \<Rightarrow> [Ev_message_rx f (message_rx_data v) (bus_eid (bus_at w 0)) to tag msg n]))"
proof -
  let ?bus = "tx_params (bus_at w 0) eid to tag"
  have "unat n \<le> length msg" using len by simp
  then obtain w2 evs where run: "mctp_message_tx eid to tag msg n w = Inr (0, w2)" and tr: "trace w2 = trace w @ evs"
    and fr: "sent_frames b evs = msg_frames (bindings w b) ?bus True (tx_seq (bus_at w 0)) (take (unat n) msg)"
    by (rule mmbi_mem.message_tx_sends [OF snd_ok _ idle tag alloc, of msg eid to]) (rule that)
  have w2: "rc = 0" "w' = w2" using run sent by simp_all
  have pk: "68 \<le> unat (b_pkt_size (bindings w b))" and sq: "tx_seq (bus_at w 0) AND 3 = tx_seq (bus_at w 0)"
    using snd_ok by (auto simp: endpoint_defs binding_ok_def tx_pending_ok_def)
  have ps': "map pktbuf_bytes ps = msg_frames (bindings w b) ?bus True (tx_seq (bus_at w 0)) msg"
    using ps(1) fr tr w2 len by simp
  have "\<exists>v'. rx_all b' ps v = Inr v' \<and> endpoint_ok (mctp_mmbi_tx api') mmbi_ok mtu' b' F' v' \<and>
     (\<forall>k. k \<noteq> (tx_src ?bus, tx_dest ?bus, tx_tag ?bus) \<longrightarrow> asm_table (msg_ctxs v') k = asm_table (msg_ctxs v) k) \<and>
     req_tags v' = msg_settled ?bus v \<and> trace v' = trace v @ rx_captures ps v @ msg_event v ?bus msg"
    by (rule mmbi.rx_message [OF rcv_ok pk _ sq _ ps' ps(2)])
      (use tag lim dest src user mem in \<open>simp_all add: tx_params_def\<close>)
  moreover have "of_nat (length msg) = n" using len by (metis of_nat_unat ucast_id)
  ultimately show ?thesis using w2 by (auto simp: msg_event_def msg_settled_def tx_params_def split: option.split)
qed

text \<open>
  C3: a message arrives as it was sent. When one endpoint sends a message with \<open>mctp_message_tx\<close> and
  another one receives the packets its binding was given, in order, the receiver's message handler is
  called once, with the sender's EID, the tag, the tag owner bit and exactly the bytes of the message,
  whatever number of fragments it took. A message without the tag owner bit also releases the tag of the request
  it answers.
\<close>

theorem message_end_to_end:
  assumes snd_ok: "endpoint_ok (mctp_mmbi_tx api) (mmbi_mem_ok mtu) mtu b F w"
    and idle: "tx_msg (bus_at w 0) = None" "bus_state (bus_at w 0) = mctp_bus_state_tx_enabled"
    and tag: "tag AND 7 = tag" and len: "unat n = length msg" and alloc: "w_msg_alloc n True w = Inr (Some mb, w1)"
    and rcv_ok: "endpoint_ok (mctp_mmbi_tx api') mmbi_ok mtu' b' F' v"
    and dest: "mctp_rx_dest_is_local (bus_at v 0) eid" and src: "bus_eid (bus_at w 0) \<noteq> MCTP_EID_BROADCAST"
    and lim: "length msg \<le> unat (start_limit v (bus_eid (bus_at w 0), eid, tag))" and user: "user_message msg"
    and sent: "mctp_message_tx eid to tag msg n w = Inr (rc, w')"
    and ps: "map pktbuf_bytes ps = sent_frames b (drop (length (trace w)) (trace w'))" "\<forall>p\<in>set ps. rx_pkt p"
    and mem: "\<forall>hdr. read_hdr (hd ps) = Inr hdr \<longrightarrow> rx_memory hdr (hd ps) v"
  shows "rc = 0 \<and> (\<exists>v'. rx_all b' ps v = Inr v' \<and> endpoint_ok (mctp_mmbi_tx api') mmbi_ok mtu' b' F' v' \<and>
     req_tags v' = (if to then req_tags v else release_tag eid (bus_eid (bus_at w 0)) tag (req_tags v)) \<and>
     trace v' = trace v @ rx_captures ps v @ (case message_rx v of None \<Rightarrow> []
       | Some f \<Rightarrow> [Ev_message_rx f (message_rx_data v) (bus_eid (bus_at w 0)) to tag msg n]))"
  using message_carried [OF assms] by (simp only: settled_def)

theorem message_end_to_end_witness:
  "\<exists>w' v'. mctp_message_tx 9 True 3 [0x7e, 5] 2 ex_endpoint = Inr (0, w') \<and>
     rx_all 0 [ex_pkt [1, 9, 9, 0xcb, 0x7e, 5]] ex_endpoint = Inr v' \<and>
     trace v' = [Ev_message_rx 7 3 9 True 3 [0x7e, 5] 2]"
proof -
  let ?p = "ex_pkt [1, 9, 9, 0xcb, 0x7e, 5]"
  have p: "rx_pkt ?p" "pktbuf_bytes ?p = [1, 9, 9, 0xcb, 0x7e, 5]" by (simp_all add: ex_pkt_rx ex_pkt_ok)
  obtain mb w1 where a: "w_msg_alloc 2 True ex_endpoint = Inr (Some mb, w1)"
    using plenty_alloc [OF ex_plenty, of 2] by blast
  have idle: "tx_msg (bus_at ex_endpoint 0) = None" "bus_state (bus_at ex_endpoint 0) = mctp_bus_state_tx_enabled"
    by (simp_all add: ex_endpoint_mem zero_bus_def)
  have fr: "msg_frames (bindings ex_endpoint 0) (tx_params (bus_at ex_endpoint 0) 9 True 3) True (tx_seq (bus_at ex_endpoint 0))
     (take (unat (2 :: u64)) [0x7e, 5]) = [[1, 9, 9, 0xcb, 0x7e, 5]]"
    by (subst msg_frames_last)
      (simp_all add: ex_endpoint_mem ex_binding_def tx_params_def zero_bus_def wire_defs)
  obtain w' where run: "mctp_message_tx 9 True 3 [0x7e, 5] 2 ex_endpoint = Inr (0, w')"
    and s: "sent_frames 0 (trace w') = [[1, 9, 9, 0xcb, 0x7e, 5]]"
    by (rule mmbi_mem.message_tx_sends [OF ex_endpoint_mem(1) _ idle _ a, of "[0x7e, 5]" 3 9 True])
      (use fr in \<open>auto simp: ex_endpoint_mem\<close>)
  have mem: "rx_memory h ?p ex_endpoint" for h
    using plenty_alloc [OF ex_plenty, of "mctp_pktbuf_size ?p - SIZEOF_MCTP_HDR"] plenty_alloc [OF ex_plenty, of MCTP_MAX_MESSAGE_SIZE]
    by (auto simp: rx_memory_def slot_available_def ex_endpoint_mem numeral_eq_Suc)
  have lim: "start_limit ex_endpoint k = MCTP_MAX_MESSAGE_SIZE" for k
    by (simp add: start_limit_def ex_endpoint_mem asm_table_def slot_map_replicate)
  show ?thesis
    using message_end_to_end [OF ex_endpoint_mem(1) idle _ _ a ex_endpoint_ok _ _ _ _ run, of "[?p]"] run p s mem lim
    by (simp add: ex_endpoint_mem zero_bus_def mctp_rx_dest_is_local_def user_message_def MCTP_MAX_MESSAGE_SIZE_def
        rx_captures_def capture_events_def del: rx_all.simps) blast
qed

text \<open>
  C5: a request and its response. An endpoint sends a request; the tag it is given becomes active for this peer.
  When the peer answers with that tag through \<open>mctp_message_tx\<close> and the packets of the answer arrive, the
  message handler is called once with exactly the answer, and the tags in use are again those from before
  the request. (No request in the table has expired, and the clock is 6000 ms away from its wrap-around.)
\<close>

theorem request_response:
  assumes req_ok: "endpoint_ok (mctp_mmbi_tx api) mmbi_ok mtu b (add_mset (mb_blk mb) F) w" and n: "unat n \<le> length (mb_data mb)"
    and eid: "l = bus_eid (bus_at w 0)" "l \<noteq> 0" and now: "mctp_now w = Inr now" "now \<le> now + MCTP_TAG_TIMEOUT"
    and tags: "slots_unique tag_used tag_key (req_tags w)" "\<forall>x\<in>set (req_tags w). tag_used x \<longrightarrow> tag_active now x"
    and req: "mctp_message_tx_request r mb n w = Inr ((0, Some tag), w1)"
    and peer: "endpoint_ok (mctp_mmbi_tx api') (mmbi_mem_ok mtu') mtu' b' F' v" "bus_eid (bus_at v 0) = r" "r \<noteq> MCTP_EID_BROADCAST"
    and idle: "tx_msg (bus_at v 0) = None" "bus_state (bus_at v 0) = mctp_bus_state_tx_enabled"
    and ans: "mctp_message_tx l False tag m k v = Inr (rc, v1)" "unat k = length m" "w_msg_alloc k True v = Inr (Some mb', v0)"
    and ps: "map pktbuf_bytes ps = sent_frames b' (drop (length (trace v)) (trace v1))" "\<forall>p\<in>set ps. rx_pkt p"
    and rcv: "user_message m" "length m \<le> unat (start_limit w1 (r, l, tag))"
      "\<forall>hdr. read_hdr (hd ps) = Inr hdr \<longrightarrow> rx_memory hdr (hd ps) w1"
  shows "rc = 0 \<and> active_tags now l r (req_tags w1) = insert tag (active_tags now l r (req_tags w)) \<and>
     (\<exists>w2. rx_all b ps w1 = Inr w2 \<and> endpoint_ok (mctp_mmbi_tx api) mmbi_ok mtu b F w2 \<and>
        (\<forall>a c. active_tags now a c (req_tags w2) = active_tags now a c (req_tags w)) \<and>
        trace w2 = trace w1 @ rx_captures ps w1 @ (case message_rx w1 of None \<Rightarrow> []
          | Some f \<Rightarrow> [Ev_message_rx f (message_rx_data w1) r False tag m k]))"
proof -
  obtain rc' t w' where "mctp_message_tx_request r mb n w = Inr ((rc', t), w')" "endpoint_ok (mctp_mmbi_tx api) mmbi_ok mtu b F w'"
    "bus_eid (bus_at w' 0) = l" and rec': "case t of None \<Rightarrow> rc' = - EBUSY \<and> req_tags w' = req_tags w
       | Some tag \<Rightarrow> tag_recorded w l r tag w' \<and> rc' = (if bus_state (bus_at w 0) = mctp_bus_state_constructed then - ENXIO
                   else if tx_msg (bus_at w 0) \<noteq> None then - EBUSY else 0)"
    by (rule mmbi.tx_request_ok [OF req_ok n eid(2) [unfolded eid(1)], of r, folded eid(1)]) (rule that)
  then have ok: "endpoint_ok (mctp_mmbi_tx api) mmbi_ok mtu b F w1" "bus_eid (bus_at w1 0) = l" and rec: "tag_recorded w l r tag w1"
    using req by auto
  have tag: "tag AND 7 = tag" using rec by (auto simp: tag_recorded_def)
  have dest: "mctp_rx_dest_is_local (bus_at w1 0) l" using ok(2) by (simp add: mctp_rx_dest_is_local_def)
  have "bus_eid (bus_at v 0) \<noteq> MCTP_EID_BROADCAST" "length m \<le> unat (start_limit w1 (bus_eid (bus_at v 0), l, tag))"
    using peer(2,3) rcv(2) by simp_all
  from message_carried [OF peer(1) idle tag ans(2,3) ok(1) dest this rcv(1) ans(1) ps rcv(3), unfolded peer(2) settled_def]
  obtain w2 where "rc = 0" "rx_all b ps w1 = Inr w2" "endpoint_ok (mctp_mmbi_tx api) mmbi_ok mtu b F w2"
    "req_tags w2 = release_tag l r tag (req_tags w1)"
    "trace w2 = trace w1 @ rx_captures ps w1 @ (case message_rx w1 of None \<Rightarrow> []
          | Some f \<Rightarrow> [Ev_message_rx f (message_rx_data w1) r False tag m k])"
    by auto
  then show ?thesis using recorded_then_released [OF rec now eid(2) tags] by auto
qed

theorem request_response_witness:
  "\<exists>v1 w2. mctp_message_tx_request 8 ex_request_msg 1 ex_disabled = Inr ((0, Some 0), ex_asked) \<and>
     mctp_message_tx 9 False 0 [0x7e, 5] 2 ex_peer = Inr (0, v1) \<and>
     rx_all 0 [ex_pkt [1, 9, 8, 0xc0, 0x7e, 5]] ex_asked = Inr w2 \<and>
     trace w2 = [Ev_message_rx 7 3 8 False 0 [0x7e, 5] 2] \<and> active_tags 5 9 8 (req_tags w2) = {}"
proof -
  let ?p = "ex_pkt [1, 9, 8, 0xc0, 0x7e, 5]"
  have p: "rx_pkt ?p" "pktbuf_bytes ?p = [1, 9, 8, 0xc0, 0x7e, 5]" by (simp_all add: ex_pkt_rx ex_pkt_ok)
  have "plenty ex_peer" by (simp add: plenty_def ex_peer_mem(8,9))
  then obtain mb v0 where a: "w_msg_alloc 2 True ex_peer = Inr (Some mb, v0)" using plenty_alloc by blast
  have idle: "tx_msg (bus_at ex_peer 0) = None" "bus_state (bus_at ex_peer 0) = mctp_bus_state_tx_enabled" "bus_eid (bus_at ex_peer 0) = 8"
    by (simp_all add: ex_peer_mem(2) zero_bus_def)
  have fr: "msg_frames (bindings ex_peer 0) (tx_params (bus_at ex_peer 0) 9 False 0) True (tx_seq (bus_at ex_peer 0))
     (take (unat (2 :: u64)) [0x7e, 5]) = [[1, 9, 8, 0xc0, 0x7e, 5]]"
    by (subst msg_frames_last) (simp_all add: ex_peer_mem(2,12) ex_binding_def tx_params_def zero_bus_def wire_defs)
  obtain v1 where run: "mctp_message_tx 9 False 0 [0x7e, 5] 2 ex_peer = Inr (0, v1)"
    and s: "sent_frames 0 (trace v1) = [[1, 9, 8, 0xc0, 0x7e, 5]]"
    by (rule mmbi_mem.message_tx_sends [OF ex_peer_mem(1) _ idle(1,2) _ a, of "[0x7e, 5]" 0 9 False]) (use fr in \<open>auto simp: ex_peer_mem(4)\<close>)
  have req: "endpoint_ok (mctp_mmbi_tx ex_api) mmbi_ok 65540 0 (add_mset (mb_blk ex_request_msg) {#}) ex_disabled"
    using endpoint_ok_weaken [OF ex_disabled_ok(1), of mmbi_ok] by (simp add: mmbi_mem_ok_def ex_request_msg_def)
  have tab: "bus_eid (bus_at ex_disabled 0) = 9" "req_tags ex_disabled = replicate 16 zero_req_tag" "mctp_now ex_disabled = Inr 5"
    using ex_endpoint_mem(14) ex_busses
    by (simp_all add: ex_disabled_ok(2) ex_endpoint_mem zero_bus_def mctp_now_def split: option.splits)
  have mem: "rx_memory h ?p ex_asked" for h
    using plenty_alloc [OF ex_asked_ok(4), of "mctp_pktbuf_size ?p - SIZEOF_MCTP_HDR"] plenty_alloc [OF ex_asked_ok(4), of MCTP_MAX_MESSAGE_SIZE]
    by (auto simp: rx_memory_def slot_available_def ex_asked_ok numeral_eq_Suc)
  have lim: "start_limit ex_asked k = MCTP_MAX_MESSAGE_SIZE" for k
    by (simp add: start_limit_def ex_asked_ok asm_table_def slot_map_replicate)
  have un: "slots_unique tag_used tag_key (req_tags ex_disabled)" "\<forall>x\<in>set (req_tags ex_disabled). tag_used x \<longrightarrow> tag_active 5 x"
    "active_tags 5 9 8 (req_tags ex_disabled) = {}"
    by (simp_all add: tab(2) slots_unique_replicate tag_used_def zero_req_tag_def active_tags_def tag_active_def)
  have "\<exists>w2. rx_all 0 [?p] ex_asked = Inr w2 \<and> (\<forall>a c. active_tags 5 a c (req_tags w2) = active_tags 5 a c (req_tags ex_disabled)) \<and>
     trace w2 = trace ex_asked @ rx_captures [?p] ex_asked @ (case message_rx ex_asked of None \<Rightarrow> []
          | Some f \<Rightarrow> [Ev_message_rx f (message_rx_data ex_asked) 8 False 0 [0x7e, 5] 2])"
    using request_response [OF req _ tab(1) [symmetric] _ tab(3) _ un(1,2) ex_asked_ok(1) ex_peer_mem(1) idle(3) _ idle(1,2) run _ a, of "[?p]"] p s mem lim
    by (simp add: ex_peer_mem(4) ex_request_msg_def user_message_def MCTP_MAX_MESSAGE_SIZE_def del: rx_all.simps) blast
  then show ?thesis using run ex_asked_ok(1) un(3)
    by (auto simp: ex_asked_ok(5-8) rx_captures_def capture_events_def simp del: rx_all.simps)
qed



text \<open>
  C20: \<open>mctp_message_tx_request\<close> either fails with \<open>-EBUSY\<close> before it records anything, and then
  there was no free entry or no free tag; or it records a tag that no active request to this endpoint uses
  and returns the code of the transmission. The record stays even when the transmission is refused.
\<close>

theorem message_tx_request_tag:
  assumes ok: "endpoint_ok (mctp_mmbi_tx api) mmbi_ok mtu b (add_mset (mb_blk mb) F) w" and len: "unat n \<le> length (mb_data mb)"
    and eid: "bus_eid (bus_at w 0) \<noteq> 0" and now: "mctp_now w = Inr now"
  shows "\<exists>rc t w'. mctp_message_tx_request eid mb n w = Inr ((rc, t), w') \<and> endpoint_ok (mctp_mmbi_tx api) mmbi_ok mtu b F w' \<and>
     (case t of
        None \<Rightarrow> rc = - EBUSY \<and> req_tags w' = req_tags w \<and>
          ((\<forall>x\<in>set (req_tags w). tag_active now x) \<or> active_tags now (bus_eid (bus_at w 0)) eid (req_tags w) = {t. t < 8})
      | Some tag \<Rightarrow> tag_recorded w (bus_eid (bus_at w 0)) eid tag w' \<and>
          rc = (if bus_state (bus_at w 0) = mctp_bus_state_constructed then - ENXIO
                else if tx_msg (bus_at w 0) \<noteq> None then - EBUSY else 0))"
proof -
  let ?l = "bus_eid (bus_at w 0)"
  have tags: "\<forall>x\<in>set (req_tags w). rt_tag x < 8" and bus: "find_bus_for_eid w eid = Some 0"
    using ok by (simp_all add: endpoint_defs find_bus_for_eid_def)
  obtain rc t w' where r: "mctp_message_tx_request eid mb n w = Inr ((rc, t), w')" "endpoint_ok (mctp_mmbi_tx api) mmbi_ok mtu b F w'"
    and t: "case t of None \<Rightarrow> rc = - EBUSY \<and> req_tags w' = req_tags w
         | Some tag \<Rightarrow> tag_recorded w (bus_eid (bus_at w 0)) eid tag w' \<and>
             rc = (if bus_state (bus_at w 0) = mctp_bus_state_constructed then - ENXIO
                   else if tx_msg (bus_at w 0) \<noteq> None then - EBUSY else 0)"
    by (rule mmbi.tx_request_ok [OF ok len eid, of eid]) (rule that)
  have "mctp_alloc_tag ?l eid w = Inr ((- EBUSY, None), w)" if "t = None"
  proof (rule ccontr)
    assume "mctp_alloc_tag ?l eid w \<noteq> Inr ((- EBUSY, None), w)"
    then obtain tag w1 where a: "mctp_alloc_tag ?l eid w = Inr ((0, Some tag), w1)"
      using now eid by (auto simp: mctp_alloc_tag_def split: prod.splits option.splits)
    show False using r(1) bus a that by (auto simp: mctp_message_tx_request_def)
  qed
  note busy = this
  show ?thesis
  proof (cases t)
    case None
    then show ?thesis using r t busy mctp_alloc_tag_busy_iff [OF now eid tags, of eid]
      by (intro exI [of _ rc] exI [of _ t] exI [of _ w'] conjI) simp_all
  next
    case (Some tag)
    then show ?thesis using r t by (intro exI [of _ rc] exI [of _ t] exI [of _ w'] conjI) simp_all
  qed
qed

theorem message_tx_request_tag_witness:
  "\<exists>rc t w'. mctp_message_tx_request 8 \<lparr>mb_blk = 0, mb_size = 1, mb_data = [0x7e]\<rparr> 1 ex_endpoint = Inr ((rc, t), w') \<and>
     (\<exists>tag. t = Some tag) \<and> rc = 0"
proof -
  let ?m = "\<lparr>mb_blk = 0, mb_size = 1, mb_data = [0x7e :: u8]\<rparr>"
  have ok: "endpoint_ok (mctp_mmbi_tx ex_api) mmbi_ok 65540 0 (add_mset (mb_blk ?m) {#}) ex_endpoint" using ex_endpoint_ok by simp
  have sh: "platform_now ex_endpoint \<noteq> None" using ex_endpoint_ok by (simp add: endpoint_defs)
  then obtain now where n: "mctp_now ex_endpoint = Inr now" by (auto simp: mctp_now_def)
  have idle: "\<not> (\<forall>x\<in>set (req_tags ex_endpoint). tag_active now x)" "active_tags now 9 8 (req_tags ex_endpoint) \<noteq> {t. t < 8}"
    by (auto simp: ex_endpoint_mem(11) tag_active_def zero_req_tag_def active_tags_def intro!: exI [of _ 0])
  show ?thesis
    using message_tx_request_tag [OF ok _ _ n, of 1 8] idle
    by (auto simp: ex_endpoint_mem(2) zero_bus_def split: option.splits)
qed

text \<open>
  C40: when the binding refuses a full packet with an error other than \<open>-EBUSY\<close> and the message is longer than
  that packet, \<open>mctp_message_tx_alloced\<close> still returns 0 and the rest of the message stays pending behind the dropped
  packet: the bus is not ready for any message, and enabling the binding, which is enabled, sends nothing.
\<close>

theorem tx_error_strands_message:
  assumes ok: "endpoint_ok (mctp_mmbi_tx api) mmbi_ok mtu b (add_mset (mb_blk mb) F) w" and "unat n \<le> length (mb_data mb)"
    and "tx_msg (bus_at w 0) = None" and "bus_state (bus_at w 0) = mctp_bus_state_tx_enabled"
    and "tag AND 7 = tag" and "mtu - 4 < unat n"
    and refuse: "\<And>pkt rc e. rx_pkt pkt \<Longrightarrow> length (pktbuf_bytes pkt) = mtu \<Longrightarrow>
      mctp_mmbi_tx api (b_priv (bindings w b)) pkt = Inr (rc, e) \<Longrightarrow> rc \<noteq> 0 \<and> rc \<noteq> - EBUSY"
  shows "\<exists>w'. mctp_message_tx_alloced eid to tag mb n w = Inr (0, w') \<and> endpoint_ok (mctp_mmbi_tx api) mmbi_ok mtu b F w' \<and>
     tx_msg (bus_at w' 0) = Some mb \<and> unat (tx_msgpos (bus_at w' 0)) = mtu - 4 \<and> tx_msglen (bus_at w' 0) = n \<and>
     (\<forall>eid. \<not> mctp_is_tx_ready w' eid) \<and> mctp_binding_set_tx_enabled b True w' = Inr w'"
proof -
  obtain w' where w': "mctp_message_tx_alloced eid to tag mb n w = Inr (0, w')" "endpoint_ok (mctp_mmbi_tx api) mmbi_ok mtu b F w'"
    "bus_state (bus_at w' 0) = mctp_bus_state_tx_enabled"
    "tx_msg (bus_at w' 0) = Some mb" "unat (tx_msgpos (bus_at w' 0)) = mtu - 4" "tx_msglen (bus_at w' 0) = n"
    by (rule mmbi.tx_alloced_fails [OF assms(1-6), of eid to]) (erule (2) refuse, erule (5) that)
  have "find_bus_for_eid w' e = Some 0" "b_bus (bindings w' b) = Some 0" for e
    using w'(2) by (simp_all add: endpoint_defs find_bus_for_eid_def)
  then show ?thesis using w' by (simp add: mctp_is_tx_ready_def mctp_binding_set_tx_enabled_def)
qed

theorem tx_error_strands_message_witness:
  "\<exists>w'. mctp_message_tx_alloced 8 True 3 \<lparr>mb_blk = 0, mb_size = 70000, mb_data = replicate 70000 1\<rparr> 70000
       (endpoint_with ex_small_binding 9) = Inr (0, w') \<and> \<not> mctp_is_tx_ready w' 8"
proof -
  let ?m = "\<lparr>mb_blk = 0, mb_size = 70000, mb_data = replicate 70000 (1 :: u8)\<rparr>"
  let ?w = "endpoint_with ex_small_binding 9"
  have new: "binding_new (mctp_mmbi_tx ex_api) mmbi_ok 65540 ex_small_binding"
    by (simp add: ex_small_binding_def binding_new_def binding_ok_def ex_binding_def mmbi_ok_def fresh_pktbuf_def pktbuf_storage_size_def)
  note e = endpoint_with_ok [OF new, of 9]
  have priv: "\<not> has_device (b_priv (bindings ?w 0))" "tx_storage (b_priv (bindings ?w 0)) = Some (replicate 64 0)"
    "memory_size (b_priv (bindings ?w 0)) = 64"
    unfolding e(12) by (simp_all add: ex_small_binding_def ex_mmbi_def has_device_def)
  have "rc = - EMSGSIZE" if "rx_pkt pkt" "length (pktbuf_bytes pkt) = 65540"
    "mctp_mmbi_tx ex_api (b_priv (bindings ?w 0)) pkt = Inr (rc, m)" for pkt rc m
    using mctp_mmbi_tx_memory [OF priv(1,2) _ that(1), of ex_api] priv(3) that by simp
  then show ?thesis
    using tx_error_strands_message [of ex_api 65540 0 ?m "{#}" ?w 70000 3 8 True] e(1)
    by (force simp: e(2) zero_bus_def)
qed

text \<open>
  C17: a message accepted while the binding was disabled is not forgotten: when the binding is enabled
  again and takes every packet, all its remaining frames are sent and the bus becomes idle.
\<close>

theorem waiting_message_sent:
  assumes "endpoint_ok (mctp_mmbi_tx api) (mmbi_mem_ok mtu) mtu b F w" and "tx_msg (bus_at w 0) = Some mb"
    and "bus_state (bus_at w 0) = mctp_bus_state_tx_disabled"
  shows "\<exists>w' evs. mctp_binding_set_tx_enabled b True w = Inr w' \<and> endpoint_ok (mctp_mmbi_tx api) (mmbi_mem_ok mtu) mtu b F w' \<and>
     tx_msg (bus_at w' 0) = None \<and> trace w' = trace w @ evs \<and>
     sent_frames b evs = msg_frames (bindings w b) (bus_at w 0) (tx_msgpos (bus_at w 0) = 0) (tx_seq (bus_at w 0))
       (take (unat (tx_msglen (bus_at w 0)) - unat (tx_msgpos (bus_at w 0))) (drop (unat (tx_msgpos (bus_at w 0))) (mb_data mb)))"
  by (rule mmbi_mem.enable_flushes [OF assms]) blast

theorem waiting_message_sent_witness:
  "\<exists>w'. mctp_binding_set_tx_enabled 0 True ex_pending = Inr w' \<and> tx_msg (bus_at w' 0) = None \<and>
     sent_frames 0 (trace w') = [[1, 8, 9, 0xcb, 0x7e, 5]]"
proof -
  have "msg_frames (bindings ex_pending 0) (bus_at ex_pending 0) True (tx_seq (bus_at ex_pending 0)) [0x7e, 5] = [[1, 8, 9, 0xcb, 0x7e, 5]]"
    by (subst msg_frames_last)
      (simp_all add: ex_pending_ok(2,3) ex_endpoint_mem(12) ex_binding_def zero_bus_def wire_defs)
  then show ?thesis
    using waiting_message_sent [OF ex_pending_ok(1)] by (auto simp: ex_pending_ok(2,4) zero_bus_def)
qed

text \<open>
  C16: the transmit loop ends. With any fuel above the length of the pending message the loop
  \<open>send_tx_queue\<close> returns, and its result is the one of \<open>mctp_send_tx_queue\<close>: the number of rounds is
  bounded by the message, whatever the binding answers.
\<close>

theorem transmit_loop_ends:
  assumes "endpoint_ok (mctp_mmbi_tx api) mmbi_ok mtu b F w" and "unat (tx_msglen (bus_at w 0)) < fuel"
  shows "\<exists>w'. send_tx_queue fuel 0 w = Inr w' \<and> mctp_send_tx_queue 0 w = Inr w' \<and>
     endpoint_ok (mctp_mmbi_tx api) mmbi_ok mtu b F w'"
proof -
  obtain w' where q: "mctp_send_tx_queue 0 w = Inr w'" "endpoint_ok (mctp_mmbi_tx api) mmbi_ok mtu b F w'"
    by (rule mmbi.queue_ok [OF assms(1)])
  then show ?thesis using more_fuel [of "Suc (unat (tx_msglen (bus_at w 0)))" 0 w w' fuel] assms(2)
    by (auto simp: mctp_send_tx_queue_def)
qed

theorem transmit_loop_ends_witness:
  "\<exists>w'. send_tx_queue 1000 0 ex_pending = Inr w' \<and> mctp_send_tx_queue 0 ex_pending = Inr w'"
proof -
  have "endpoint_ok (mctp_mmbi_tx ex_api) mmbi_ok 65540 0 {#0#} ex_pending"
    by (rule endpoint_ok_weaken [OF ex_pending_ok(1)]) (simp add: mmbi_mem_ok_def)
  from transmit_loop_ends [OF this, of 1000] show ?thesis by (auto simp: ex_pending_ok(2) zero_bus_def)
qed



section \<open>Control messages\<close>

text \<open>
  C10: a control request is answered. For a request in one packet to an idle endpoint with memory, the
  endpoint sends the response the specification \<open>control_reply\<close> gives (set and get endpoint ID, version and
  type queries, the error responses) back to the requester with its tag and the tag owner bit
  cleared, and takes the new endpoint ID when the request sets a valid one. The message types registered with
  \<open>mctp_control_add_type\<close> are reported by the type query (command 5). The comments at \<^verbatim>\<open>libmctp.h:252\<close> and
  \<^verbatim>\<open>core-internal.h:94\<close> say that the version query (command 4) reports them; its reply does not depend on
  them, and for a registered type other than control it is the error 0x80.
\<close>

theorem control_request_answered:
  assumes "endpoint_ok (mctp_mmbi_tx api) (mmbi_mem_ok mtu) mtu b F w" and "can_send w" and "rx_pkt pkt"
    and "read_hdr pkt = Inr hdr" and "fst_flags (flags_seq_tag hdr) = 0xc0" and "fst_to (flags_seq_tag hdr)"
    and "hdr_src hdr \<noteq> MCTP_EID_BROADCAST" and "mctp_rx_dest_is_local (bus_at w 0) (hdr_dest hdr)"
    and "m = drop 4 (pktbuf_bytes pkt)" and "control_request m" and "m ! 2 < 0xf0"
    and "control_reply (type_list (control w)) (bus_eid (bus_at w 0)) m = (resp, eid)"
  shows "\<exists>w' evs. mctp_bus_rx b pkt w = Inr w' \<and> endpoint_ok (mctp_mmbi_tx api) (mmbi_mem_ok mtu) mtu b F w' \<and>
     trace w' = trace w @ capture_events pkt False w @ evs \<and> bus_eid (bus_at w' 0) = eid \<and>
     sent_frames b evs = msg_frames (bindings w b)
       (tx_params ((bus_at w 0)\<lparr>bus_eid := eid\<rparr>) (hdr_src hdr) False (fst_tag (flags_seq_tag hdr))) True
       (tx_seq (bus_at w 0)) resp"
  using mmbi_mem.bus_rx_answers [OF assms(1-12)] by (auto simp: answered_def bus_at_def)

theorem control_request_answered_witness:
  "\<exists>w'. mctp_bus_rx 0 (ex_pkt [1, 9, 8, 0xca, 0, 0x80, 1, 0, 20]) ex_endpoint = Inr w' \<and>
     bus_eid (bus_at w' 0) = 20 \<and> sent_frames 0 (trace w') = [[1, 8, 20, 0xc2, 0, 0, 1, 0, 0, 20, 0]]"
proof -
  let ?bs = "[1, 9, 8, 0xca, 0, 0x80, 1, 0, 20]"
  let ?p = "ex_pkt ?bs" and ?h = "\<lparr>hdr_ver = 1, hdr_dest = 9, hdr_src = 8, flags_seq_tag = 0xca\<rparr>"
  have p: "rx_pkt ?p" "pktbuf_bytes ?p = ?bs" by (simp_all add: ex_pkt_rx ex_pkt_ok)
  have h: "read_hdr ?p = Inr ?h" using rx_pkt_hdr [OF p(1)] p(2) by simp
  have c: "can_send ex_endpoint" by (simp add: can_send_def ex_plenty ex_endpoint_mem zero_bus_def)
  have d: "mctp_rx_dest_is_local (bus_at ex_endpoint 0) (hdr_dest ?h)" by (simp add: ex_endpoint_mem mctp_rx_dest_is_local_def)
  have r: "control_reply (type_list (control ex_endpoint)) (bus_eid (bus_at ex_endpoint 0)) (drop 4 (pktbuf_bytes ?p)) =
     ([0, 0, 1, 0, 0, 20, 0], 20)"
    by (simp add: p(2) control_reply_def ctrl_hdr_def valid_eid_def)
  have "msg_frames (bindings ex_endpoint 0) (tx_params ((bus_at ex_endpoint 0)\<lparr>bus_eid := 20\<rparr>) 8 False 2) True
     (tx_seq (bus_at ex_endpoint 0)) [0, 0, 1, 0, 0, 20, 0] = [[1, 8, 20, 0xc2, 0, 0, 1, 0, 0, 20, 0]]"
    by (subst msg_frames_last)
      (simp_all add: ex_endpoint_mem ex_binding_def tx_params_def zero_bus_def wire_defs)
  then show ?thesis
    using control_request_answered [OF ex_endpoint_mem(1) c p(1) h _ _ _ d refl _ _ r]
    by (auto simp: p(2) fst_flags_def fst_to_def fst_tag_def control_request_def ex_endpoint_mem(4,7) capture_events_def)
qed

section \<open>Life cycle\<close>

text \<open>
  C13: \<open>mctp_setup\<close> and \<open>mctp_register_bus\<close> take zeroed storage and a fresh binding to a running endpoint: the
  invariant holds, the bus is enabled and idle, nothing is being assembled, the only message type
  is the control type and the size limit is the default.
\<close>

theorem setup_and_register:
  assumes "binding_new (mctp_mmbi_tx api) mmbi_ok mtu (bindings w b)" and "good_ops (ops w)" and "heap_owns F (heap w)"
  shows "\<exists>w1 w2. mctp_setup SIZEOF_MCTP w = Inr (0, w1) \<and> mctp_register_bus b eid w1 = Inr (0, w2) \<and>
     endpoint_ok (mctp_mmbi_tx api) mmbi_ok mtu b F w2 \<and> bus_eid (bus_at w2 0) = eid \<and>
     bus_state (bus_at w2 0) = mctp_bus_state_tx_enabled \<and> tx_msg (bus_at w2 0) = None \<and>
     asm_table (msg_ctxs w2) = Map.empty \<and> type_list (control w2) = [MCTP_CTRL_HDR_MSG_TYPE] \<and>
     max_message_size w2 = MCTP_MAX_MESSAGE_SIZE"
  by (rule register_ok [OF assms, of eid])
    (auto simp: mctp_setup_eq asm_table_def slot_map_replicate fun_eq_iff zero_bus_def)

theorem setup_and_register_witness:
  "\<exists>w1 w2. mctp_setup SIZEOF_MCTP ex_start = Inr (0, w1) \<and> mctp_register_bus 0 9 w1 = Inr (0, w2) \<and>
     endpoint_ok (mctp_mmbi_tx ex_api) mmbi_ok 65540 0 {#0#} w2 \<and> bus_eid (bus_at w2 0) = 9"
proof -
  have "binding_new (mctp_mmbi_tx ex_api) mmbi_ok 65540 (bindings ex_start 0)"
    using ex_binding_new by (simp add: ex_start_binding binding_new_def mmbi_mem_ok_def)
  from setup_and_register [OF this ex_start_heap, of 9] show ?thesis by blast
qed

text \<open>
  C8: no sequence of calls breaks an endpoint. In every state reachable from a running endpoint through any
  calls of the library (receiving packets, sending, tags, types, setters, enabling and disabling) the
  invariant holds and no further call can fault.
\<close>

theorem api_reachable_safe:
  assumes "endpoint_ok (mctp_mmbi_tx api) mmbi_ok mtu b F w" and "reach b (F, w) (F', w')"
  shows "endpoint_ok (mctp_mmbi_tx api) mmbi_ok mtu b F' w' \<and>
     (\<forall>c. api_ok c (F', w') \<longrightarrow> (\<exists>s. api_call b c (F', w') = Inr s))"
  using mmbi.reach_ok [OF assms(2,1)] mmbi.reach_no_fault [OF assms(2,1)] by auto

theorem api_reachable_safe_witness:
  "\<exists>F' w'. reach 0 ({#0#}, ex_endpoint) (F', w') \<and> endpoint_ok (mctp_mmbi_tx ex_api) mmbi_ok 65540 0 F' w' \<and>
     bus_eid (bus_at w' 0) = 30"
proof -
  obtain rc w' where s: "mctp_bus_set_eid 0 30 ex_endpoint = Inr (rc, w')"
    "bus_at w' 0 = (bus_at ex_endpoint 0)\<lparr>bus_eid := if 8 \<le> (30 :: u8) \<and> (30 :: u8) \<noteq> 0xff then 30 else bus_eid (bus_at ex_endpoint 0)\<rparr>"
    by (rule mctp_bus_set_eid_ok [OF ex_endpoint_ok, of 30]) (rule that)
  have "reach 0 ({#0#}, ex_endpoint) ({#0#}, w')"
    by (rule reach.step [OF reach.start, of "Bus_set_eid 30"]) (simp_all add: s(1))
  then show ?thesis using api_reachable_safe [OF ex_endpoint_ok] s(2) by fastforce
qed

text \<open>
  C14: \<open>mctp_cleanup\<close> of a running endpoint frees every block it owns (pending message, messages being
  assembled), each once, and nothing else.
\<close>

theorem cleanup_frees_all:
  assumes "endpoint_ok (mctp_mmbi_tx api) mmbi_ok mtu b F w"
  shows "\<exists>w'. mctp_cleanup w = Inr w' \<and> heap_owns F (heap w')"
  using mctp_cleanup_ok [OF assms] by blast

theorem cleanup_frees_all_witness:
  "\<exists>w'. mctp_cleanup ex_endpoint = Inr w' \<and> heap_owns {#0#} (heap w')"
  by (rule cleanup_frees_all [OF ex_endpoint_ok])

text \<open>
  After \<open>mctp_unregister_bus\<close> the same \<open>mctp_cleanup\<close> no longer finds the bus: the buffer of a message
  that was still pending stays allocated.
\<close>

lemma unregister_leaks_pending:
  assumes "endpoint_ok (mctp_mmbi_tx api) mmbi_ok mtu b F w" and "tx_msg (bus_at w 0) = Some mb"
  shows "\<exists>w'. mctp_cleanup (mctp_unregister_bus b w) = Inr w' \<and> heap_owns (add_mset (mb_blk mb) F) (heap w')"
  using unregister_cleanup [OF assms(1)] assms(2) by simp

section \<open>Bridges\<close>

text \<open>
  C34: a bridge forwards in both directions. A message in one packet that arrives on one of the two busses (\<open>i\<close>) is sent,
  under its own source, destination, tag owner and tag, on the other one (\<open>j\<close>, with \<open>i + j = 1\<close>), and on no other; nothing is
  leaked, and afterwards the bridge is in order and bus \<open>j\<close> idle again. The conditions: bus \<open>j\<close> is enabled and
  has no message under way, there is memory for the two copies, the source of the packet is not the broadcast address, and
  the bindings are MMBI bindings in memory mode with room for a packet, which take every packet.
\<close>

theorem bridge_forwards_packet:
  assumes "bridge_ok (mctp_mmbi_tx api) (mmbi_mem_ok mtu) mtu bs w" and "i + j = 1" and "bus_idle j w" and "plenty w"
    and "rx_pkt pkt" and "read_hdr pkt = Inr hdr" and "hdr_src hdr \<noteq> MCTP_EID_BROADCAST"
    and "fst_flags (flags_seq_tag hdr) = 0xc0"
  shows "\<exists>w' evs. mctp_bus_rx (bs ! i) pkt w = Inr w' \<and> trace w' = trace w @ capture_events pkt False w @ evs \<and>
     sent_frames (bs ! j) evs = msg_frames (bindings w (bs ! j)) ((bus_at w j)\<lparr>tx_src := hdr_src hdr, tx_dest := hdr_dest hdr,
        tx_to := fst_to (flags_seq_tag hdr), tx_tag := fst_tag (flags_seq_tag hdr)\<rparr>) True (tx_seq (bus_at w j))
        (drop 4 (pktbuf_bytes pkt)) \<and>
     tx_events (bs ! j) evs \<and> h_live (heap w') = h_live (heap w) \<and>
     bridge_ok (mctp_mmbi_tx api) (mmbi_mem_ok mtu) mtu bs w' \<and> bus_idle j w'"
  by (rule mmbi_mem.bridge_forwards [OF assms]) blast

theorem bridge_forwards_packet_witness:
  "(\<exists>w'. mctp_bus_rx 0 (ex_pkt [1, 12, 8, 0xea, 0x7e, 5]) ex_bridge = Inr w' \<and>
      sent_frames 1 (trace w') = [[1, 12, 8, 0xca, 0x7e, 5]]) \<and>
   (\<exists>w'. mctp_bus_rx 1 (ex_pkt [1, 12, 8, 0xea, 0x7e, 5]) ex_bridge = Inr w' \<and>
      sent_frames 0 (trace w') = [[1, 12, 8, 0xca, 0x7e, 5]])"
proof -
  let ?p = "ex_pkt [1, 12, 8, 0xea, 0x7e, 5]" and ?h = "\<lparr>hdr_ver = 1, hdr_dest = 12, hdr_src = 8, flags_seq_tag = 0xea\<rparr>"
  have p: "rx_pkt ?p" "pktbuf_bytes ?p = [1, 12, 8, 0xea, 0x7e, 5]" by (simp_all add: ex_pkt_rx ex_pkt_ok)
  have h: "read_hdr ?p = Inr ?h" using rx_pkt_hdr [OF p(1)] p(2) by simp
  have "msg_frames (ex_binding\<lparr>b_bus := c, b_mctp := True\<rparr>) (zero_bus\<lparr>bus_binding := d, bus_state := st,
     tx_src := 8, tx_dest := 12, tx_to := True, tx_tag := 2\<rparr>) True 0 [0x7e, 5] = [[1, 12, 8, 0xca, 0x7e, 5]]" for c d st
    by (subst msg_frames_last) (simp_all add: ex_binding_def zero_bus_def wire_defs del: One_nat_def)
  moreover have "tx_seq zero_bus = 0" by (simp add: zero_bus_def)
  ultimately show ?thesis
    using bridge_forwards_packet [OF ex_bridge_ok(1) _ ex_bridge_ok(17,2) p(1) h, of 0]
      bridge_forwards_packet [OF ex_bridge_ok(1) _ ex_bridge_ok(16,2) p(1) h, of 1]
    by (auto simp: p(2) fst_flags_def fst_to_def fst_tag_def ex_bridge_ok(9,10,12-15) ex_bridge_ok(12,13) [unfolded One_nat_def] capture_events_def)
qed

text \<open>
  C35: a bridge cannot forward a message in two packets: \<open>mctp_bridge_busses\<close> leaves \<open>bus->mctp\<close> NULL, the first
  fragment is accepted, and the call for the last one ends in a fault.
\<close>

theorem bridge_reassembly_faults:
  assumes "b_bus (bindings w b) = Some bi" and "b_mctp (bindings w b)" and "bi < length (busses w)" and "\<not> bus_mctp (bus_at w bi)"
    and "route_policy w = ROUTE_BRIDGE" and "msg_ctxs w = replicate 16 zero_ctx" and "plenty w"
    and "rx_pkt p1" and "read_hdr p1 = Inr h1" and "fst_flags (flags_seq_tag h1) = 0x80" and "hdr_src h1 \<noteq> MCTP_EID_BROADCAST"
    and "length (pktbuf_bytes p1) - 4 \<le> unat (max_message_size w)"
    and "rx_pkt p2" and "read_hdr p2 = Inr h2" and "fst_flags (flags_seq_tag h2) = 0x40"
    and "hdr_src h2 = hdr_src h1" and "hdr_dest h2 = hdr_dest h1" and "fst_tag (flags_seq_tag h2) = fst_tag (flags_seq_tag h1)"
  shows "\<exists>w'. mctp_bus_rx b p1 w = Inr w' \<and> (\<exists>e. mctp_bus_rx b p2 w' = Inl e)"
  by (rule bridge_two_fragments [OF assms])

theorem bridge_reassembly_faults_witness:
  "\<exists>w'. mctp_bus_rx 0 (ex_pkt [1, 12, 8, 0x8a, 0x7e]) ex_bridge = Inr w' \<and>
     (\<exists>e. mctp_bus_rx 0 (ex_pkt [1, 12, 8, 0x5a, 5]) w' = Inl e)"
proof -
  let ?p = "ex_pkt [1, 12, 8, 0x8a, 0x7e]" and ?h = "\<lparr>hdr_ver = 1, hdr_dest = 12, hdr_src = 8, flags_seq_tag = 0x8a\<rparr>"
  let ?q = "ex_pkt [1, 12, 8, 0x5a, 5]" and ?k = "\<lparr>hdr_ver = 1, hdr_dest = 12, hdr_src = 8, flags_seq_tag = 0x5a\<rparr>"
  have p: "rx_pkt ?p" "pktbuf_bytes ?p = [1, 12, 8, 0x8a, 0x7e]" "rx_pkt ?q" "pktbuf_bytes ?q = [1, 12, 8, 0x5a, 5]"
    by (simp_all add: ex_pkt_rx ex_pkt_ok)
  have h: "read_hdr ?p = Inr ?h" "read_hdr ?q = Inr ?k" using rx_pkt_hdr [OF p(1)] rx_pkt_hdr [OF p(3)] p(2,4) by simp_all
  show ?thesis
    by (rule bridge_reassembly_faults [OF ex_bridge_ok(3-8,2) p(1) h(1) _ _ _ p(3) h(2)])
      (simp_all add: p fst_flags_def fst_tag_def ex_bridge_ok(11) MCTP_MAX_MESSAGE_SIZE_def)
qed

section \<open>The MMBI binding\<close>

text \<open>
  C28: in device mode \<open>mctp_mmbi_tx\<close> writes the whole packet, up to three times: it returns 0 after the first
  attempt that took all of it and \<open>-EIO\<close> when none of the three did.
\<close>

theorem mmbi_tx_three_attempts:
  assumes "has_device m" and "rx_pkt pkt" and "length (pktbuf_bytes pkt) < 2 ^ 32"
  shows "(\<exists>k<3. mctp_mmbi_tx api m pkt = Inr (0, m\<lparr>mm_dev := snd (attempt api (pktbuf_bytes pkt) k (mm_dev m))\<rparr>) \<and>
       took_all (pktbuf_bytes pkt) (attempt api (pktbuf_bytes pkt) k (mm_dev m)) \<and>
       (\<forall>j<k. \<not> took_all (pktbuf_bytes pkt) (attempt api (pktbuf_bytes pkt) j (mm_dev m)))) \<or>
     (mctp_mmbi_tx api m pkt = Inr (- EIO, m\<lparr>mm_dev := snd (attempt api (pktbuf_bytes pkt) 2 (mm_dev m))\<rparr>) \<and>
       (\<forall>j<3. \<not> took_all (pktbuf_bytes pkt) (attempt api (pktbuf_bytes pkt) j (mm_dev m))))"
  by (rule mctp_mmbi_tx_attempts [OF assms])

theorem mmbi_tx_three_attempts_witness:
  "mctp_mmbi_tx ex_api (ex_mmbi\<lparr>device_handle := 5\<rparr>) (ex_pkt [1, 9, 8, 0xc8, 1]) = Inr (0, ex_mmbi\<lparr>device_handle := 5\<rparr>)"
proof -
  let ?p = "ex_pkt [1, 9, 8, 0xc8, 1]" and ?m = "ex_mmbi\<lparr>device_handle := 5\<rparr>"
  have d: "has_device ?m" by (simp add: has_device_def ex_mmbi_def)
  have p: "rx_pkt ?p" "pktbuf_bytes ?p = [1, 9, 8, 0xc8, 1]" by (simp_all add: ex_pkt_rx ex_pkt_ok)
  have "took_all [1, 9, 8, 0xc8, 1] (attempt ex_api [1, 9, 8, 0xc8, 1] 0 u)" for u by (simp add: took_all_def ex_api_def)
  then have no: "\<not> (\<forall>j<3. \<not> took_all [1, 9, 8, 0xc8, 1] (attempt ex_api [1, 9, 8, 0xc8, 1] j u))" for u by (metis zero_less_numeral)
  show ?thesis using mmbi_tx_three_attempts [OF d p(1), of ex_api] no by (auto simp: p(2) simp del: attempt.simps)
qed

lemma ex_drv_parts:
  "endpoint_ok (mctp_mmbi_tx (ex_drv_api i)) mmbi_ok 65540 0 {#0#} (ex_drv i eid)" "plenty (ex_drv i eid)"
  "ops (ex_drv i eid) = default_alloc_ops" "b_pkt_header (bindings (ex_drv i eid) 0) = 0"
  "has_device (b_priv (bindings (ex_drv i eid) 0))" "drv_ok (dev_of 0 (ex_drv i eid))"
  using ex_drv_ok(1) [of i eid] by (simp_all add: on_driver_def mmbi_sized_def plenty_def)

text \<open>
  C29: \<open>mctp_mmbi_poll\<close> is safe in every state of the endpoint and for every answer of the device; it returns
  0, \<open>-EPIPE\<close> or \<open>-ENOMEM\<close> and keeps the invariant, with at most one more block allocated.
\<close>

theorem mmbi_poll_safe:
  assumes "endpoint_ok (mctp_mmbi_tx api) mmbi_ok mtu b F w" and "ops w = default_alloc_ops"
    and "b_pkt_header (bindings w b) = 0" and "reads_bounded api"
  shows "\<exists>rc w' F'. mctp_mmbi_poll api b w = Inr (rc, w') \<and> rc \<in> {0, - EPIPE, - ENOMEM} \<and>
     endpoint_ok (mctp_mmbi_tx api) mmbi_ok mtu b F' w' \<and> (F' = F \<or> (\<exists>blk. F' = add_mset blk F))"
  using assms
proof (cases rule: mctp_mmbi_poll_cases)
  case idle
  then show ?thesis using assms(1) by blast
next
  case (failed rc okf bs err d)
  then show ?thesis using endpoint_ok_dev [OF assms(1), of d] by auto
next
  case (nomem h bs err d)
  then show ?thesis by auto
next
  case (packet pkt blk h bs err d w2)
  then show ?thesis by blast
qed

theorem mmbi_poll_safe_witness:
  "\<exists>rc w'. mctp_mmbi_poll (ex_drv_api 1) 0 (ex_drv 1 9) = Inr (rc, w') \<and> rc \<in> {0, - EPIPE, - ENOMEM}"
  using mmbi_poll_safe [OF ex_drv_parts(1,3,4) ex_drv_api_ok(2)] by blast

text \<open>
  C30: when the device has bytes and there is memory, \<open>mctp_mmbi_poll\<close> hands \<open>mctp_bus_rx\<close> a packet with exactly the bytes
  that were read. The buffer of the packet (\<open>blk\<close>) is still allocated afterwards: neither side frees it.
\<close>

theorem mmbi_poll_packet:
  assumes "endpoint_ok (mctp_mmbi_tx api) mmbi_ok mtu b F w" and "plenty w"
    and "b_pkt_header (bindings w b) = 0" and "reads_bounded api" and "has_device (b_priv (bindings w b))"
    and "PeekNamedPipe api (mm_dev (b_priv (bindings w b))) \<noteq> (True, 0)"
    and "ReadFile api (poll_limit (bindings w b)) (mm_dev (b_priv (bindings w b))) = ((True, bs, err), d)"
    and "bs \<noteq> []" and "of_nat (length bs) \<le> pktbuf_storage_size (bindings w b)"
  shows "\<exists>pkt blk h w'. mctp_mmbi_poll api b w = Inr (0, w') \<and> mctp_bus_rx b pkt (set_dev b d w\<lparr>heap := h\<rparr>) = Inr w' \<and>
     pktbuf_bytes pkt = bs \<and> pktbuf_wf pkt \<and> mctp_hdr_off pkt = pk_start pkt \<and> plenty (set_dev b d w\<lparr>heap := h\<rparr>) \<and>
     endpoint_ok (mctp_mmbi_tx api) mmbi_ok mtu b (add_mset blk F) (set_dev b d w\<lparr>heap := h\<rparr>) \<and>
     endpoint_ok (mctp_mmbi_tx api) mmbi_ok mtu b (add_mset blk F) w'"
proof -
  have ops: "ops w = default_alloc_ops" and mem: "h_ok (heap w) = (\<lambda>b n. True)" using assms(2) by (simp_all add: plenty_def)
  from assms(1) ops assms(3,4) show ?thesis
  proof (cases rule: mctp_mmbi_poll_cases)
    case (packet pkt blk h bs' err' d' w2)
    then have e: "bs' = bs" "d' = d" using assms(7) by simp_all
    have "plenty (set_dev b d w\<lparr>heap := h\<rparr>)" using packet(7) ops mem by (simp add: plenty_def set_dev_def)
    then show ?thesis using packet unfolding e by blast
  qed (use assms mem in \<open>auto simp: not_less\<close>)
qed

theorem mmbi_poll_packet_witness:
  "\<exists>g w' blk. mctp_mmbi_poll (ex_drv_api 1) 0 (set_dev 0 g (ex_drv 1 9)) = Inr (0, w') \<and>
     endpoint_ok (mctp_mmbi_tx (ex_drv_api 1)) mmbi_ok 65540 0 {#blk, 0#} w'"
proof -
  obtain g where g: "drv_ok g" "dev_out 0 g = dev_out 0 (dev_of 0 (ex_drv 0 8)) @ take 5 [1, 9, 8, 0xc8, 0x7e]"
    by (rule driver_WriteFile [OF ex_drv_api_ok(1) ex_drv_parts(6), of "[1, 9, 8, 0xc8, 0x7e]" 5]) (simp_all add: ex_drv_ok(3) ring_size_def)
  have inq: "dev_in 1 g = [1, 9, 8, 0xc8, 0x7e]" using g(2) by (simp add: ex_drv_ok(3)) (simp add: dev_in_def dev_out_def)
  note on = on_driver_set_dev [OF ex_drv_ok(1) g(1), of 1 9]
  let ?w = "set_dev 0 g (ex_drv 1 9)"
  have p: "endpoint_ok (mctp_mmbi_tx (ex_drv_api 1)) mmbi_ok 65540 0 {#0#} ?w" "plenty ?w" "b_pkt_header (bindings ?w 0) = 0"
    "has_device (b_priv (bindings ?w 0))" "pktbuf_storage_size (bindings ?w 0) = 65540" "unat (poll_limit (bindings ?w 0)) = 65544"
    using on(1) mmbi_sized_eq [of "bindings ?w 0"] by (simp_all add: on_driver_def mmbi_sized_def)
  obtain g' err where rd: "ReadFile (ex_drv_api 1) (poll_limit (bindings ?w 0)) (dev_of 0 ?w) = ((True, [1, 9, 8, 0xc8, 0x7e], err), g')"
    unfolding on(2) by (rule driver_ReadFile [OF ex_drv_api_ok(1) g(1), of 1 "poll_limit (bindings ?w 0)"]) (simp add: p(6) inq del: One_nat_def)
  have pk: "PeekNamedPipe (ex_drv_api 1) (dev_of 0 ?w) \<noteq> (True, 0)" by (simp add: ex_drv_api_def)
  show ?thesis using mmbi_poll_packet [OF p(1-3) ex_drv_api_ok(2) p(4) pk rd] p(5) by auto
qed



section \<open>The context and transport APIs\<close>

lemma ex_start_mem: "ops ex_start = default_alloc_ops" "h_ok (heap ex_start) = (\<lambda>b n. True)"
  by (simp_all add: ex_start_def)

text \<open>
  C31: with memory, \<open>mctp_mmbi_context_init\<close> ends in one of two ways: the device could not be opened, and every block it
  had allocated is freed; or the context is ready: a running, enabled endpoint under the given EID,
  with the device open and messages going to the context's receive function.
\<close>

theorem context_init_outcome:
  assumes "ops w = default_alloc_ops" and "heap_owns F (heap w)" and "h_ok (heap w) = (\<lambda>b n. True)"
    and "\<forall>d. fst (CreateFileA api path d) \<noteq> 0"
  shows "(\<exists>w'. mctp_mmbi_context_init api path eid w = Inr (None, w') \<and> heap_owns F (heap w') \<and>
        (\<exists>d. fst (CreateFileA api path d) = INVALID_HANDLE_VALUE)) \<or>
     (\<exists>c w'. mctp_mmbi_context_init api path eid w = Inr (Some c, w') \<and> context_ready api eid F c w' \<and>
        (\<exists>d. fst (CreateFileA api path d) \<noteq> INVALID_HANDLE_VALUE))"
  by (rule context_init_cases) (use assms in auto)

theorem context_init_outcome_witness:
  "\<exists>c w'. mctp_mmbi_context_init ex_api ''mmbi0'' 9 ex_start = Inr (Some c, w') \<and> context_ready ex_api 9 {#0#} c w'"
  using context_init_outcome [OF ex_start_mem(1) ex_start_heap(2) ex_start_mem(2), of ex_api "''mmbi0''" 9] by (simp add: ex_api_def)

definition ex_closing :: "unit mmbi_world" where
  "ex_closing = ex_endpoint\<lparr>heap := \<lparr>h_next = 3, h_live = {0, 1, 2}, h_ok = (\<lambda>b n. True)\<rparr>\<rparr>"

text \<open>
  C32: \<open>mctp_mmbi_context_destroy\<close> frees the binding, the instance, the messages being assembled and the
  context itself, each once. Left over are the blocks \<open>F\<close> it does not know and a pending message.
\<close>

theorem context_destroy_releases:
  assumes "endpoint_ok (mctp_mmbi_tx api) mmbi_ok mtu b ({#b, m, cx_blk c#} + F) w" and "ops w = default_alloc_ops"
    and "cx_mctp c = Some m" and "cx_mmbi c = Some b"
  shows "\<exists>w'. mctp_mmbi_context_destroy (Some c) w = Inr w' \<and> heap_owns (own (tx_msg (bus_at w 0)) + F) (heap w')"
  by (rule context_destroy_ok [OF assms])

theorem context_destroy_releases_witness:
  "\<exists>w'. mctp_mmbi_context_destroy (Some \<lparr>cx_blk = 2, cx_mctp = Some 1, cx_mmbi = Some 0, cx_rx_cb = None,
       cx_user_ctx = 0, cx_debug = False\<rparr>) ex_closing = Inr w' \<and> heap_owns {#} (heap w')"
proof -
  let ?c = "\<lparr>cx_blk = 2, cx_mctp = Some 1, cx_mmbi = Some 0, cx_rx_cb = None, cx_user_ctx = 0, cx_debug = False\<rparr>"
  have own0: "owned ex_endpoint = {#}" by (simp add: owned_def ex_endpoint_mem(2,3) zero_bus_def)
  have ok: "endpoint_ok (mctp_mmbi_tx ex_api) mmbi_ok 65540 0 ({#0, 1, cx_blk ?c#} + {#}) ex_closing"
    using ex_endpoint_ok own0 by (auto simp: endpoint_ok_def ex_closing_def heap_owns_def heap_ok_def)
  show ?thesis using context_destroy_releases [OF ok] ex_endpoint_mem(9)
    by (simp add: ex_closing_def ex_endpoint_mem(2) zero_bus_def)
qed

text \<open>
  C39: when the device opens but there is no memory for the packet buffer, \<open>mctp_mmbi_context_init\<close> does not report the
  failure: it goes on with the binding and fails an assertion in \<open>mctp_register_bus\<close>.
\<close>

theorem context_init_asserts_nomem:
  assumes "ops w = default_alloc_ops" and "h_ok (heap w) = (\<lambda>k n. n \<noteq> MCTP_PKTBUF_SIZE 65536)"
    and "\<forall>d. fst (CreateFileA api path d) \<noteq> 0 \<and> fst (CreateFileA api path d) \<noteq> INVALID_HANDLE_VALUE"
  shows "mctp_mmbi_context_init api path eid w = Inl Assert_failed"
  by (rule context_init_asserts) (use assms in auto)

theorem context_init_asserts_nomem_witness:
  "mctp_mmbi_context_init ex_api ''mmbi0'' 9
     (ex_start\<lparr>heap := (heap ex_start)\<lparr>h_ok := (\<lambda>k n. n \<noteq> MCTP_PKTBUF_SIZE 65536)\<rparr>\<rparr>) = Inl Assert_failed"
  by (rule context_init_asserts_nomem) (simp_all add: ex_start_def ex_api_def)

text \<open>
  C33: \<open>mctp_transport_init\<close> has the same two outcomes, with a single attempt to open the device.
\<close>

theorem transport_init_outcome:
  assumes "ops w = default_alloc_ops" and "heap_owns F (heap w)" and "h_ok (heap w) = (\<lambda>b n. True)"
    and "\<forall>d. fst (CreateFileA api path d) \<noteq> 0"
  shows "(\<exists>w'. mctp_transport_init api path eid w = Inr (None, w') \<and> heap_owns F (heap w') \<and>
        (\<exists>d. fst (CreateFileA api path d) = INVALID_HANDLE_VALUE)) \<or>
     (\<exists>c w'. mctp_transport_init api path eid w = Inr (Some c, w') \<and> transport_ready api eid F c w' \<and>
        (\<exists>d. fst (CreateFileA api path d) \<noteq> INVALID_HANDLE_VALUE))"
  by (rule transport_init_cases) (use assms in auto)

theorem transport_init_outcome_witness:
  "\<exists>c w'. mctp_transport_init ex_api ''mmbi1'' 8 ex_start = Inr (Some c, w') \<and> transport_ready ex_api 8 {#0#} c w'"
  using transport_init_outcome [OF ex_start_mem(1) ex_start_heap(2) ex_start_mem(2), of ex_api "''mmbi1''" 8] by (simp add: ex_api_def)

end
